theory Spec2Isabelle
  imports Complex_Main
begin

section \<open>The Sovereign Trust Layer: entropy nodes and quorum consensus\<close>

text \<open>
  A shallow embedding of \<^verbatim>\<open>SovereignEntropyNodeController\<close>
  (src/controllers/sovereignEntropyNodeController.js), of \<^verbatim>\<open>RitualController\<close>
  (src/unnamed/part_003) and of \<^verbatim>\<open>ExchangeController.logComplianceEvent\<close>
  (src/unnamed/part_005). Every operation takes the state of the process and returns the
  new state together with either the error it throws or the value it returns. A throw
  does not undo the mutations made before it, so the state is returned in both cases.

  Numbers on which the controllers do arithmetic (\<^verbatim>\<open>votes_cast\<close>, \<^verbatim>\<open>staking_balance\<close>
  and the amount staked) are IEEE-754 doubles, as in JavaScript. The verification count
  of a signal starts at 0 and only moves by \<^verbatim>\<open>+= 1\<close>, and is an \<open>int\<close>, as are the
  durations; scores, thresholds and wages are only compared or passed on, and are \<open>rat\<close>.
\<close>

subsection \<open>JavaScript numbers\<close>

text \<open>
  A double is \<^verbatim>\<open>NaN\<close>, an infinity or a finite value, held as the rational it denotes.
  The two zeros are not told apart: no operation below observes the sign of a zero.
\<close>

datatype jsnum = NaN | NegInf | Fin rat | PosInf

text \<open>
  Rounding of a rational to the nearest double, ties to even (the rounding of every
  arithmetic operation of the language). \<open>binade a\<close> is the exponent of the binade of
  \<open>a\<close>: the greatest \<open>e\<close> from \<open>-1022\<close> to \<open>1023\<close> with \<open>2 ^ e \<le> a\<close>, and \<open>-1022\<close> for the
  subnormal numbers. Doubles of that binade are the multiples of \<open>2 ^ (e - 52)\<close>; a result
  of \<open>2 ^ 1024\<close> or more is an infinity.
\<close>

fun binadeFrom :: "nat \<Rightarrow> rat \<Rightarrow> int" where
  "binadeFrom 0 a = - 1022"
| "binadeFrom (Suc n) a =
     (if power_int 2 (int (Suc n) - 1022) \<le> a then int (Suc n) - 1022 else binadeFrom n a)"

definition binade :: "rat \<Rightarrow> int" where
  "binade a = binadeFrom 2045 a"

definition roundHalfEven :: "rat \<Rightarrow> int" where
  "roundHalfEven m =
     (let f = \<lfloor>m\<rfloor>; d = m - of_int f
      in if d < 1 / 2 then f else if 1 / 2 < d then f + 1 else if even f then f else f + 1)"

definition round64 :: "rat \<Rightarrow> jsnum" where
  "round64 x =
     (if x = 0 then Fin 0
      else let a = \<bar>x\<bar>;
               q = power_int 2 (binade a - 52);
               r = of_int (roundHalfEven (a / q)) * q
           in if power_int 2 1024 \<le> r then (if 0 < x then PosInf else NegInf)
              else Fin (if 0 < x then r else - r))"

text \<open>\<^verbatim>\<open>x + y\<close> on numbers\<close>

fun numAdd :: "jsnum \<Rightarrow> jsnum \<Rightarrow> jsnum" where
  "numAdd NaN y = NaN"
| "numAdd x NaN = NaN"
| "numAdd PosInf NegInf = NaN"
| "numAdd NegInf PosInf = NaN"
| "numAdd PosInf y = PosInf"
| "numAdd x PosInf = PosInf"
| "numAdd NegInf y = NegInf"
| "numAdd x NegInf = NegInf"
| "numAdd (Fin a) (Fin b) = round64 (a + b)"

text \<open>\<^verbatim>\<open>x < y\<close> on numbers: false when either is \<^verbatim>\<open>NaN\<close>.\<close>

fun numLess :: "jsnum \<Rightarrow> jsnum \<Rightarrow> bool" where
  "numLess NaN y = False"
| "numLess x NaN = False"
| "numLess x NegInf = False"
| "numLess NegInf y = True"
| "numLess PosInf y = False"
| "numLess (Fin a) PosInf = True"
| "numLess (Fin a) (Fin b) = (a < b)"

subsection \<open>JavaScript values\<close>

datatype jsval =
    Undefined
  | Bool bool
  | Num jsnum
  | Str string
  | Arr "jsval list"
  | Obj "(string \<times> jsval) list"

text \<open>What \<^verbatim>\<open>if (v)\<close>, \<^verbatim>\<open>!v\<close> and \<^verbatim>\<open>v || d\<close> test.\<close>

fun truthy :: "jsval \<Rightarrow> bool" where
  "truthy Undefined = False"
| "truthy (Bool b) = b"
| "truthy (Num n) = (n \<noteq> NaN \<and> n \<noteq> Fin 0)"
| "truthy (Str s) = (s \<noteq> [])"
| "truthy (Arr xs) = True"
| "truthy (Obj kvs) = True"

text \<open>An optional string property: absent (\<^verbatim>\<open>undefined\<close>) or a string; the empty string is falsy.\<close>

fun truthyStr :: "string option \<Rightarrow> bool" where
  "truthyStr None = False"
| "truthyStr (Some s) = (s \<noteq> [])"

text \<open>\<^verbatim>\<open>xs[i]\<close>: \<^verbatim>\<open>undefined\<close> beyond the end of the array.\<close>

definition elemAt :: "'a list \<Rightarrow> nat \<Rightarrow> 'a option" where
  "elemAt xs i = (if i < length xs then Some (xs ! i) else None)"

subsection \<open>Data model\<close>

datatype error =
    ValidationFailed
  | NodeNotFound
  | SignalNotFound
  | InvalidSoulboundId string
  | EntropyFetchFailed nat string
  | NotAuthorizedToVote
  | InsufficientReputation
  | InsufficientStakingBalance
  | Rejected string
  | TypeError

text \<open>
  \<open>Rejected msg\<close> is a promise of the chain adapter rejected with message \<open>msg\<close>, which an
  \<^verbatim>\<open>await\<close> outside any \<^verbatim>\<open>try\<close> rethrows. \<open>TypeError\<close> is a property read on
  \<^verbatim>\<open>undefined\<close>. \<open>EntropyFetchFailed n msg\<close> is
  \<^verbatim>\<open>Error(`Failed to fetch entropy after ${n} attempts: ${msg}`)\<close>.
\<close>

record retry_policy =
  maxAttempts :: int
  backoffMs :: int

record post_process =
  pp_type :: string
  callback :: jsval

record entropy_agent =
  contracts :: "string list"
  ea_method :: string
  ea_format :: string
  cacheTTL :: int
  retryPolicy :: retry_policy
  postProcess :: "post_process option"

record governance =
  proposalThreshold :: rat
  votingContract :: string

record transaction_hooks =
  onEntropyFetch :: "string option"
  onVote :: "string option"

text \<open>
  A node and the descriptor it is created from are the same kind of object: the node is
  \<^verbatim>\<open>{...data, node_id, type, creation_date, reputation_score}\<close>. The four properties
  that \<^verbatim>\<open>createNode\<close> sets are optional in a descriptor; so are \<^verbatim>\<open>postProcess\<close> and
  \<^verbatim>\<open>transactionHooks\<close>, which the code reads with \<^verbatim>\<open>?.\<close>. Properties that only
  \<^verbatim>\<open>createProject\<close> and \<^verbatim>\<open>toggleAdRevenue\<close> touch are left out.
\<close>

record node =
  node_id :: "string option"
  node_type :: "string option"
  creation_date :: "string option"
  reputation_score :: "rat option"
  wallet_address :: string
  soulboundId :: string
  username :: string
  roles :: "string list"
  entropy_agent :: entropy_agent
  governance :: governance
  transactionHooks :: "transaction_hooks option"
  karmaWage :: rat
  votes_cast :: jsnum
  staking_balance :: jsnum

datatype signal_status = pending | verified | rejected

record signal =
  signal_id :: string
  signal_initiator :: string
  signal_type :: string
  payload :: jsval
  signal_timestamp :: string
  signal_status :: signal_status
  verificationCount :: int

record consensus =
  signalId :: string
  reached :: bool
  consensus_timestamp :: string
  verifications :: int

record action_request =
  req_type :: string
  req_target :: string

record action =
  action_type :: string
  target :: string
  executedAt :: string

datatype ritual_status = completed

record ritual =
  ritual_id :: string
  ritual_initiator :: string
  actions :: "action list"
  ritual_status :: ritual_status
  ritual_timestamp :: string

record ritual_data =
  rituals :: "ritual list"
  signals :: "signal list"
  consensusRecords :: "consensus list"

text \<open>
  An entry of \<^verbatim>\<open>exchangeData.exchange.compliance.auditLog\<close>. \<open>details\<close> holds the object
  whose \<^verbatim>\<open>JSON.stringify\<close> text the source stores.
\<close>

record audit_event =
  event :: string
  timestamp :: string
  user :: string
  details :: jsval

subsection \<open>Collaborators and state\<close>

text \<open>
  The calls the controllers make on the chain adapter, and the timer wait of the retry
  loop. The adapter is not part of the repository; the effects are recorded in the order
  they are issued.
\<close>

datatype effect =
    VerifySoulboundId string string
  | RegisterNode string node
  | CallContract "string option" string string
  | ExecutePostProcess string jsval jsval
  | CacheEntropy string jsval int
  | ExecuteHook string jsval
  | DistributeKarmaWage string rat
  | UpdateReputation string rat
  | SubmitVote string string jsval jsval
  | UpdateStaking string jsnum
  | Sleep int

text \<open>
  What the process does not decide: the compiled schemas (\<^verbatim>\<open>ajv.compile\<close> of JSON files
  that are not in the repository), the chain adapter, the clock and the UUID generator.
  \<^item> \<open>validateNode d\<close> is \<open>None\<close> when the node schema rejects \<open>d\<close>, else \<open>d\<close> with the
    schema's defaults filled in (\<^verbatim>\<open>useDefaults: true\<close>).
  \<^item> \<open>chainAdapter h c\<close> is the outcome of the call \<open>c\<close> issued after the effects \<open>h\<close>:
    \<open>Inl msg\<close> a rejection, \<open>Inr v\<close> the resolved value.
  \<^item> \<open>clock n\<close> and \<open>randomUUID n\<close> are the results of the \<open>n\<close>-th reading of
    \<^verbatim>\<open>new Date().toISOString()\<close> and of the \<open>n\<close>-th \<^verbatim>\<open>randomUUID()\<close>/\<^verbatim>\<open>uuidv4()\<close>.
\<close>

record env =
  validateNode :: "node \<Rightarrow> node option"
  validateRitual :: "ritual_data \<Rightarrow> bool"
  validateExchange :: "audit_event list \<Rightarrow> bool"
  chainAdapter :: "effect list \<Rightarrow> effect \<Rightarrow> string + jsval"
  clock :: "nat \<Rightarrow> string"
  randomUUID :: "nat \<Rightarrow> string"

record world =
  nodes :: "string \<rightharpoonup> node"
  ritualData :: ritual_data
  auditLog :: "audit_event list"
  effects :: "effect list"
  clockReads :: nat
  uuidDraws :: nat

type_synonym 'a outcome = "world \<times> (error + 'a)"

text \<open>Sequencing: a throw skips the rest and keeps the state reached.\<close>

definition andThen :: "'a outcome \<Rightarrow> ('a \<Rightarrow> world \<Rightarrow> 'b outcome) \<Rightarrow> 'b outcome" where
  "andThen m f = (case m of (w, Inl e) \<Rightarrow> (w, Inl e) | (w, Inr x) \<Rightarrow> f x w)"

text \<open>\<^verbatim>\<open>await this.chainAdapter.f(...)\<close>\<close>

definition await :: "env \<Rightarrow> effect \<Rightarrow> world \<Rightarrow> jsval outcome" where
  "await E c w =
     (w\<lparr>effects := effects w @ [c]\<rparr>,
      case chainAdapter E (effects w) c of Inl msg \<Rightarrow> Inl (Rejected msg) | Inr v \<Rightarrow> Inr v)"

text \<open>\<^verbatim>\<open>new Date().toISOString()\<close>\<close>

definition now :: "env \<Rightarrow> world \<Rightarrow> world \<times> string" where
  "now E w = (w\<lparr>clockReads := Suc (clockReads w)\<rparr>, clock E (clockReads w))"

text \<open>\<^verbatim>\<open>crypto.randomUUID()\<close>, \<^verbatim>\<open>uuidv4()\<close>\<close>

definition freshUUID :: "env \<Rightarrow> world \<Rightarrow> world \<times> string" where
  "freshUUID E w = (w\<lparr>uuidDraws := Suc (uuidDraws w)\<rparr>, randomUUID E (uuidDraws w))"

subsection \<open>ExchangeController.logComplianceEvent\<close>

definition logComplianceEvent :: "env \<Rightarrow> string \<Rightarrow> string \<Rightarrow> jsval \<Rightarrow> world \<Rightarrow> audit_event outcome" where
  "logComplianceEvent E ev userId dets w =
     (case now E w of (w1, t) \<Rightarrow>
        let log = \<lparr>event = ev, timestamp = t, user = userId, details = dets\<rparr>;
            w2 = w1\<lparr>auditLog := auditLog w1 @ [log]\<rparr>
        in if validateExchange E (auditLog w2) then (w2, Inr log) else (w2, Inl ValidationFailed))"

subsection \<open>RitualController\<close>

text \<open>\<^verbatim>\<open>this.validateData(this.ritualData)\<close>\<close>

definition validateData :: "env \<Rightarrow> world \<Rightarrow> unit outcome" where
  "validateData E w = (if validateRitual E (ritualData w) then (w, Inr ()) else (w, Inl ValidationFailed))"

text \<open>
  \<^verbatim>\<open>signals.find(s => s.id === signalId)\<close> returns the first signal with that id, and
  the assignments to its properties change that element of the array.
\<close>

definition findSignal :: "string \<Rightarrow> world \<Rightarrow> signal option" where
  "findSignal sid w = List.find (\<lambda>s. signal_id s = sid) (signals (ritualData w))"

fun updateFirst :: "('a \<Rightarrow> bool) \<Rightarrow> ('a \<Rightarrow> 'a) \<Rightarrow> 'a list \<Rightarrow> 'a list" where
  "updateFirst P f [] = []"
| "updateFirst P f (x # xs) = (if P x then f x # xs else x # updateFirst P f xs)"

definition initiateSignal :: "env \<Rightarrow> string \<Rightarrow> string \<Rightarrow> jsval \<Rightarrow> world \<Rightarrow> signal outcome" where
  "initiateSignal E initiator signalType pl w =
     (case freshUUID E w of (w1, u) \<Rightarrow>
      case now E w1 of (w2, t) \<Rightarrow>
        let s = \<lparr>signal_id = u, signal_initiator = initiator, signal_type = signalType,
                 payload = pl, signal_timestamp = t, signal_status = pending,
                 verificationCount = 0\<rparr>;
            w3 = w2\<lparr>ritualData := (ritualData w2)\<lparr>signals := signals (ritualData w2) @ [s]\<rparr>\<rparr>
        in andThen (validateData E w3) (\<lambda>_ w4.
           andThen (logComplianceEvent E ''signal_initiated'' initiator
                      (Obj [(''signalType'', Str signalType), (''payload'', pl)]) w4) (\<lambda>_ w5.
           (w5, Inr s))))"

definition verifySignal :: "env \<Rightarrow> string \<Rightarrow> string \<Rightarrow> bool \<Rightarrow> world \<Rightarrow> signal outcome" where
  "verifySignal E sid verifier isValid w =
     (case findSignal sid w of
        None \<Rightarrow> (w, Inl SignalNotFound)
      | Some s \<Rightarrow>
          let s' = s\<lparr>verificationCount := verificationCount s + 1,
                     signal_status := (if isValid then verified else rejected)\<rparr>;
              w1 = w\<lparr>ritualData := (ritualData w)\<lparr>signals :=
                      updateFirst (\<lambda>s. signal_id s = sid) (\<lambda>_. s') (signals (ritualData w))\<rparr>\<rparr>
          in andThen (validateData E w1) (\<lambda>_ w2.
             andThen (logComplianceEvent E ''signal_verified'' verifier
                        (Obj [(''signalId'', Str sid), (''isValid'', Bool isValid)]) w2) (\<lambda>_ w3.
             (w3, Inr s'))))"

text \<open>The \<^verbatim>\<open>actions.map\<close> of \<^verbatim>\<open>executeRitual\<close>: one reading of the clock per action.\<close>

fun stampActions :: "env \<Rightarrow> action_request list \<Rightarrow> world \<Rightarrow> world \<times> action list" where
  "stampActions E [] w = (w, [])"
| "stampActions E (a # as) w =
     (case now E w of (w1, t) \<Rightarrow>
      case stampActions E as w1 of (w2, rest) \<Rightarrow>
        (w2, \<lparr>action_type = req_type a, target = req_target a, executedAt = t\<rparr> # rest))"

definition actionJson :: "action_request \<Rightarrow> jsval" where
  "actionJson a = Obj [(''type'', Str (req_type a)), (''target'', Str (req_target a))]"

definition executeRitual :: "env \<Rightarrow> string option \<Rightarrow> string \<Rightarrow> action_request list \<Rightarrow> world \<Rightarrow> ritual outcome" where
  "executeRitual E ritualId initiator acts w =
     (case (if truthyStr ritualId then (w, the ritualId) else freshUUID E w) of (w1, rid) \<Rightarrow>
      case stampActions E acts w1 of (w2, stamped) \<Rightarrow>
      case now E w2 of (w3, t) \<Rightarrow>
        let r = \<lparr>ritual_id = rid, ritual_initiator = initiator, actions = stamped,
                 ritual_status = completed, ritual_timestamp = t\<rparr>;
            w4 = w3\<lparr>ritualData := (ritualData w3)\<lparr>rituals := rituals (ritualData w3) @ [r]\<rparr>\<rparr>
        in andThen (validateData E w4) (\<lambda>_ w5.
           andThen (logComplianceEvent E ''ritual_executed'' initiator
                      (Obj [(''ritualId'', (case ritualId of None \<Rightarrow> Undefined | Some i \<Rightarrow> Str i)),
                            (''actions'', Arr (map actionJson acts))]) w5) (\<lambda>_ w6.
           (w6, Inr r))))"

definition quorumConsensusCheck :: "env \<Rightarrow> string \<Rightarrow> int \<Rightarrow> world \<Rightarrow> consensus outcome" where
  "quorumConsensusCheck E sid requiredVerifications w =
     (case findSignal sid w of
        None \<Rightarrow> (w, Inl SignalNotFound)
      | Some s \<Rightarrow>
          (case now E w of (w1, t) \<Rightarrow>
            let c = \<lparr>signalId = sid, reached = (verificationCount s \<ge> requiredVerifications),
                     consensus_timestamp = t, verifications = verificationCount s\<rparr>;
                w2 = w1\<lparr>ritualData := (ritualData w1)\<lparr>consensusRecords :=
                        consensusRecords (ritualData w1) @ [c]\<rparr>\<rparr>
            in andThen (validateData E w2) (\<lambda>_ w3.
               if reached c then
                 (case freshUUID E w3 of (w4, u) \<Rightarrow>
                    andThen (executeRitual E (Some u) (signal_initiator s)
                               [\<lparr>req_type = ''consensus_approved'', req_target = sid\<rparr>] w4) (\<lambda>_ w5.
                    (w5, Inr c)))
               else (w3, Inr c))))"

subsection \<open>SovereignEntropyNodeController\<close>

text \<open>A call on the chain adapter, with the raw outcome (for the \<^verbatim>\<open>try\<close>/\<^verbatim>\<open>catch\<close> of the retry loop).\<close>

definition callAdapter :: "env \<Rightarrow> effect \<Rightarrow> world \<Rightarrow> world \<times> (string + jsval)" where
  "callAdapter E c w = (w\<lparr>effects := effects w @ [c]\<rparr>, chainAdapter E (effects w) c)"

text \<open>\<^verbatim>\<open>node.transactionHooks?.onX\<close>\<close>

definition hookOf :: "transaction_hooks option \<Rightarrow> (transaction_hooks \<Rightarrow> string option) \<Rightarrow> string option" where
  "hookOf th sel = (case th of None \<Rightarrow> None | Some h \<Rightarrow> sel h)"

text \<open>\<^verbatim>\<open>if (hook) { await this.chainAdapter.executeHook(hook, payload); }\<close>\<close>

definition triggerHook :: "env \<Rightarrow> string option \<Rightarrow> jsval \<Rightarrow> world \<Rightarrow> jsval outcome" where
  "triggerHook E hook pl w =
     (case hook of
        None \<Rightarrow> (w, Inr Undefined)
      | Some h \<Rightarrow> if h \<noteq> [] then await E (ExecuteHook h pl) w else (w, Inr Undefined))"

definition createNode :: "env \<Rightarrow> node \<Rightarrow> world \<Rightarrow> string outcome" where
  "createNode E data0 w =
     (case validateNode E data0 of
        None \<Rightarrow> (w, Inl ValidationFailed)
      | Some data \<Rightarrow>
         (case (case node_id data of
                  None \<Rightarrow> freshUUID E w
                | Some i \<Rightarrow> if i \<noteq> [] then (w, i) else freshUUID E w) of (w1, nodeId) \<Rightarrow>
          case now E w1 of (w2, t) \<Rightarrow>
            let nd = data\<lparr>node_id := Some nodeId,
                          node_type := Some ''entropy-node'',
                          creation_date := Some t,
                          reputation_score := Some (case reputation_score data of
                                                      None \<Rightarrow> 50
                                                    | Some r \<Rightarrow> if r \<noteq> 0 then r else 50)\<rparr>
            in andThen (await E (VerifySoulboundId (wallet_address nd) (soulboundId nd)) w2) (\<lambda>isValidSoulbound w3.
               if \<not> truthy isValidSoulbound then (w3, Inl (InvalidSoulboundId (wallet_address nd)))
               else
                 let w4 = w3\<lparr>nodes := (nodes w3)(nodeId \<mapsto> nd)\<rparr>
                 in andThen (await E (RegisterNode nodeId nd) w4) (\<lambda>_ w5.
                    andThen (logComplianceEvent E ''node_created'' (wallet_address nd)
                               (Obj [(''node_id'', Str nodeId), (''username'', Str (username nd))]) w5) (\<lambda>_ w6.
                    (w6, Inr nodeId))))))"

text \<open>
  \<^verbatim>\<open>if (postProcess?.type !== 'none') { processedEntropy = await executePostProcess(...) }\<close>.
  With \<^verbatim>\<open>postProcess\<close> absent the test is true and \<^verbatim>\<open>postProcess.type\<close> throws.
\<close>

definition applyPostProcess :: "env \<Rightarrow> post_process option \<Rightarrow> jsval \<Rightarrow> world \<Rightarrow> jsval outcome" where
  "applyPostProcess E pp entropy w =
     (case pp of
        None \<Rightarrow> (w, Inl TypeError)
      | Some p \<Rightarrow>
          if pp_type p \<noteq> ''none''
          then await E (ExecutePostProcess (pp_type p) (callback p) entropy) w
          else (w, Inr entropy))"

definition getNode :: "string \<Rightarrow> world \<Rightarrow> node outcome" where
  "getNode nodeId w = (case nodes w nodeId of None \<Rightarrow> (w, Inl NodeNotFound) | Some nd \<Rightarrow> (w, Inr nd))"

text \<open>
  The retry loop of \<^verbatim>\<open>fetchEntropy\<close>, from the state where \<^verbatim>\<open>attempts\<close> has the given
  value. \<^verbatim>\<open>entropy\<close> is assigned only right before the \<^verbatim>\<open>break\<close>, so it is still
  \<^verbatim>\<open>undefined\<close> when the loop ends because its condition is false.
\<close>

function fetchAttempts ::
  "env \<Rightarrow> string option \<Rightarrow> string \<Rightarrow> string \<Rightarrow> retry_policy \<Rightarrow> nat \<Rightarrow> world \<Rightarrow> jsval outcome" where
  "fetchAttempts E c m f rp attempts w =
     (if int attempts < maxAttempts rp then
        (case callAdapter E (CallContract c m f) w of
           (w1, Inr v) \<Rightarrow> (w1, Inr v)
         | (w1, Inl msg) \<Rightarrow>
             if int (Suc attempts) \<ge> maxAttempts rp
             then (w1, Inl (EntropyFetchFailed (Suc attempts) msg))
             else fetchAttempts E c m f rp (Suc attempts)
                    (w1\<lparr>effects := effects w1 @ [Sleep (backoffMs rp)]\<rparr>))
      else (w, Inr Undefined))"
  by pat_completeness auto
termination
  by (relation "measure (\<lambda>(E, c, m, f, rp, attempts, w). nat (maxAttempts rp - int attempts))") auto

declare fetchAttempts.simps [simp del]

definition fetchEntropy :: "env \<Rightarrow> string \<Rightarrow> nat \<Rightarrow> world \<Rightarrow> jsval outcome" where
  "fetchEntropy E nodeId contractIndex w =
     (case nodes w nodeId of
        None \<Rightarrow> (w, Inl NodeNotFound)
      | Some nd \<Rightarrow>
          let ea = entropy_agent nd;
              contract = elemAt (contracts ea) contractIndex
          in andThen (fetchAttempts E contract (ea_method ea) (ea_format ea) (retryPolicy ea) 0 w) (\<lambda>entropy w1.
             andThen (applyPostProcess E (postProcess ea) entropy w1) (\<lambda>processedEntropy w2.
             andThen (await E (CacheEntropy nodeId processedEntropy (cacheTTL ea)) w2) (\<lambda>_ w3.
             andThen (triggerHook E (hookOf (transactionHooks nd) onEntropyFetch)
                        (Obj [(''nodeId'', Str nodeId), (''entropy'', processedEntropy)]) w3) (\<lambda>_ w4.
             andThen (await E (DistributeKarmaWage (wallet_address nd) (karmaWage nd)) w4) (\<lambda>_ w5.
             andThen (await E (UpdateReputation (wallet_address nd) (1 / 2)) w5) (\<lambda>_ w6.
             andThen (logComplianceEvent E ''entropy_fetched'' (wallet_address nd)
                        (Obj [(''node_id'', Str nodeId),
                              (''contract'', (case contract of None \<Rightarrow> Undefined | Some a \<Rightarrow> Str a))]) w6) (\<lambda>_ w7.
             (w7, Inr processedEntropy)))))))))"

definition castVote :: "env \<Rightarrow> string \<Rightarrow> jsval \<Rightarrow> jsval \<Rightarrow> world \<Rightarrow> string outcome" where
  "castVote E nodeId proposalId vote w =
     (case nodes w nodeId of
        None \<Rightarrow> (w, Inl NodeNotFound)
      | Some nd \<Rightarrow>
          if ''voter'' \<notin> set (roles nd) then (w, Inl NotAuthorizedToVote)
          else if (case reputation_score nd of
                     None \<Rightarrow> False
                   | Some r \<Rightarrow> r < proposalThreshold (governance nd))
          then (w, Inl InsufficientReputation)
          else
            andThen (await E (SubmitVote (votingContract (governance nd)) (wallet_address nd) proposalId vote) w) (\<lambda>_ w1.
              let nd' = nd\<lparr>votes_cast := numAdd (votes_cast nd) (Fin 1)\<rparr>;
                  w2 = w1\<lparr>nodes := (nodes w1)(nodeId \<mapsto> nd')\<rparr>
              in andThen (triggerHook E (hookOf (transactionHooks nd') onVote)
                            (Obj [(''nodeId'', Str nodeId), (''proposalId'', proposalId), (''vote'', vote)]) w2) (\<lambda>_ w3.
                 andThen (await E (DistributeKarmaWage (wallet_address nd') (karmaWage nd')) w3) (\<lambda>_ w4.
                 andThen (await E (UpdateReputation (wallet_address nd') (3 / 10)) w4) (\<lambda>_ w5.
                 andThen (logComplianceEvent E ''vote_cast'' (wallet_address nd')
                            (Obj [(''node_id'', Str nodeId), (''proposalId'', proposalId), (''vote'', vote)]) w5) (\<lambda>_ w6.
                 (w6, Inr ''Vote cast successfully'')))))))"

definition updateStakingBalance :: "env \<Rightarrow> string \<Rightarrow> jsnum \<Rightarrow> world \<Rightarrow> jsnum outcome" where
  "updateStakingBalance E nodeId amount w =
     (case nodes w nodeId of
        None \<Rightarrow> (w, Inl NodeNotFound)
      | Some nd \<Rightarrow>
          if numLess amount (Fin 0) \<and> numLess (numAdd (staking_balance nd) amount) (Fin 0)
          then (w, Inl InsufficientStakingBalance)
          else
            let nd' = nd\<lparr>staking_balance := numAdd (staking_balance nd) amount\<rparr>;
                w1 = w\<lparr>nodes := (nodes w)(nodeId \<mapsto> nd')\<rparr>
            in andThen (await E (UpdateStaking (wallet_address nd') (staking_balance nd')) w1) (\<lambda>_ w2.
               andThen (logComplianceEvent E ''staking_updated'' (wallet_address nd')
                          (Obj [(''node_id'', Str nodeId), (''amount'', Num amount)]) w2) (\<lambda>_ w3.
               (w3, Inr (staking_balance nd')))))"

subsection \<open>Vocabulary of the properties\<close>

text \<open>
  A ritual as \<^verbatim>\<open>quorumConsensusCheck\<close> asks for it: initiated by the given actor, with the
  single action \<^verbatim>\<open>{type: 'consensus_approved', target: signalId}\<close>.
\<close>

definition approvalRitual :: "string \<Rightarrow> string \<Rightarrow> ritual \<Rightarrow> bool" where
  "approvalRitual sid initiator r \<longleftrightarrow>
     ritual_initiator r = initiator \<and> ritual_status r = completed \<and>
     map (\<lambda>a. (action_type a, target a)) (actions r) = [(''consensus_approved'', sid)]"

text \<open>
  A caller that makes \<open>n\<close> calls of \<^verbatim>\<open>quorumConsensusCheck\<close> with the same arguments, one
  after the other, and collects the records returned; the first throw ends the sequence.
\<close>

fun successiveChecks :: "env \<Rightarrow> string \<Rightarrow> int \<Rightarrow> nat \<Rightarrow> world \<Rightarrow> consensus list outcome" where
  "successiveChecks E sid k 0 w = (w, Inr [])"
| "successiveChecks E sid k (Suc n) w =
     andThen (quorumConsensusCheck E sid k w) (\<lambda>c w1.
     andThen (successiveChecks E sid k n w1) (\<lambda>cs w2. (w2, Inr (c # cs))))"

text \<open>The effects issued between two states, and the kinds of effect the properties count.\<close>

definition newEffects :: "world \<Rightarrow> world \<Rightarrow> effect list" where
  "newEffects w w' = drop (length (effects w)) (effects w')"

fun isCallContract :: "effect \<Rightarrow> bool" where
  "isCallContract (CallContract c m f) = True"
| "isCallContract _ = False"

fun isCacheEntropy :: "effect \<Rightarrow> bool" where
  "isCacheEntropy (CacheEntropy n v t) = True"
| "isCacheEntropy _ = False"

fun isKarmaWage :: "effect \<Rightarrow> bool" where
  "isKarmaWage (DistributeKarmaWage a r) = True"
| "isKarmaWage _ = False"

fun isReputation :: "effect \<Rightarrow> bool" where
  "isReputation (UpdateReputation a r) = True"
| "isReputation _ = False"

text \<open>
  The outcome of the gateway call number \<open>j + 1\<close> of a fetch that starts in state \<open>w\<close>:
  the adapter's answer to the call after \<open>j\<close> earlier calls, each followed by the backoff
  wait.
\<close>

definition gatewayAttempt :: "env \<Rightarrow> world \<Rightarrow> effect \<Rightarrow> int \<Rightarrow> nat \<Rightarrow> string + jsval" where
  "gatewayAttempt E w call b j = chainAdapter E (effects w @ concat (replicate j [call, Sleep b])) call"

text \<open>
  The collaborators other than the contract gateway never fail: every other adapter call
  resolves and the audit log validates.
\<close>

definition collaboratorsSucceed :: "env \<Rightarrow> bool" where
  "collaboratorsSucceed E \<longleftrightarrow>
     (\<forall>h c. \<not> isCallContract c \<longrightarrow> (\<exists>v. chainAdapter E h c = Inr v)) \<and> (\<forall>l. validateExchange E l)"

text \<open>The effects of \<^verbatim>\<open>triggerHook\<close> and of \<^verbatim>\<open>applyPostProcess\<close>: one adapter call or none.\<close>

definition hookEffects :: "string option \<Rightarrow> jsval \<Rightarrow> effect list" where
  "hookEffects hook pl =
     (case hook of None \<Rightarrow> [] | Some h \<Rightarrow> if h \<noteq> [] then [ExecuteHook h pl] else [])"

definition postProcessEffects :: "post_process option \<Rightarrow> jsval \<Rightarrow> effect list" where
  "postProcessEffects pp entropy =
     (case pp of
        None \<Rightarrow> []
      | Some p \<Rightarrow> if pp_type p \<noteq> ''none'' then [ExecutePostProcess (pp_type p) (callback p) entropy] else [])"

text \<open>
  The adapter resolves each call of a sequence issued one after the other, the first of
  them after the effects \<open>h\<close>.
\<close>

fun allResolve :: "env \<Rightarrow> effect list \<Rightarrow> effect list \<Rightarrow> bool" where
  "allResolve E h [] = True"
| "allResolve E h (c # cs) = (\<not> isl (chainAdapter E h c) \<and> allResolve E (h @ [c]) cs)"

text \<open>
  The schema validators accept the states that \<open>n\<close> successive calls of
  \<^verbatim>\<open>quorumConsensusCheck\<close> reach: at each call the ritual data with the new record
  and, when the threshold is met, the ritual data with the new ritual and the audit log
  with its event.
\<close>

fun checksAccepted :: "env \<Rightarrow> string \<Rightarrow> int \<Rightarrow> nat \<Rightarrow> world \<Rightarrow> bool" where
  "checksAccepted E sid k 0 w = True"
| "checksAccepted E sid k (Suc n) w =
     (case findSignal sid w of
        None \<Rightarrow> False
      | Some s \<Rightarrow>
          validateRitual E ((ritualData w)\<lparr>consensusRecords := consensusRecords (ritualData w) @
              [\<lparr>signalId = sid, reached = (k \<le> verificationCount s),
                consensus_timestamp = clock E (clockReads w),
                verifications = verificationCount s\<rparr>]\<rparr>) \<and>
          (k \<le> verificationCount s \<longrightarrow>
             validateRitual E (ritualData (fst (quorumConsensusCheck E sid k w))) \<and>
             validateExchange E (auditLog (fst (quorumConsensusCheck E sid k w)))) \<and>
          checksAccepted E sid k n (fst (quorumConsensusCheck E sid k w)))"

text \<open>\<^verbatim>\<open>n >= 0\<close> on numbers\<close>

definition nonNegative :: "jsnum \<Rightarrow> bool" where
  "nonNegative n = (case n of Fin r \<Rightarrow> 0 \<le> r | PosInf \<Rightarrow> True | _ \<Rightarrow> False)"

subsection \<open>A concrete process\<close>

text \<open>
  Collaborators that accept everything, one signal that two verifiers have confirmed
  (scenario B of the specification after its two \<^verbatim>\<open>verifySignal\<close> calls), and one node
  with the retry policy of scenario A.
\<close>

definition demoSignal :: signal where
  "demoSignal = \<lparr>signal_id = ''sig-1'', signal_initiator = ''agentA'', signal_type = ''oracle-update'',
                  payload = Obj [(''val'', Num (Fin 1))], signal_timestamp = ''t0'',
                  signal_status = verified, verificationCount = 2\<rparr>"

definition demoNode :: node where
  "demoNode = \<lparr>node_id = Some ''node-1'', node_type = Some ''entropy-node'',
                creation_date = Some ''t0'', reputation_score = Some 50,
                wallet_address = ''0xabc'', soulboundId = ''sb-1'', username = ''alice'',
                roles = [''voter'', ''creator''],
                entropy_agent = \<lparr>contracts = [''0xc0'', ''0xc1''], ea_method = ''getEntropy'',
                                  ea_format = ''hex'', cacheTTL = 60,
                                  retryPolicy = \<lparr>maxAttempts = 3, backoffMs = 10\<rparr>,
                                  postProcess = Some \<lparr>pp_type = ''none'', callback = Undefined\<rparr>\<rparr>,
                governance = \<lparr>proposalThreshold = 40, votingContract = ''0xgov''\<rparr>,
                transactionHooks = Some \<lparr>onEntropyFetch = Some ''notify'', onVote = None\<rparr>,
                karmaWage = 2, votes_cast = Fin 0, staking_balance = Fin 100\<rparr>"

definition demoEnv :: env where
  "demoEnv = \<lparr>validateNode = Some, validateRitual = (\<lambda>_. True), validateExchange = (\<lambda>_. True),
               chainAdapter = (\<lambda>h c. Inr (Bool True)), clock = (\<lambda>n. ''t''), randomUUID = (\<lambda>n. ''uuid'')\<rparr>"

text \<open>A ritual schema that accepts the stores of at most five signals, and no other.\<close>

definition smallStores :: "ritual_data \<Rightarrow> bool" where
  "smallStores d \<longleftrightarrow> length (signals d) \<le> 5"

definition freshWorld :: world where
  "freshWorld = \<lparr>nodes = Map.empty,
                  ritualData = \<lparr>rituals = [], signals = [], consensusRecords = []\<rparr>,
                  auditLog = [], effects = [], clockReads = 0, uuidDraws = 0\<rparr>"

definition demoWorld :: world where
  "demoWorld = \<lparr>nodes = [''node-1'' \<mapsto> demoNode],
                 ritualData = \<lparr>rituals = [], signals = [demoSignal], consensusRecords = []\<rparr>,
                 auditLog = [], effects = [], clockReads = 0, uuidDraws = 0\<rparr>"

text \<open>A gateway that times out on its first \<open>k\<close> calls and then returns \<open>v\<close>.\<close>

definition flakyGateway :: "nat \<Rightarrow> jsval \<Rightarrow> effect list \<Rightarrow> effect \<Rightarrow> string + jsval" where
  "flakyGateway k v h c =
     (if isCallContract c
      then (if length (filter isCallContract h) < k then Inl ''timeout'' else Inr v)
      else Inr (Bool True))"

text \<open>An adapter whose hook dispatch fails and whose other calls resolve.\<close>

definition failingHooks :: "effect list \<Rightarrow> effect \<Rightarrow> string + jsval" where
  "failingHooks h c = (case c of ExecuteHook k p \<Rightarrow> Inl ''hook failed'' | _ \<Rightarrow> Inr (Str ''abc123''))"

section \<open>Properties of the numbers\<close>

lemma binadeFrom_range: "- 1022 \<le> binadeFrom n a \<and> binadeFrom n a \<le> int n - 1022"
  by (induction n) auto

lemma binadeFrom_le: "binadeFrom n a = - 1022 \<or> power_int 2 (binadeFrom n a) \<le> a"
  by (induction n) auto

lemma roundHalfEven_of_int: "roundHalfEven (of_int z) = z"
  by (simp add: roundHalfEven_def)

lemma roundHalfEven_nonneg: "0 \<le> m \<Longrightarrow> 0 \<le> roundHalfEven m"
  by (auto simp: roundHalfEven_def Let_def)

lemma round64_nonneg:
  assumes "0 \<le> x"
  shows "round64 x = PosInf \<or> (\<exists>r\<ge>0. round64 x = Fin r)"
proof (cases "x = 0")
  case True
  then show ?thesis by (simp add: round64_def)
next
  case False
  with assms have pos: "0 < x" by simp
  define q :: rat where "q = power_int 2 (binade \<bar>x\<bar> - 52)"
  have q: "0 < q" unfolding q_def by simp
  have "0 \<le> \<bar>x\<bar> / q" using q by simp
  then have "0 \<le> roundHalfEven (\<bar>x\<bar> / q)" by (rule roundHalfEven_nonneg)
  then have "0 \<le> of_int (roundHalfEven (\<bar>x\<bar> / q)) * q" using q by simp
  then show ?thesis
    using pos by (simp add: round64_def Let_def q_def)
qed

lemma pow2_low: "e \<le> 52 \<Longrightarrow> (1::rat) / power_int 2 (e - 52) = 2 ^ nat (52 - e)"
proof -
  assume "e \<le> 52"
  then have "e - 52 = - int (nat (52 - e))" by simp
  then have "power_int (2::rat) (e - 52) = inverse (2 ^ nat (52 - e))"
    by (simp only: power_int_minus power_int_of_nat)
  then show ?thesis by (simp add: field_simps)
qed

lemma binade_top:
  assumes "0 < a" "a \<le> 2 ^ 53"
  shows "binade a \<le> 52 \<or> (binade a = 53 \<and> a = 2 ^ 53)"
proof -
  from binadeFrom_le[of 2045 a] have "binade a = - 1022 \<or> power_int 2 (binade a) \<le> a"
    unfolding binade_def .
  then show ?thesis
  proof
    assume "binade a = - 1022" then show ?thesis by simp
  next
    assume le: "power_int 2 (binade a) \<le> a"
    with assms(2) have "power_int (2::rat) (binade a) \<le> power_int 2 53" by simp
    then have "binade a \<le> 53" by (rule power_int_le_imp_le_exp[rotated]) simp_all
    moreover have "a = 2 ^ 53" if "binade a = 53"
      using le that assms(2) by simp
    ultimately show ?thesis by linarith
  qed
qed

lemma round64_pos_int:
  assumes "0 < k" "k \<le> 2 ^ 53"
  shows "round64 (of_int k) = Fin (of_int k)"
proof -
  define a :: rat where "a = of_int k"
  define q :: rat where "q = power_int 2 (binade a - 52)"
  have a0: "0 < a" using assms(1) unfolding a_def by simp
  have "(of_int k :: rat) \<le> of_int (2 ^ 53)" using assms(2) by (simp only: of_int_le_iff)
  then have a53: "a \<le> 2 ^ 53" unfolding a_def by simp
  have q0: "0 < q" unfolding q_def by simp
  have ex: "\<exists>z. a / q = of_int z"
  proof -
    from binade_top[OF a0 a53] show ?thesis
    proof
      assume "binade a \<le> 52"
      then have inv: "1 / q = 2 ^ nat (52 - binade a)" unfolding q_def by (rule pow2_low)
      have "a / q = a * (1 / q)" by simp
      also have "\<dots> = a * 2 ^ nat (52 - binade a)" by (simp only: inv)
      also have "\<dots> = of_int (k * 2 ^ nat (52 - binade a))" unfolding a_def by simp
      finally show ?thesis by blast
    next
      assume top: "binade a = 53 \<and> a = 2 ^ 53"
      from top have b: "binade a = 53" by (rule conjunct1)
      from top have a: "a = 2 ^ 53" by (rule conjunct2)
      have "binade a - 52 = 1" unfolding b by simp
      then have "q = 2" unfolding q_def by (simp only: power_int_1_right)
      then have "a / q = a / 2" by (simp only:)
      also have "\<dots> = 2 ^ 53 / 2" by (subst a) (rule refl)
      also have "\<dots> = of_int (2 ^ 52)" by simp
      finally show ?thesis by blast
    qed
  qed
  then obtain z where z: "a / q = of_int z" by blast
  have "of_int (roundHalfEven (a / q)) * q = of_int z * q"
    unfolding z by (simp only: roundHalfEven_of_int)
  also have "\<dots> = a" using z q0 by (simp add: field_simps)
  finally have r: "of_int (roundHalfEven (a / q)) * q = a" .
  have "(2::rat) ^ 53 < 2 ^ 1024" by (rule power_strict_increasing) simp_all
  with a53 have "a < 2 ^ 1024" by linarith
  then have small: "\<not> power_int 2 1024 \<le> a" by (simp only: power_int_numeral not_le)
  have abs: "\<bar>a\<bar> = a" using a0 by simp
  have ne: "a \<noteq> 0" using a0 by simp
  have "round64 a = Fin a"
    unfolding round64_def Let_def abs q_def[symmetric] r
    using ne a0 small by (simp only: if_False if_True)
  then show ?thesis unfolding a_def .
qed

lemma round64_int:
  assumes "\<bar>k\<bar> \<le> 2 ^ 53"
  shows "round64 (of_int k) = Fin (of_int k)"
proof -
  consider "k = 0" | "0 < k" | "k < 0" by linarith
  then show ?thesis
  proof cases
    case 1
    then show ?thesis by (simp add: round64_def)
  next
    case 2
    with assms show ?thesis by (intro round64_pos_int) simp_all
  next
    case 3
    then have pos: "0 < - k" "- k \<le> 2 ^ 53" using assms by simp_all
    have neg: "round64 (- x) = (case round64 x of Fin r \<Rightarrow> Fin (- r) | PosInf \<Rightarrow> NegInf
                                  | NegInf \<Rightarrow> PosInf | NaN \<Rightarrow> NaN)" if "0 < x" for x
      using that by (simp add: round64_def Let_def)
    have "round64 (of_int k) = round64 (- of_int (- k))" by simp
    also have "\<dots> = Fin (- of_int (- k))"
      using neg[of "of_int (- k)"] round64_pos_int[OF pos] pos(1) by simp
    finally show ?thesis by simp
  qed
qed

lemma pow2_less_exp:
  assumes "power_int (2::rat) m < power_int 2 n"
  shows "m < n"
proof (rule ccontr)
  assume "\<not> m < n"
  then have "n \<le> m" by simp
  then have "power_int (2::rat) n \<le> power_int 2 m" by (rule power_int_increasing) simp
  with assms show False by simp
qed

lemma binadeFrom_eq:
  assumes "- 1022 \<le> e" "e \<le> int n - 1022" "power_int 2 e \<le> a" "a < power_int 2 (e + 1)"
  shows "binadeFrom n a = e"
  using assms(2)
proof (induction n)
  case 0
  with assms(1) show ?case by simp
next
  case (Suc n)
  show ?case
  proof (cases "power_int 2 (int (Suc n) - 1022) \<le> a")
    case True
    with assms(4) have "power_int (2::rat) (int (Suc n) - 1022) < power_int 2 (e + 1)" by simp
    then have "int (Suc n) - 1022 < e + 1" by (rule pow2_less_exp)
    with Suc.prems have "int (Suc n) - 1022 = e" by simp
    with True show ?thesis by simp
  next
    case False
    with assms(3) have "power_int (2::rat) e < power_int 2 (int (Suc n) - 1022)" by simp
    then have "e < int (Suc n) - 1022" by (rule pow2_less_exp)
    then have "e \<le> int n - 1022" by simp
    then have "binadeFrom n a = e" by (rule Suc.IH)
    with False show ?thesis by simp
  qed
qed

text \<open>\<open>2 ^ 53 + 1\<close> lies halfway between two doubles and rounds to the even one.\<close>

lemma round64_above_2p53: "round64 (2 ^ 53 + 1) = Fin (2 ^ 53)"
proof -
  define a :: rat where "a = 2 ^ 53 + 1"
  have lo: "power_int 2 53 \<le> a" unfolding a_def by simp
  have hi: "a < power_int 2 (53 + 1)" unfolding a_def by simp
  have "binadeFrom 2045 a = 53" by (rule binadeFrom_eq[OF _ _ lo hi]) simp_all
  then have b: "binade a - 52 = 1" unfolding binade_def by simp
  have q: "power_int (2::rat) (binade a - 52) = 2" unfolding b by (simp only: power_int_1_right)
  have half: "a / 2 = of_int (2 ^ 52) + 1 / 2" unfolding a_def by simp
  have fl: "\<lfloor>a / 2\<rfloor> = 2 ^ 52" unfolding half by (rule floor_unique) simp_all
  have d: "a / 2 - of_int (2 ^ 52) = 1 / 2" unfolding half by simp
  have "roundHalfEven (a / 2) = 2 ^ 52"
    unfolding roundHalfEven_def Let_def fl d by simp
  then have r: "of_int (roundHalfEven (a / 2)) * (2::rat) = 2 ^ 53" by (simp only:) simp
  have "(2::rat) ^ 53 < 2 ^ 1024" by (rule power_strict_increasing) simp_all
  then have small: "\<not> power_int (2::rat) 1024 \<le> 2 ^ 53" by (simp only: power_int_numeral not_le)
  have a0: "0 < a" unfolding a_def by simp
  then have abs: "\<bar>a\<bar> = a" and ne: "a \<noteq> 0" by simp_all
  have "round64 a = Fin (2 ^ 53)"
    unfolding round64_def Let_def abs q r
    using ne a0 small by (simp only: if_False if_True)
  then show ?thesis unfolding a_def .
qed

section \<open>Sequencing and the collaborators\<close>

lemma andThen_simps:
  "andThen (w, Inl e) f = (w, Inl e)"
  "andThen (w, Inr x) f = f x w"
  by (simp_all add: andThen_def)

lemma fst_andThen:
  "fst (andThen m f) = (case snd m of Inl e \<Rightarrow> fst m | Inr x \<Rightarrow> fst (f x (fst m)))"
  by (cases m) (auto simp: andThen_def split: sum.splits)

lemma snd_andThen:
  "snd (andThen m f) = (case snd m of Inl e \<Rightarrow> Inl e | Inr x \<Rightarrow> snd (f x (fst m)))"
  by (cases m) (auto simp: andThen_def split: sum.splits)

lemma fst_await: "fst (await E c w) = w\<lparr>effects := effects w @ [c]\<rparr>"
  by (simp add: await_def)

lemma snd_await:
  "snd (await E c w) = (case chainAdapter E (effects w) c of Inl msg \<Rightarrow> Inl (Rejected msg) | Inr v \<Rightarrow> Inr v)"
  by (simp add: await_def)

lemma fst_triggerHook: "fst (triggerHook E h p w) = w\<lparr>effects := effects w @ hookEffects h p\<rparr>"
  by (simp add: triggerHook_def hookEffects_def fst_await split: option.splits)

lemma fst_applyPostProcess:
  "fst (applyPostProcess E pp v w) = w\<lparr>effects := effects w @ postProcessEffects pp v\<rparr>"
  by (simp add: applyPostProcess_def postProcessEffects_def fst_await split: option.splits)

lemma fst_logComplianceEvent:
  "fst (logComplianceEvent E ev u d w) =
     w\<lparr>clockReads := Suc (clockReads w),
       auditLog := auditLog w @ [\<lparr>event = ev, timestamp = clock E (clockReads w), user = u, details = d\<rparr>]\<rparr>"
  by (simp add: logComplianceEvent_def now_def Let_def)

lemma snd_logComplianceEvent:
  "snd (logComplianceEvent E ev u d w) =
     (if validateExchange E (auditLog w @ [\<lparr>event = ev, timestamp = clock E (clockReads w), user = u, details = d\<rparr>])
      then Inr \<lparr>event = ev, timestamp = clock E (clockReads w), user = u, details = d\<rparr>
      else Inl ValidationFailed)"
  by (simp add: logComplianceEvent_def now_def Let_def)

lemma snd_await_succeeds:
  "collaboratorsSucceed E \<Longrightarrow> \<not> isCallContract c \<Longrightarrow>
     snd (await E c w) = Inr (projr (chainAdapter E (effects w) c))"
proof -
  assume "collaboratorsSucceed E" "\<not> isCallContract c"
  then obtain v where "chainAdapter E (effects w) c = Inr v"
    unfolding collaboratorsSucceed_def by blast
  then show ?thesis by (simp add: await_def)
qed

lemma snd_triggerHook_succeeds:
  "collaboratorsSucceed E \<Longrightarrow>
     snd (triggerHook E h p w) =
       Inr (case h of None \<Rightarrow> Undefined
            | Some k \<Rightarrow> if k \<noteq> [] then projr (chainAdapter E (effects w) (ExecuteHook k p)) else Undefined)"
  by (cases h) (simp_all add: triggerHook_def snd_await_succeeds)

lemma snd_logComplianceEvent_succeeds:
  "collaboratorsSucceed E \<Longrightarrow>
     snd (logComplianceEvent E ev u d w) =
       Inr \<lparr>event = ev, timestamp = clock E (clockReads w), user = u, details = d\<rparr>"
  by (simp add: snd_logComplianceEvent collaboratorsSucceed_def)


text \<open>When a sequence returns: each step in turn.\<close>

lemma isl_andThen:
  "isl (snd (andThen m f)) = (isl (snd m) \<or> isl (snd (f (projr (snd m)) (fst m))))"
  by (cases m) (auto simp: andThen_def split: sum.splits)

lemma snd_andThen_if:
  "snd (andThen m f) = (if isl (snd m) then Inl (projl (snd m)) else snd (f (projr (snd m)) (fst m)))"
  by (cases m) (auto simp: andThen_def split: sum.splits)

lemma isl_await: "isl (snd (await E c w)) = isl (chainAdapter E (effects w) c)"
  by (simp add: await_def split: sum.splits)

lemma allResolve_append:
  "allResolve E h (cs @ ds) = (allResolve E h cs \<and> allResolve E (h @ cs) ds)"
  by (induction cs arbitrary: h) simp_all

lemma isl_triggerHook:
  "isl (snd (triggerHook E h p w)) = (\<not> allResolve E (effects w) (hookEffects h p))"
  by (simp add: triggerHook_def hookEffects_def isl_await split: option.splits)

lemma isl_logComplianceEvent:
  "isl (snd (logComplianceEvent E ev u d w)) =
     (\<not> validateExchange E (auditLog w @ [\<lparr>event = ev, timestamp = clock E (clockReads w), user = u, details = d\<rparr>]))"
  by (simp add: snd_logComplianceEvent)

lemma allResolve_succeeds:
  "collaboratorsSucceed E \<Longrightarrow> \<forall>c\<in>set cs. \<not> isCallContract c \<Longrightarrow> allResolve E h cs"
proof (induction cs arbitrary: h)
  case Nil
  show ?case by simp
next
  case (Cons c cs)
  from Cons.prems(2) have "\<not> isCallContract c" by simp
  with Cons.prems(1) obtain v where "chainAdapter E h c = Inr v"
    unfolding collaboratorsSucceed_def by blast
  with Cons show ?case by simp
qed

section \<open>Properties of the quorum consensus engine\<close>

subsection \<open>Finding and changing the first match\<close>

lemma find_Some_P: "List.find P xs = Some x \<Longrightarrow> P x"
  by (induction xs) (auto split: if_splits)

lemma find_updateFirst_Some:
  "List.find P xs = Some x \<Longrightarrow> P (f x) \<Longrightarrow> List.find P (updateFirst P f xs) = Some (f x)"
  by (induction xs) (auto split: if_splits)

lemma updateFirst_list_update:
  "List.find P xs = Some x \<Longrightarrow>
     \<exists>i<length xs. xs ! i = x \<and> (\<forall>j<i. \<not> P (xs ! j)) \<and> updateFirst P f xs = xs[i := f x]"
proof (induction xs)
  case Nil
  then show ?case by simp
next
  case (Cons y ys)
  show ?case
  proof (cases "P y")
    case True
    with Cons.prems have "y = x" by simp
    with True show ?thesis by (intro exI[of _ 0]) simp
  next
    case False
    with Cons.prems have "List.find P ys = Some x" by simp
    from Cons.IH[OF this] obtain i where i: "i < length ys" "ys ! i = x"
      "\<forall>j<i. \<not> P (ys ! j)" "updateFirst P f ys = ys[i := f x]" by blast
    have "\<forall>j<Suc i. \<not> P ((y # ys) ! j)"
      using False i(3) by (auto simp: nth_Cons split: nat.splits)
    with i False show ?thesis by (intro exI[of _ "Suc i"]) simp
  qed
qed

subsection \<open>verifySignal\<close>

lemma verifySignal_known:
  fixes E sid verifier isValid w s
  assumes "findSignal sid w = Some s"
  defines "s' \<equiv> s\<lparr>verificationCount := verificationCount s + 1,
                     signal_status := (if isValid then verified else rejected)\<rparr>"
  defines "out \<equiv> verifySignal E sid verifier isValid w"
  shows "ritualData (fst out) =
           (ritualData w)\<lparr>signals := updateFirst (\<lambda>s. signal_id s = sid) (\<lambda>_. s') (signals (ritualData w))\<rparr>"
    and "snd out = Inr s' \<or> snd out = Inl ValidationFailed"
    and "snd out = Inr s' \<longleftrightarrow>
           validateRitual E (ritualData (fst out)) \<and> validateExchange E (auditLog (fst out))"
  using assms(1) unfolding s'_def out_def
  by (auto simp: verifySignal_def andThen_def validateData_def logComplianceEvent_def now_def Let_def
           split: prod.splits sum.splits)

lemma verifySignal_findSignal:
  assumes "findSignal sid w = Some s"
  shows "findSignal sid (fst (verifySignal E sid verifier isValid w)) =
           Some (s\<lparr>verificationCount := verificationCount s + 1,
                     signal_status := (if isValid then verified else rejected)\<rparr>)"
proof -
  have "signal_id s = sid"
    using assms find_Some_P[of "\<lambda>s. signal_id s = sid"] by (simp add: findSignal_def)
  then show ?thesis
    using assms find_updateFirst_Some[of "\<lambda>s. signal_id s = sid" "signals (ritualData w)" s
        "\<lambda>_. s\<lparr>verificationCount := verificationCount s + 1,
                signal_status := (if isValid then verified else rejected)\<rparr>"]
    by (simp add: findSignal_def verifySignal_known(1)[OF assms])
qed

text \<open>
  Claim C5. For a signal that exists, \<^verbatim>\<open>verifySignal\<close> adds exactly one to its
  \<^verbatim>\<open>verificationCount\<close> and sets its status to \<^verbatim>\<open>verified\<close> or \<^verbatim>\<open>rejected\<close> after
  \<^verbatim>\<open>isValid\<close>, whatever the status was; no other signal, ritual or consensus record
  changes. The call returns the updated signal unless a schema validation rejects the
  state (the mutation stays). The verifier is not looked at: the same verifier calling
  again adds one more. For an unknown id the call throws \<^verbatim>\<open>Signal not found\<close> and the
  state is unchanged.
\<close>

theorem verifySignal_increments_and_overwrites:
  "(findSignal sid w = None \<longrightarrow> verifySignal E sid verifier isValid w = (w, Inl SignalNotFound)) \<and>
   (findSignal sid w = Some s \<longrightarrow>
      (let out = verifySignal E sid verifier isValid w;
           s' = s\<lparr>verificationCount := verificationCount s + 1,
                   signal_status := (if isValid then verified else rejected)\<rparr>
       in findSignal sid (fst out) = Some s' \<and>
          (\<exists>i<length (signals (ritualData w)).
              signals (ritualData w) ! i = s \<and>
              signals (ritualData (fst out)) = (signals (ritualData w))[i := s']) \<and>
          rituals (ritualData (fst out)) = rituals (ritualData w) \<and>
          consensusRecords (ritualData (fst out)) = consensusRecords (ritualData w) \<and>
          (snd out = Inr s' \<or> snd out = Inl ValidationFailed) \<and>
          (snd out = Inr s' \<longleftrightarrow>
             validateRitual E (ritualData (fst out)) \<and> validateExchange E (auditLog (fst out))) \<and>
          findSignal sid (fst (verifySignal E sid verifier isValid (fst out))) =
             Some (s'\<lparr>verificationCount := verificationCount s + 2\<rparr>)))"
proof (intro conjI impI)
  assume "findSignal sid w = None"
  then show "verifySignal E sid verifier isValid w = (w, Inl SignalNotFound)"
    by (simp add: verifySignal_def)
next
  assume found: "findSignal sid w = Some s"
  define s' where "s' = s\<lparr>verificationCount := verificationCount s + 1,
                   signal_status := (if isValid then verified else rejected)\<rparr>"
  define out where "out = verifySignal E sid verifier isValid w"
  have f1: "findSignal sid (fst out) = Some s'"
    unfolding out_def s'_def by (rule verifySignal_findSignal[OF found])
  have rd: "ritualData (fst out) =
           (ritualData w)\<lparr>signals := updateFirst (\<lambda>s. signal_id s = sid) (\<lambda>_. s') (signals (ritualData w))\<rparr>"
    unfolding out_def s'_def by (rule verifySignal_known(1)[OF found])
  have upd: "\<exists>i<length (signals (ritualData w)).
              signals (ritualData w) ! i = s \<and>
              signals (ritualData (fst out)) = (signals (ritualData w))[i := s']"
    using updateFirst_list_update[of "\<lambda>s. signal_id s = sid" "signals (ritualData w)" s "\<lambda>_. s'"] found rd
    by (auto simp: findSignal_def)
  have res: "snd out = Inr s' \<or> snd out = Inl ValidationFailed"
    unfolding out_def s'_def by (rule verifySignal_known(2)[OF found])
  have iff: "snd out = Inr s' \<longleftrightarrow>
             validateRitual E (ritualData (fst out)) \<and> validateExchange E (auditLog (fst out))"
    unfolding out_def s'_def by (rule verifySignal_known(3)[OF found])
  have f2: "findSignal sid (fst (verifySignal E sid verifier isValid (fst out))) =
             Some (s'\<lparr>verificationCount := verificationCount s + 2\<rparr>)"
    using verifySignal_findSignal[OF f1, of E verifier isValid] by (simp add: s'_def)
  from f1 upd rd res iff f2
  show "let out = verifySignal E sid verifier isValid w;
           s' = s\<lparr>verificationCount := verificationCount s + 1,
                   signal_status := (if isValid then verified else rejected)\<rparr>
       in findSignal sid (fst out) = Some s' \<and>
          (\<exists>i<length (signals (ritualData w)).
              signals (ritualData w) ! i = s \<and>
              signals (ritualData (fst out)) = (signals (ritualData w))[i := s']) \<and>
          rituals (ritualData (fst out)) = rituals (ritualData w) \<and>
          consensusRecords (ritualData (fst out)) = consensusRecords (ritualData w) \<and>
          (snd out = Inr s' \<or> snd out = Inl ValidationFailed) \<and>
          (snd out = Inr s' \<longleftrightarrow>
             validateRitual E (ritualData (fst out)) \<and> validateExchange E (auditLog (fst out))) \<and>
          findSignal sid (fst (verifySignal E sid verifier isValid (fst out))) =
             Some (s'\<lparr>verificationCount := verificationCount s + 2\<rparr>)"
    unfolding Let_def out_def[symmetric] s'_def[symmetric] by simp
qed

theorem verifySignal_increments_and_overwrites_witness:
  "findSignal ''sig-1'' demoWorld = Some demoSignal \<and>
   findSignal ''nobody'' demoWorld = None \<and>
   verifySignal demoEnv ''nobody'' ''v1'' True demoWorld = (demoWorld, Inl SignalNotFound) \<and>
   snd (verifySignal demoEnv ''sig-1'' ''v1'' False demoWorld) =
      Inr (demoSignal\<lparr>verificationCount := 3, signal_status := rejected\<rparr>) \<and>
   findSignal ''sig-1'' (fst (verifySignal demoEnv ''sig-1'' ''v1'' False
       (fst (verifySignal demoEnv ''sig-1'' ''v1'' False demoWorld)))) =
      Some (demoSignal\<lparr>verificationCount := 4, signal_status := rejected\<rparr>)"
proof -
  have some: "findSignal ''sig-1'' demoWorld = Some demoSignal"
    by (simp add: findSignal_def demoWorld_def demoSignal_def)
  have none: "findSignal ''nobody'' demoWorld = None"
    by (simp add: findSignal_def demoWorld_def demoSignal_def)
  have acc: "\<And>d. validateRitual demoEnv d" "\<And>l. validateExchange demoEnv l"
    by (simp_all add: demoEnv_def)
  show ?thesis
    using some none acc
      verifySignal_increments_and_overwrites[of "''sig-1''" demoWorld demoEnv "''v1''" False demoSignal]
      verifySignal_increments_and_overwrites[of "''nobody''" demoWorld demoEnv "''v1''" True demoSignal]
    by (simp add: Let_def demoSignal_def)
qed

subsection \<open>quorumConsensusCheck\<close>

lemma quorumConsensusCheck_known:
  fixes E k sid w s
  assumes "findSignal sid w = Some s"
  defines "c \<equiv> \<lparr>signalId = sid, reached = (k \<le> verificationCount s),
                 consensus_timestamp = clock E (clockReads w), verifications = verificationCount s\<rparr>"
  defines "out \<equiv> quorumConsensusCheck E sid k w"
  shows "consensusRecords (ritualData (fst out)) = consensusRecords (ritualData w) @ [c]"
    and "signals (ritualData (fst out)) = signals (ritualData w)"
    and "snd out = Inr c \<or> snd out = Inl ValidationFailed"
    and "\<not> reached c \<Longrightarrow> rituals (ritualData (fst out)) = rituals (ritualData w)"
    and "snd out = Inr c \<Longrightarrow> reached c \<Longrightarrow>
           \<exists>r. rituals (ritualData (fst out)) = rituals (ritualData w) @ [r] \<and>
               approvalRitual sid (signal_initiator s) r"
    and "(\<forall>d. validateRitual E d) \<Longrightarrow> (\<forall>l. validateExchange E l) \<Longrightarrow> snd out = Inr c"
  using assms(1) unfolding c_def out_def
  by (auto simp: quorumConsensusCheck_def andThen_def validateData_def logComplianceEvent_def now_def
        freshUUID_def executeRitual_def approvalRitual_def Let_def
        split: prod.splits sum.splits if_splits)

text \<open>
  The state after the call and its outcome, from the two states that the call submits to
  the ritual schema and the audit log that it submits to the exchange schema.
\<close>

lemma quorumConsensusCheck_exact:
  fixes E k sid w s
  assumes "findSignal sid w = Some s"
  defines "c \<equiv> \<lparr>signalId = sid, reached = (k \<le> verificationCount s),
                 consensus_timestamp = clock E (clockReads w), verifications = verificationCount s\<rparr>"
  defines "rd_c \<equiv> (ritualData w)\<lparr>consensusRecords := consensusRecords (ritualData w) @ [c]\<rparr>"
  defines "r \<equiv> \<lparr>ritual_id = (if randomUUID E (uuidDraws w) \<noteq> [] then randomUUID E (uuidDraws w)
                               else randomUUID E (Suc (uuidDraws w))),
                 ritual_initiator = signal_initiator s,
                 actions = [\<lparr>action_type = ''consensus_approved'', target = sid,
                             executedAt = clock E (Suc (clockReads w))\<rparr>],
                 ritual_status = completed,
                 ritual_timestamp = clock E (Suc (Suc (clockReads w)))\<rparr>"
  defines "rd_r \<equiv> rd_c\<lparr>rituals := rituals (ritualData w) @ [r]\<rparr>"
  defines "entry \<equiv> \<lparr>event = ''ritual_executed'', timestamp = clock E (Suc (Suc (Suc (clockReads w)))),
                   user = signal_initiator s,
                   details = Obj [(''ritualId'', Str (randomUUID E (uuidDraws w))),
                                  (''actions'', Arr [actionJson \<lparr>req_type = ''consensus_approved'',
                                                                 req_target = sid\<rparr>])]\<rparr>"
  defines "out \<equiv> quorumConsensusCheck E sid k w"
  shows "validateRitual E rd_c \<Longrightarrow> reached c \<Longrightarrow> ritualData (fst out) = rd_r"
    and "validateRitual E rd_c \<Longrightarrow> reached c \<Longrightarrow> validateRitual E rd_r \<Longrightarrow>
           auditLog (fst out) = auditLog w @ [entry]"
    and "\<not> (validateRitual E rd_c \<and> reached c) \<Longrightarrow> ritualData (fst out) = rd_c"
    and "\<not> (validateRitual E rd_c \<and> reached c \<and> validateRitual E rd_r) \<Longrightarrow> auditLog (fst out) = auditLog w"
    and "snd out = Inr c \<longleftrightarrow>
           validateRitual E rd_c \<and>
           (reached c \<longrightarrow> validateRitual E rd_r \<and> validateExchange E (auditLog w @ [entry]))"
proof -
  show "validateRitual E rd_c \<Longrightarrow> reached c \<Longrightarrow> ritualData (fst out) = rd_r"
    using assms(1) unfolding c_def rd_c_def r_def rd_r_def out_def
    by (cases "randomUUID E (uuidDraws w) = []")
       (auto simp: quorumConsensusCheck_def andThen_def validateData_def logComplianceEvent_def now_def
          freshUUID_def executeRitual_def Let_def)
  show "validateRitual E rd_c \<Longrightarrow> reached c \<Longrightarrow> validateRitual E rd_r \<Longrightarrow>
           auditLog (fst out) = auditLog w @ [entry]"
    using assms(1) unfolding c_def rd_c_def r_def rd_r_def entry_def out_def
    by (cases "randomUUID E (uuidDraws w) = []")
       (auto simp: quorumConsensusCheck_def andThen_def validateData_def logComplianceEvent_def now_def
          freshUUID_def executeRitual_def Let_def)
  show "\<not> (validateRitual E rd_c \<and> reached c) \<Longrightarrow> ritualData (fst out) = rd_c"
    using assms(1) unfolding c_def rd_c_def out_def
    by (cases "randomUUID E (uuidDraws w) = []")
       (auto simp: quorumConsensusCheck_def andThen_def validateData_def now_def Let_def)
  show "\<not> (validateRitual E rd_c \<and> reached c \<and> validateRitual E rd_r) \<Longrightarrow> auditLog (fst out) = auditLog w"
    using assms(1) unfolding c_def rd_c_def r_def rd_r_def out_def
    by (cases "randomUUID E (uuidDraws w) = []")
       (auto simp: quorumConsensusCheck_def andThen_def validateData_def logComplianceEvent_def now_def
          freshUUID_def executeRitual_def Let_def)
  show "snd out = Inr c \<longleftrightarrow>
           validateRitual E rd_c \<and>
           (reached c \<longrightarrow> validateRitual E rd_r \<and> validateExchange E (auditLog w @ [entry]))"
    using assms(1) unfolding c_def rd_c_def r_def rd_r_def entry_def out_def
    by (cases "randomUUID E (uuidDraws w) = []")
       (auto simp: quorumConsensusCheck_def andThen_def validateData_def logComplianceEvent_def now_def
          freshUUID_def executeRitual_def Let_def)
qed

lemma quorumConsensusCheck_findSignal:
  "findSignal sid w = Some s \<Longrightarrow>
     findSignal sid' (fst (quorumConsensusCheck E sid k w)) = findSignal sid' w"
  using quorumConsensusCheck_known(2)[of sid w s E k] by (simp add: findSignal_def)

lemma quorumConsensusCheck_returns_iff:
  fixes E k sid w s
  assumes "findSignal sid w = Some s"
  defines "c \<equiv> \<lparr>signalId = sid, reached = (k \<le> verificationCount s),
                 consensus_timestamp = clock E (clockReads w), verifications = verificationCount s\<rparr>"
  defines "out \<equiv> quorumConsensusCheck E sid k w"
  shows "\<not> isl (snd out) \<longleftrightarrow>
           validateRitual E ((ritualData w)\<lparr>consensusRecords := consensusRecords (ritualData w) @ [c]\<rparr>) \<and>
           (k \<le> verificationCount s \<longrightarrow>
              validateRitual E (ritualData (fst out)) \<and> validateExchange E (auditLog (fst out)))"
proof -
  have res: "snd out = Inr c \<or> snd out = Inl ValidationFailed"
    unfolding out_def c_def by (rule quorumConsensusCheck_known(3)[OF assms(1)])
  then have "\<not> isl (snd out) \<longleftrightarrow> snd out = Inr c" by auto
  also have "\<dots> \<longleftrightarrow>
           validateRitual E ((ritualData w)\<lparr>consensusRecords := consensusRecords (ritualData w) @ [c]\<rparr>) \<and>
           (k \<le> verificationCount s \<longrightarrow>
              validateRitual E (ritualData (fst out)) \<and> validateExchange E (auditLog (fst out)))"
    using quorumConsensusCheck_exact(1)[OF assms(1), of E k]
      quorumConsensusCheck_exact(2)[OF assms(1), of E k]
      quorumConsensusCheck_exact(5)[OF assms(1), of E k]
    unfolding out_def c_def by auto
  finally show ?thesis .
qed

text \<open>
  Claim C2. For a signal that exists, \<^verbatim>\<open>quorumConsensusCheck\<close> builds the record with
  \<open>reached = (verificationCount \<ge> requiredVerifications)\<close> from the count the signal has at
  the call (after a \<^verbatim>\<open>verifySignal\<close>, the count plus one) and appends it to
  \<^verbatim>\<open>consensusRecords\<close>. The ritual data with that record is submitted to the ritual
  schema. When the schema accepts it and \<open>reached\<close> is true, exactly one ritual is appended
  to the rituals: initiated by the signal's initiator, with the single action
  \<^verbatim>\<open>consensus_approved\<close> on the signal, stamped with the next two readings of the clock,
  and identified by a fresh identifier; the audit event \<^verbatim>\<open>ritual_executed\<close> follows when
  the ritual schema accepts the ritual data with the ritual. When \<open>reached\<close> is false, or
  the schema rejects the ritual data with the record, no ritual is appended. The record
  is returned exactly when the schema accepts the ritual data with the record and, if
  \<open>reached\<close> is true, accepts the ritual data with the ritual, and the exchange schema
  accepts the audit log with the event; the only other outcome is the validation error.
  For an unknown id the call throws \<^verbatim>\<open>Signal not found\<close> and the state is unchanged.
\<close>

theorem quorumConsensusCheck_record_and_ritual:
  "(findSignal sid w = None \<longrightarrow> quorumConsensusCheck E sid k w = (w, Inl SignalNotFound)) \<and>
   (findSignal sid w = Some s \<longrightarrow>
      (let out = quorumConsensusCheck E sid k w;
           c = \<lparr>signalId = sid, reached = (k \<le> verificationCount s),
                consensus_timestamp = clock E (clockReads w), verifications = verificationCount s\<rparr>;
           rd_c = (ritualData w)\<lparr>consensusRecords := consensusRecords (ritualData w) @ [c]\<rparr>;
           r = \<lparr>ritual_id = (if randomUUID E (uuidDraws w) \<noteq> [] then randomUUID E (uuidDraws w)
                               else randomUUID E (Suc (uuidDraws w))),
                ritual_initiator = signal_initiator s,
                actions = [\<lparr>action_type = ''consensus_approved'', target = sid,
                            executedAt = clock E (Suc (clockReads w))\<rparr>],
                ritual_status = completed,
                ritual_timestamp = clock E (Suc (Suc (clockReads w)))\<rparr>;
           rd_r = rd_c\<lparr>rituals := rituals (ritualData w) @ [r]\<rparr>;
           entry = \<lparr>event = ''ritual_executed'', timestamp = clock E (Suc (Suc (Suc (clockReads w)))),
                    user = signal_initiator s,
                    details = Obj [(''ritualId'', Str (randomUUID E (uuidDraws w))),
                                   (''actions'', Arr [actionJson \<lparr>req_type = ''consensus_approved'',
                                                                  req_target = sid\<rparr>])]\<rparr>
       in consensusRecords (ritualData (fst out)) = consensusRecords (ritualData w) @ [c] \<and>
          (snd out = Inr c \<or> snd out = Inl ValidationFailed) \<and>
          ((\<forall>d. validateRitual E d) \<and> (\<forall>l. validateExchange E l) \<longrightarrow> snd out = Inr c) \<and>
          (snd out = Inr c \<and> reached c \<longrightarrow>
             (\<exists>r. rituals (ritualData (fst out)) = rituals (ritualData w) @ [r] \<and>
                  approvalRitual sid (signal_initiator s) r)) \<and>
          (\<not> reached c \<longrightarrow> rituals (ritualData (fst out)) = rituals (ritualData w)) \<and>
          reached (last (consensusRecords (ritualData
              (fst (quorumConsensusCheck E sid k (fst (verifySignal E sid verifier isValid w)))))))
            = (k \<le> verificationCount s + 1) \<and>
          (validateRitual E rd_c \<and> reached c \<longrightarrow>
             ritualData (fst out) = rd_r \<and> approvalRitual sid (signal_initiator s) r) \<and>
          (validateRitual E rd_c \<and> reached c \<and> validateRitual E rd_r \<longrightarrow>
             auditLog (fst out) = auditLog w @ [entry]) \<and>
          (\<not> (validateRitual E rd_c \<and> reached c) \<longrightarrow> ritualData (fst out) = rd_c) \<and>
          (\<not> (validateRitual E rd_c \<and> reached c \<and> validateRitual E rd_r) \<longrightarrow>
             auditLog (fst out) = auditLog w) \<and>
          (snd out = Inr c \<longleftrightarrow>
             validateRitual E rd_c \<and>
             (reached c \<longrightarrow> validateRitual E rd_r \<and> validateExchange E (auditLog w @ [entry])))))"
proof (intro conjI impI)
  assume "findSignal sid w = None"
  then show "quorumConsensusCheck E sid k w = (w, Inl SignalNotFound)"
    by (simp add: quorumConsensusCheck_def)
next
  assume found: "findSignal sid w = Some s"
  define w1 where "w1 = fst (verifySignal E sid verifier isValid w)"
  have "findSignal sid w1 =
          Some (s\<lparr>verificationCount := verificationCount s + 1,
                  signal_status := (if isValid then verified else rejected)\<rparr>)"
    unfolding w1_def by (rule verifySignal_findSignal[OF found])
  from quorumConsensusCheck_known(1)[OF this, of E k]
  have later: "reached (last (consensusRecords (ritualData (fst (quorumConsensusCheck E sid k w1)))))
                 = (k \<le> verificationCount s + 1)"
    by simp
  note known = quorumConsensusCheck_known[OF found, where E = E and k = k]
  note exact = quorumConsensusCheck_exact[OF found, where E = E and k = k]
  show "let out = quorumConsensusCheck E sid k w;
           c = \<lparr>signalId = sid, reached = (k \<le> verificationCount s),
                consensus_timestamp = clock E (clockReads w), verifications = verificationCount s\<rparr>;
           rd_c = (ritualData w)\<lparr>consensusRecords := consensusRecords (ritualData w) @ [c]\<rparr>;
           r = \<lparr>ritual_id = (if randomUUID E (uuidDraws w) \<noteq> [] then randomUUID E (uuidDraws w)
                               else randomUUID E (Suc (uuidDraws w))),
                ritual_initiator = signal_initiator s,
                actions = [\<lparr>action_type = ''consensus_approved'', target = sid,
                            executedAt = clock E (Suc (clockReads w))\<rparr>],
                ritual_status = completed,
                ritual_timestamp = clock E (Suc (Suc (clockReads w)))\<rparr>;
           rd_r = rd_c\<lparr>rituals := rituals (ritualData w) @ [r]\<rparr>;
           entry = \<lparr>event = ''ritual_executed'', timestamp = clock E (Suc (Suc (Suc (clockReads w)))),
                    user = signal_initiator s,
                    details = Obj [(''ritualId'', Str (randomUUID E (uuidDraws w))),
                                   (''actions'', Arr [actionJson \<lparr>req_type = ''consensus_approved'',
                                                                  req_target = sid\<rparr>])]\<rparr>
       in consensusRecords (ritualData (fst out)) = consensusRecords (ritualData w) @ [c] \<and>
          (snd out = Inr c \<or> snd out = Inl ValidationFailed) \<and>
          ((\<forall>d. validateRitual E d) \<and> (\<forall>l. validateExchange E l) \<longrightarrow> snd out = Inr c) \<and>
          (snd out = Inr c \<and> reached c \<longrightarrow>
             (\<exists>r. rituals (ritualData (fst out)) = rituals (ritualData w) @ [r] \<and>
                  approvalRitual sid (signal_initiator s) r)) \<and>
          (\<not> reached c \<longrightarrow> rituals (ritualData (fst out)) = rituals (ritualData w)) \<and>
          reached (last (consensusRecords (ritualData
              (fst (quorumConsensusCheck E sid k (fst (verifySignal E sid verifier isValid w)))))))
            = (k \<le> verificationCount s + 1) \<and>
          (validateRitual E rd_c \<and> reached c \<longrightarrow>
             ritualData (fst out) = rd_r \<and> approvalRitual sid (signal_initiator s) r) \<and>
          (validateRitual E rd_c \<and> reached c \<and> validateRitual E rd_r \<longrightarrow>
             auditLog (fst out) = auditLog w @ [entry]) \<and>
          (\<not> (validateRitual E rd_c \<and> reached c) \<longrightarrow> ritualData (fst out) = rd_c) \<and>
          (\<not> (validateRitual E rd_c \<and> reached c \<and> validateRitual E rd_r) \<longrightarrow>
             auditLog (fst out) = auditLog w) \<and>
          (snd out = Inr c \<longleftrightarrow>
             validateRitual E rd_c \<and>
             (reached c \<longrightarrow> validateRitual E rd_r \<and> validateExchange E (auditLog w @ [entry])))"
    unfolding Let_def
  proof (intro conjI impI; (elim conjE)?)
    show "consensusRecords (ritualData (fst (quorumConsensusCheck E sid k w))) =
            consensusRecords (ritualData w) @
            [\<lparr>signalId = sid, reached = k \<le> verificationCount s,
              consensus_timestamp = clock E (clockReads w), verifications = verificationCount s\<rparr>]"
      by (rule known(1))
    show "snd (quorumConsensusCheck E sid k w) =
            Inr \<lparr>signalId = sid, reached = k \<le> verificationCount s,
                 consensus_timestamp = clock E (clockReads w), verifications = verificationCount s\<rparr> \<or>
          snd (quorumConsensusCheck E sid k w) = Inl ValidationFailed"
      by (rule known(3))
    show "\<forall>d. validateRitual E d \<Longrightarrow> \<forall>l. validateExchange E l \<Longrightarrow>
          snd (quorumConsensusCheck E sid k w) =
            Inr \<lparr>signalId = sid, reached = k \<le> verificationCount s,
                 consensus_timestamp = clock E (clockReads w), verifications = verificationCount s\<rparr>"
      by (rule known(6))
    show "snd (quorumConsensusCheck E sid k w) =
            Inr \<lparr>signalId = sid, reached = k \<le> verificationCount s,
                 consensus_timestamp = clock E (clockReads w), verifications = verificationCount s\<rparr> \<Longrightarrow>
          reached \<lparr>signalId = sid, reached = k \<le> verificationCount s,
                   consensus_timestamp = clock E (clockReads w), verifications = verificationCount s\<rparr> \<Longrightarrow>
          \<exists>r. rituals (ritualData (fst (quorumConsensusCheck E sid k w))) = rituals (ritualData w) @ [r] \<and>
              approvalRitual sid (signal_initiator s) r"
      by (rule known(5))
    show "\<not> reached \<lparr>signalId = sid, reached = k \<le> verificationCount s,
                     consensus_timestamp = clock E (clockReads w), verifications = verificationCount s\<rparr> \<Longrightarrow>
          rituals (ritualData (fst (quorumConsensusCheck E sid k w))) = rituals (ritualData w)"
      by (rule known(4))
    show "reached (last (consensusRecords (ritualData
              (fst (quorumConsensusCheck E sid k (fst (verifySignal E sid verifier isValid w)))))))
            = (k \<le> verificationCount s + 1)"
      using later unfolding w1_def .
    show "validateRitual E ((ritualData w)\<lparr>consensusRecords := consensusRecords (ritualData w) @
              [\<lparr>signalId = sid, reached = k \<le> verificationCount s,
                consensus_timestamp = clock E (clockReads w), verifications = verificationCount s\<rparr>]\<rparr>) \<Longrightarrow>
          reached \<lparr>signalId = sid, reached = k \<le> verificationCount s,
                   consensus_timestamp = clock E (clockReads w), verifications = verificationCount s\<rparr> \<Longrightarrow>
          ritualData (fst (quorumConsensusCheck E sid k w)) =
            (ritualData w)\<lparr>consensusRecords := consensusRecords (ritualData w) @
              [\<lparr>signalId = sid, reached = k \<le> verificationCount s,
                consensus_timestamp = clock E (clockReads w), verifications = verificationCount s\<rparr>]\<rparr>
            \<lparr>rituals := rituals (ritualData w) @
              [\<lparr>ritual_id = (if randomUUID E (uuidDraws w) \<noteq> [] then randomUUID E (uuidDraws w)
                               else randomUUID E (Suc (uuidDraws w))),
                ritual_initiator = signal_initiator s,
                actions = [\<lparr>action_type = ''consensus_approved'', target = sid,
                            executedAt = clock E (Suc (clockReads w))\<rparr>],
                ritual_status = completed,
                ritual_timestamp = clock E (Suc (Suc (clockReads w)))\<rparr>]\<rparr>"
      by (rule exact(1))
    show "approvalRitual sid (signal_initiator s)
            \<lparr>ritual_id = (if randomUUID E (uuidDraws w) \<noteq> [] then randomUUID E (uuidDraws w)
                               else randomUUID E (Suc (uuidDraws w))),
                ritual_initiator = signal_initiator s,
                actions = [\<lparr>action_type = ''consensus_approved'', target = sid,
                            executedAt = clock E (Suc (clockReads w))\<rparr>],
                ritual_status = completed,
                ritual_timestamp = clock E (Suc (Suc (clockReads w)))\<rparr>"
      by (simp add: approvalRitual_def)
    show "validateRitual E ((ritualData w)\<lparr>consensusRecords := consensusRecords (ritualData w) @
              [\<lparr>signalId = sid, reached = k \<le> verificationCount s,
                consensus_timestamp = clock E (clockReads w), verifications = verificationCount s\<rparr>]\<rparr>) \<Longrightarrow>
          reached \<lparr>signalId = sid, reached = k \<le> verificationCount s,
                   consensus_timestamp = clock E (clockReads w), verifications = verificationCount s\<rparr> \<Longrightarrow>
          validateRitual E ((ritualData w)\<lparr>consensusRecords := consensusRecords (ritualData w) @
              [\<lparr>signalId = sid, reached = k \<le> verificationCount s,
                consensus_timestamp = clock E (clockReads w), verifications = verificationCount s\<rparr>]\<rparr>
            \<lparr>rituals := rituals (ritualData w) @
              [\<lparr>ritual_id = (if randomUUID E (uuidDraws w) \<noteq> [] then randomUUID E (uuidDraws w)
                               else randomUUID E (Suc (uuidDraws w))),
                ritual_initiator = signal_initiator s,
                actions = [\<lparr>action_type = ''consensus_approved'', target = sid,
                            executedAt = clock E (Suc (clockReads w))\<rparr>],
                ritual_status = completed,
                ritual_timestamp = clock E (Suc (Suc (clockReads w)))\<rparr>]\<rparr>) \<Longrightarrow>
          auditLog (fst (quorumConsensusCheck E sid k w)) = auditLog w @
            [\<lparr>event = ''ritual_executed'', timestamp = clock E (Suc (Suc (Suc (clockReads w)))),
                    user = signal_initiator s,
                    details = Obj [(''ritualId'', Str (randomUUID E (uuidDraws w))),
                                   (''actions'', Arr [actionJson \<lparr>req_type = ''consensus_approved'',
                                                                  req_target = sid\<rparr>])]\<rparr>]"
      by (rule exact(2))
    show "\<not> (validateRitual E ((ritualData w)\<lparr>consensusRecords := consensusRecords (ritualData w) @
              [\<lparr>signalId = sid, reached = k \<le> verificationCount s,
                consensus_timestamp = clock E (clockReads w), verifications = verificationCount s\<rparr>]\<rparr>) \<and>
          reached \<lparr>signalId = sid, reached = k \<le> verificationCount s,
                   consensus_timestamp = clock E (clockReads w), verifications = verificationCount s\<rparr>) \<Longrightarrow>
          ritualData (fst (quorumConsensusCheck E sid k w)) =
            (ritualData w)\<lparr>consensusRecords := consensusRecords (ritualData w) @
              [\<lparr>signalId = sid, reached = k \<le> verificationCount s,
                consensus_timestamp = clock E (clockReads w), verifications = verificationCount s\<rparr>]\<rparr>"
      by (rule exact(3))
    show "\<not> (validateRitual E ((ritualData w)\<lparr>consensusRecords := consensusRecords (ritualData w) @
              [\<lparr>signalId = sid, reached = k \<le> verificationCount s,
                consensus_timestamp = clock E (clockReads w), verifications = verificationCount s\<rparr>]\<rparr>) \<and>
          reached \<lparr>signalId = sid, reached = k \<le> verificationCount s,
                   consensus_timestamp = clock E (clockReads w), verifications = verificationCount s\<rparr> \<and>
          validateRitual E ((ritualData w)\<lparr>consensusRecords := consensusRecords (ritualData w) @
              [\<lparr>signalId = sid, reached = k \<le> verificationCount s,
                consensus_timestamp = clock E (clockReads w), verifications = verificationCount s\<rparr>]\<rparr>
            \<lparr>rituals := rituals (ritualData w) @
              [\<lparr>ritual_id = (if randomUUID E (uuidDraws w) \<noteq> [] then randomUUID E (uuidDraws w)
                               else randomUUID E (Suc (uuidDraws w))),
                ritual_initiator = signal_initiator s,
                actions = [\<lparr>action_type = ''consensus_approved'', target = sid,
                            executedAt = clock E (Suc (clockReads w))\<rparr>],
                ritual_status = completed,
                ritual_timestamp = clock E (Suc (Suc (clockReads w)))\<rparr>]\<rparr>)) \<Longrightarrow>
          auditLog (fst (quorumConsensusCheck E sid k w)) = auditLog w"
      by (rule exact(4))
    show "(snd (quorumConsensusCheck E sid k w) =
            Inr \<lparr>signalId = sid, reached = k \<le> verificationCount s,
                 consensus_timestamp = clock E (clockReads w), verifications = verificationCount s\<rparr>) =
          (validateRitual E ((ritualData w)\<lparr>consensusRecords := consensusRecords (ritualData w) @
              [\<lparr>signalId = sid, reached = k \<le> verificationCount s,
                consensus_timestamp = clock E (clockReads w), verifications = verificationCount s\<rparr>]\<rparr>) \<and>
           (reached \<lparr>signalId = sid, reached = k \<le> verificationCount s,
                   consensus_timestamp = clock E (clockReads w), verifications = verificationCount s\<rparr> \<longrightarrow>
            validateRitual E ((ritualData w)\<lparr>consensusRecords := consensusRecords (ritualData w) @
              [\<lparr>signalId = sid, reached = k \<le> verificationCount s,
                consensus_timestamp = clock E (clockReads w), verifications = verificationCount s\<rparr>]\<rparr>
            \<lparr>rituals := rituals (ritualData w) @
              [\<lparr>ritual_id = (if randomUUID E (uuidDraws w) \<noteq> [] then randomUUID E (uuidDraws w)
                               else randomUUID E (Suc (uuidDraws w))),
                ritual_initiator = signal_initiator s,
                actions = [\<lparr>action_type = ''consensus_approved'', target = sid,
                            executedAt = clock E (Suc (clockReads w))\<rparr>],
                ritual_status = completed,
                ritual_timestamp = clock E (Suc (Suc (clockReads w)))\<rparr>]\<rparr>) \<and>
            validateExchange E (auditLog w @
            [\<lparr>event = ''ritual_executed'', timestamp = clock E (Suc (Suc (Suc (clockReads w)))),
                    user = signal_initiator s,
                    details = Obj [(''ritualId'', Str (randomUUID E (uuidDraws w))),
                                   (''actions'', Arr [actionJson \<lparr>req_type = ''consensus_approved'',
                                                                  req_target = sid\<rparr>])]\<rparr>])))"
      by (rule exact(5))
  qed
qed

theorem quorumConsensusCheck_record_and_ritual_witness:
  "findSignal ''sig-1'' demoWorld = Some demoSignal \<and>
   findSignal ''nobody'' demoWorld = None \<and>
   (\<forall>d. validateRitual demoEnv d) \<and> (\<forall>l. validateExchange demoEnv l) \<and>
   quorumConsensusCheck demoEnv ''nobody'' 2 demoWorld = (demoWorld, Inl SignalNotFound) \<and>
   snd (quorumConsensusCheck demoEnv ''sig-1'' 2 demoWorld) =
      Inr \<lparr>signalId = ''sig-1'', reached = True, consensus_timestamp = ''t'', verifications = 2\<rparr> \<and>
   (\<exists>r. rituals (ritualData (fst (quorumConsensusCheck demoEnv ''sig-1'' 2 demoWorld))) = [r] \<and>
        approvalRitual ''sig-1'' ''agentA'' r) \<and>
   snd (quorumConsensusCheck demoEnv ''sig-1'' 3 demoWorld) =
      Inr \<lparr>signalId = ''sig-1'', reached = False, consensus_timestamp = ''t'', verifications = 2\<rparr> \<and>
   rituals (ritualData (fst (quorumConsensusCheck demoEnv ''sig-1'' 3 demoWorld))) = [] \<and>
   \<not> smallStores \<lparr>rituals = [], signals = replicate 6 demoSignal, consensusRecords = []\<rparr> \<and>
   snd (quorumConsensusCheck (demoEnv\<lparr>validateRitual := smallStores\<rparr>) ''sig-1'' 2 demoWorld) =
      Inr \<lparr>signalId = ''sig-1'', reached = True, consensus_timestamp = ''t'', verifications = 2\<rparr> \<and>
   rituals (ritualData (fst (quorumConsensusCheck (demoEnv\<lparr>validateRitual := smallStores\<rparr>)
                               ''sig-1'' 2 demoWorld))) =
      [\<lparr>ritual_id = ''uuid'', ritual_initiator = ''agentA'',
        actions = [\<lparr>action_type = ''consensus_approved'', target = ''sig-1'', executedAt = ''t''\<rparr>],
        ritual_status = completed, ritual_timestamp = ''t''\<rparr>] \<and>
   rituals (ritualData (fst (quorumConsensusCheck (demoEnv\<lparr>validateRitual := smallStores\<rparr>)
                               ''sig-1'' 3 demoWorld))) = []"
proof -
  have some: "findSignal ''sig-1'' demoWorld = Some demoSignal"
    by (simp add: findSignal_def demoWorld_def demoSignal_def)
  have none: "findSignal ''nobody'' demoWorld = None"
    by (simp add: findSignal_def demoWorld_def demoSignal_def)
  have acc: "\<forall>d. validateRitual demoEnv d" "\<forall>l. validateExchange demoEnv l"
    by (simp_all add: demoEnv_def)
  have vals: "verificationCount demoSignal = 2" "signal_initiator demoSignal = ''agentA''"
    "clock demoEnv n = ''t''" "rituals (ritualData demoWorld) = []"
    "randomUUID demoEnv n = ''uuid''" for n
    by (simp_all add: demoSignal_def demoEnv_def demoWorld_def)
  have small: "validateRitual (demoEnv\<lparr>validateRitual := smallStores\<rparr>) d = (length (signals d) \<le> 5)"
    "validateExchange (demoEnv\<lparr>validateRitual := smallStores\<rparr>) l"
    "clock (demoEnv\<lparr>validateRitual := smallStores\<rparr>) n = ''t''"
    "randomUUID (demoEnv\<lparr>validateRitual := smallStores\<rparr>) n = ''uuid''"
    "signals (ritualData demoWorld) = [demoSignal]" for d l n
    by (simp_all add: demoEnv_def smallStores_def demoWorld_def)
  have big: "\<not> smallStores \<lparr>rituals = [], signals = replicate 6 demoSignal, consensusRecords = []\<rparr>"
    by (simp add: smallStores_def)
  note t0 = quorumConsensusCheck_record_and_ritual[where sid = "''nobody''" and w = demoWorld
      and E = demoEnv and k = 2, THEN conjunct1, THEN mp, OF none]
  note t2 = quorumConsensusCheck_record_and_ritual[where sid = "''sig-1''" and w = demoWorld and s = demoSignal
      and E = demoEnv and k = 2 and verifier = "''v''" and isValid = True,
      THEN conjunct2, THEN mp, OF some, unfolded Let_def]
  note t3 = quorumConsensusCheck_record_and_ritual[where sid = "''sig-1''" and w = demoWorld and s = demoSignal
      and E = demoEnv and k = 3 and verifier = "''v''" and isValid = True,
      THEN conjunct2, THEN mp, OF some, unfolded Let_def]
  note u2 = quorumConsensusCheck_record_and_ritual[where sid = "''sig-1''" and w = demoWorld and s = demoSignal
      and E = "demoEnv\<lparr>validateRitual := smallStores\<rparr>" and k = 2 and verifier = "''v''" and isValid = True,
      THEN conjunct2, THEN mp, OF some, unfolded Let_def]
  note u3 = quorumConsensusCheck_record_and_ritual[where sid = "''sig-1''" and w = demoWorld and s = demoSignal
      and E = "demoEnv\<lparr>validateRitual := smallStores\<rparr>" and k = 3 and verifier = "''v''" and isValid = True,
      THEN conjunct2, THEN mp, OF some, unfolded Let_def]
  have a2: "snd (quorumConsensusCheck demoEnv ''sig-1'' 2 demoWorld) =
      Inr \<lparr>signalId = ''sig-1'', reached = True, consensus_timestamp = ''t'', verifications = 2\<rparr>"
    using t2[THEN conjunct2, THEN conjunct2, THEN conjunct1] acc by (simp add: vals)
  have b2: "\<exists>r. rituals (ritualData (fst (quorumConsensusCheck demoEnv ''sig-1'' 2 demoWorld))) = [r] \<and>
        approvalRitual ''sig-1'' ''agentA'' r"
    using t2[THEN conjunct2, THEN conjunct2, THEN conjunct2, THEN conjunct1] a2
    by (simp add: vals del: ex_simps)
  have a3: "snd (quorumConsensusCheck demoEnv ''sig-1'' 3 demoWorld) =
      Inr \<lparr>signalId = ''sig-1'', reached = False, consensus_timestamp = ''t'', verifications = 2\<rparr>"
    using t3[THEN conjunct2, THEN conjunct2, THEN conjunct1] acc by (simp add: vals)
  have b3: "rituals (ritualData (fst (quorumConsensusCheck demoEnv ''sig-1'' 3 demoWorld))) = []"
    using t3[THEN conjunct2, THEN conjunct2, THEN conjunct2, THEN conjunct2, THEN conjunct1]
    by (simp add: vals)
  note u2' = u2[THEN conjunct2, THEN conjunct2, THEN conjunct2, THEN conjunct2, THEN conjunct2, THEN conjunct2]
  have c2: "snd (quorumConsensusCheck (demoEnv\<lparr>validateRitual := smallStores\<rparr>) ''sig-1'' 2 demoWorld) =
      Inr \<lparr>signalId = ''sig-1'', reached = True, consensus_timestamp = ''t'', verifications = 2\<rparr>"
    using u2'[THEN conjunct2, THEN conjunct2, THEN conjunct2, THEN conjunct2] acc
    by (simp add: vals small smallStores_def)
  have d2: "rituals (ritualData (fst (quorumConsensusCheck (demoEnv\<lparr>validateRitual := smallStores\<rparr>)
                               ''sig-1'' 2 demoWorld))) =
      [\<lparr>ritual_id = ''uuid'', ritual_initiator = ''agentA'',
        actions = [\<lparr>action_type = ''consensus_approved'', target = ''sig-1'', executedAt = ''t''\<rparr>],
        ritual_status = completed, ritual_timestamp = ''t''\<rparr>]"
    using u2'[THEN conjunct1] by (simp add: vals small smallStores_def)
  have d3: "rituals (ritualData (fst (quorumConsensusCheck (demoEnv\<lparr>validateRitual := smallStores\<rparr>)
                               ''sig-1'' 3 demoWorld))) = []"
    using u3[THEN conjunct2, THEN conjunct2, THEN conjunct2, THEN conjunct2, THEN conjunct1]
    by (simp add: vals)
  from some none acc t0 a2 b2 a3 b3 big c2 d2 d3 show ?thesis by blast
qed

subsection \<open>Repeated checks\<close>

lemma successiveChecks_rituals:
  assumes "findSignal sid w = Some s" and "k \<le> verificationCount s"
    and "successiveChecks E sid k n w = (w', Inr cs)"
  shows "length cs = n \<and> (\<forall>c\<in>set cs. reached c \<and> signalId c = sid) \<and>
         consensusRecords (ritualData w') = consensusRecords (ritualData w) @ cs \<and>
         (\<exists>rs. rituals (ritualData w') = rituals (ritualData w) @ rs \<and> length rs = n \<and>
               (\<forall>r\<in>set rs. approvalRitual sid (signal_initiator s) r))"
  using assms
proof (induction n arbitrary: w w' cs)
  case 0
  then show ?case by simp
next
  case (Suc n)
  obtain w1 r1 where q: "quorumConsensusCheck E sid k w = (w1, r1)"
    by (cases "quorumConsensusCheck E sid k w")
  from Suc.prems(3) q obtain c where r1: "r1 = Inr c"
    by (cases r1) (auto simp: andThen_def)
  obtain w2 r2 where rest: "successiveChecks E sid k n w1 = (w2, r2)"
    by (cases "successiveChecks E sid k n w1")
  from Suc.prems(3) q r1 rest obtain cs' where r2: "r2 = Inr cs'" and cs: "cs = c # cs'" and w': "w' = w2"
    by (cases r2) (auto simp: andThen_def)
  have c_eq: "c = \<lparr>signalId = sid, reached = (k \<le> verificationCount s),
                 consensus_timestamp = clock E (clockReads w), verifications = verificationCount s\<rparr>"
    using quorumConsensusCheck_known(3)[OF Suc.prems(1), of E k] q r1 by simp
  have reached: "reached c" "signalId c = sid"
    using c_eq Suc.prems(2) by simp_all
  have recs: "consensusRecords (ritualData w1) = consensusRecords (ritualData w) @ [c]"
    using quorumConsensusCheck_known(1)[OF Suc.prems(1), of E k] q c_eq by simp
  obtain r where rit: "rituals (ritualData w1) = rituals (ritualData w) @ [r]"
      "approvalRitual sid (signal_initiator s) r"
    using quorumConsensusCheck_known(5)[OF Suc.prems(1), of E k] q r1 c_eq Suc.prems(2) by auto
  have found1: "findSignal sid w1 = Some s"
    using quorumConsensusCheck_findSignal[OF Suc.prems(1), of sid E k] q Suc.prems(1) by simp
  from Suc.IH[OF found1 Suc.prems(2)] rest r2
  have ih: "length cs' = n \<and> (\<forall>c\<in>set cs'. reached c \<and> signalId c = sid) \<and>
         consensusRecords (ritualData w2) = consensusRecords (ritualData w1) @ cs' \<and>
         (\<exists>rs. rituals (ritualData w2) = rituals (ritualData w1) @ rs \<and> length rs = n \<and>
               (\<forall>r\<in>set rs. approvalRitual sid (signal_initiator s) r))"
    by simp
  then obtain rs where rs: "rituals (ritualData w2) = rituals (ritualData w1) @ rs" "length rs = n"
     "\<forall>r\<in>set rs. approvalRitual sid (signal_initiator s) r"
    by blast
  have "rituals (ritualData w') = rituals (ritualData w) @ (r # rs) \<and> length (r # rs) = Suc n \<and>
        (\<forall>x\<in>set (r # rs). approvalRitual sid (signal_initiator s) x)"
    using rs rit w' by simp
  then have ex: "\<exists>rs. rituals (ritualData w') = rituals (ritualData w) @ rs \<and> length rs = Suc n \<and>
               (\<forall>r\<in>set rs. approvalRitual sid (signal_initiator s) r)"
    by blast
  from ih cs reached recs w' ex show ?case by simp
qed

lemma successiveChecks_total:
  assumes "findSignal sid w = Some s" and "\<forall>d. validateRitual E d" and "\<forall>l. validateExchange E l"
  shows "\<exists>cs. snd (successiveChecks E sid k n w) = Inr cs"
  using assms(1)
proof (induction n arbitrary: w)
  case 0
  then show ?case by simp
next
  case (Suc n)
  obtain w1 r1 where q: "quorumConsensusCheck E sid k w = (w1, r1)"
    by (cases "quorumConsensusCheck E sid k w")
  have "\<exists>c. r1 = Inr c"
    using quorumConsensusCheck_known(6)[OF Suc.prems, of E k] assms(2,3) q by simp
  then obtain c where r1: "r1 = Inr c" by blast
  have found1: "findSignal sid w1 = Some s"
    using quorumConsensusCheck_findSignal[OF Suc.prems, of sid E k] q Suc.prems by simp
  from Suc.IH[OF found1] obtain cs where "snd (successiveChecks E sid k n w1) = Inr cs" by blast
  then show ?case
    using q r1 by (cases "successiveChecks E sid k n w1") (simp add: andThen_def)
qed

lemma successiveChecks_returns_iff:
  assumes "findSignal sid w = Some s"
  shows "(\<exists>cs. snd (successiveChecks E sid k n w) = Inr cs) \<longleftrightarrow> checksAccepted E sid k n w"
  using assms
proof (induction n arbitrary: w)
  case 0
  show ?case by simp
next
  case (Suc n)
  let ?out = "quorumConsensusCheck E sid k w"
  have found1: "findSignal sid (fst ?out) = Some s"
    using quorumConsensusCheck_findSignal[OF Suc.prems, of sid E k] Suc.prems by simp
  have ex: "(\<exists>x. r = Inr x) \<longleftrightarrow> \<not> isl r" for r :: "error + 'a"
    by (cases r) simp_all
  have "(\<exists>cs. snd (successiveChecks E sid k (Suc n) w) = Inr cs) \<longleftrightarrow>
          \<not> isl (snd ?out) \<and> \<not> isl (snd (successiveChecks E sid k n (fst ?out)))"
    unfolding ex by (simp add: isl_andThen)
  also have "\<dots> \<longleftrightarrow> \<not> isl (snd ?out) \<and> checksAccepted E sid k n (fst ?out)"
    using Suc.IH[OF found1] unfolding ex by simp
  also have "\<dots> \<longleftrightarrow> checksAccepted E sid k (Suc n) w"
    unfolding quorumConsensusCheck_returns_iff[OF Suc.prems] using Suc.prems by simp
  finally show ?case .
qed

lemma checksAccepted_known_signals:
  assumes "findSignal sid w = Some s"
    and "\<forall>d. signals d = signals (ritualData w) \<longrightarrow> validateRitual E d"
    and "\<forall>l. validateExchange E l"
  shows "checksAccepted E sid k n w"
  using assms(1,2)
proof (induction n arbitrary: w)
  case 0
  show ?case by simp
next
  case (Suc n)
  let ?out = "quorumConsensusCheck E sid k w"
  have found1: "findSignal sid (fst ?out) = Some s"
    using quorumConsensusCheck_findSignal[OF Suc.prems(1), of sid E k] Suc.prems(1) by simp
  have sig: "signals (ritualData (fst ?out)) = signals (ritualData w)"
    by (rule quorumConsensusCheck_known(2)[OF Suc.prems(1)])
  have "checksAccepted E sid k n (fst ?out)"
    using Suc.prems(2) by (intro Suc.IH[OF found1]) (simp add: sig)
  then show ?case
    using Suc.prems assms(3) sig by simp
qed

text \<open>
  Claim C4. \<^verbatim>\<open>quorumConsensusCheck\<close> has no guard against a ritual already executed: for
  a signal whose \<^verbatim>\<open>verificationCount\<close> meets the threshold, \<open>n\<close> successive calls with
  the same arguments that each return append \<open>n\<close> consensus records, all with \<open>reached\<close>
  true, and \<open>n\<close> rituals, each the \<^verbatim>\<open>consensus_approved\<close> ritual of the signal. The \<open>n\<close>
  calls all return exactly when the schemas accept the states that the calls submit to
  them, one call after the other; they do when the ritual schema accepts every ritual
  data with the signals of the state (the calls do not change the signals) and the
  exchange schema accepts the audit logs.
\<close>

theorem quorumConsensusCheck_retriggers_every_call:
  "findSignal sid w = Some s \<and> k \<le> verificationCount s \<longrightarrow>
     ((\<forall>d. validateRitual E d) \<and> (\<forall>l. validateExchange E l) \<longrightarrow>
        (\<exists>cs. snd (successiveChecks E sid k n w) = Inr cs)) \<and>
     (\<forall>cs. snd (successiveChecks E sid k n w) = Inr cs \<longrightarrow>
        length cs = n \<and> (\<forall>c\<in>set cs. reached c \<and> signalId c = sid) \<and>
        consensusRecords (ritualData (fst (successiveChecks E sid k n w))) =
          consensusRecords (ritualData w) @ cs \<and>
        (\<exists>rs. rituals (ritualData (fst (successiveChecks E sid k n w))) = rituals (ritualData w) @ rs \<and>
              length rs = n \<and> (\<forall>r\<in>set rs. approvalRitual sid (signal_initiator s) r))) \<and>
     ((\<exists>cs. snd (successiveChecks E sid k n w) = Inr cs) \<longleftrightarrow> checksAccepted E sid k n w) \<and>
     ((\<forall>d. signals d = signals (ritualData w) \<longrightarrow> validateRitual E d) \<and> (\<forall>l. validateExchange E l) \<longrightarrow>
        checksAccepted E sid k n w)"
proof (intro impI, elim conjE)
  assume a: "findSignal sid w = Some s" "k \<le> verificationCount s"
  have p1: "(\<forall>d. validateRitual E d) \<and> (\<forall>l. validateExchange E l) \<longrightarrow>
        (\<exists>cs. snd (successiveChecks E sid k n w) = Inr cs)"
    using successiveChecks_total[OF a(1)] by blast
  have p2: "\<forall>cs. snd (successiveChecks E sid k n w) = Inr cs \<longrightarrow>
        length cs = n \<and> (\<forall>c\<in>set cs. reached c \<and> signalId c = sid) \<and>
        consensusRecords (ritualData (fst (successiveChecks E sid k n w))) =
          consensusRecords (ritualData w) @ cs \<and>
        (\<exists>rs. rituals (ritualData (fst (successiveChecks E sid k n w))) = rituals (ritualData w) @ rs \<and>
              length rs = n \<and> (\<forall>r\<in>set rs. approvalRitual sid (signal_initiator s) r))"
  proof (intro allI impI)
    fix cs
    assume r: "snd (successiveChecks E sid k n w) = Inr cs"
    have eq: "successiveChecks E sid k n w = (fst (successiveChecks E sid k n w), Inr cs)"
      using r by (simp add: prod_eq_iff)
    show "length cs = n \<and> (\<forall>c\<in>set cs. reached c \<and> signalId c = sid) \<and>
        consensusRecords (ritualData (fst (successiveChecks E sid k n w))) =
          consensusRecords (ritualData w) @ cs \<and>
        (\<exists>rs. rituals (ritualData (fst (successiveChecks E sid k n w))) = rituals (ritualData w) @ rs \<and>
              length rs = n \<and> (\<forall>r\<in>set rs. approvalRitual sid (signal_initiator s) r))"
      by (rule successiveChecks_rituals[OF a eq])
  qed
  have p3: "(\<exists>cs. snd (successiveChecks E sid k n w) = Inr cs) \<longleftrightarrow> checksAccepted E sid k n w"
    by (rule successiveChecks_returns_iff[OF a(1)])
  have p4: "(\<forall>d. signals d = signals (ritualData w) \<longrightarrow> validateRitual E d) \<and> (\<forall>l. validateExchange E l) \<longrightarrow>
        checksAccepted E sid k n w"
    using checksAccepted_known_signals[OF a(1)] by blast
  from p1 p2 p3 p4 show "((\<forall>d. validateRitual E d) \<and> (\<forall>l. validateExchange E l) \<longrightarrow>
        (\<exists>cs. snd (successiveChecks E sid k n w) = Inr cs)) \<and>
     (\<forall>cs. snd (successiveChecks E sid k n w) = Inr cs \<longrightarrow>
        length cs = n \<and> (\<forall>c\<in>set cs. reached c \<and> signalId c = sid) \<and>
        consensusRecords (ritualData (fst (successiveChecks E sid k n w))) =
          consensusRecords (ritualData w) @ cs \<and>
        (\<exists>rs. rituals (ritualData (fst (successiveChecks E sid k n w))) = rituals (ritualData w) @ rs \<and>
              length rs = n \<and> (\<forall>r\<in>set rs. approvalRitual sid (signal_initiator s) r))) \<and>
     ((\<exists>cs. snd (successiveChecks E sid k n w) = Inr cs) \<longleftrightarrow> checksAccepted E sid k n w) \<and>
     ((\<forall>d. signals d = signals (ritualData w) \<longrightarrow> validateRitual E d) \<and> (\<forall>l. validateExchange E l) \<longrightarrow>
        checksAccepted E sid k n w)"
    by (intro conjI)
qed

theorem quorumConsensusCheck_retriggers_every_call_witness:
  "findSignal ''sig-1'' demoWorld = Some demoSignal \<and> 2 \<le> verificationCount demoSignal \<and>
   (\<forall>d. validateRitual demoEnv d) \<and> (\<forall>l. validateExchange demoEnv l) \<and>
   (\<exists>cs. snd (successiveChecks demoEnv ''sig-1'' 2 3 demoWorld) = Inr cs \<and> length cs = 3) \<and>
   length (rituals (ritualData (fst (successiveChecks demoEnv ''sig-1'' 2 3 demoWorld)))) = 3 \<and>
   \<not> smallStores \<lparr>rituals = [], signals = replicate 6 demoSignal, consensusRecords = []\<rparr> \<and>
   (\<exists>cs. snd (successiveChecks (demoEnv\<lparr>validateRitual := smallStores\<rparr>) ''sig-1'' 2 3 demoWorld) = Inr cs \<and>
         length cs = 3) \<and>
   length (rituals (ritualData
      (fst (successiveChecks (demoEnv\<lparr>validateRitual := smallStores\<rparr>) ''sig-1'' 2 3 demoWorld)))) = 3"
proof -
  have some: "findSignal ''sig-1'' demoWorld = Some demoSignal"
    by (simp add: findSignal_def demoWorld_def demoSignal_def)
  have cnt: "2 \<le> verificationCount demoSignal"
    by (simp add: demoSignal_def)
  have acc: "\<forall>d. validateRitual demoEnv d" "\<forall>l. validateExchange demoEnv l"
    by (simp_all add: demoEnv_def)
  have empty: "rituals (ritualData demoWorld) = []"
    by (simp add: demoWorld_def)
  have big: "\<not> smallStores \<lparr>rituals = [], signals = replicate 6 demoSignal, consensusRecords = []\<rparr>"
    by (simp add: smallStores_def)
  have small: "\<forall>d. signals d = signals (ritualData demoWorld) \<longrightarrow>
        validateRitual (demoEnv\<lparr>validateRitual := smallStores\<rparr>) d"
    "\<forall>l. validateExchange (demoEnv\<lparr>validateRitual := smallStores\<rparr>) l"
    by (simp_all add: demoEnv_def smallStores_def demoWorld_def)
  note t = quorumConsensusCheck_retriggers_every_call[where sid = "''sig-1''" and w = demoWorld
      and s = demoSignal and k = 2 and n = 3 and E = demoEnv, THEN mp, OF conjI, OF some cnt]
  note u = quorumConsensusCheck_retriggers_every_call[where sid = "''sig-1''" and w = demoWorld
      and s = demoSignal and k = 2 and n = 3 and E = "demoEnv\<lparr>validateRitual := smallStores\<rparr>",
      THEN mp, OF conjI, OF some cnt]
  from t acc
  obtain cs where cs: "snd (successiveChecks demoEnv ''sig-1'' 2 3 demoWorld) = Inr cs"
    and rest: "length cs = 3"
      "\<exists>rs. rituals (ritualData (fst (successiveChecks demoEnv ''sig-1'' 2 3 demoWorld))) =
              rituals (ritualData demoWorld) @ rs \<and> length rs = 3 \<and>
              (\<forall>r\<in>set rs. approvalRitual ''sig-1'' (signal_initiator demoSignal) r)"
    by blast
  from rest(2) empty
  have len: "length (rituals (ritualData (fst (successiveChecks demoEnv ''sig-1'' 2 3 demoWorld)))) = 3"
    by auto
  have ca: "checksAccepted (demoEnv\<lparr>validateRitual := smallStores\<rparr>) ''sig-1'' 2 3 demoWorld"
    using u small by blast
  with u obtain cs' where cs': "snd (successiveChecks (demoEnv\<lparr>validateRitual := smallStores\<rparr>) ''sig-1'' 2 3 demoWorld) = Inr cs'"
    by blast
  with u have rest': "length cs' = 3"
      "\<exists>rs. rituals (ritualData (fst (successiveChecks (demoEnv\<lparr>validateRitual := smallStores\<rparr>) ''sig-1'' 2 3 demoWorld))) =
              rituals (ritualData demoWorld) @ rs \<and> length rs = 3 \<and>
              (\<forall>r\<in>set rs. approvalRitual ''sig-1'' (signal_initiator demoSignal) r)"
    by blast+
  from rest'(2) empty
  have len': "length (rituals (ritualData
      (fst (successiveChecks (demoEnv\<lparr>validateRitual := smallStores\<rparr>) ''sig-1'' 2 3 demoWorld)))) = 3"
    by auto
  from cs rest(1) have e1: "\<exists>cs. snd (successiveChecks demoEnv ''sig-1'' 2 3 demoWorld) = Inr cs \<and> length cs = 3"
    by blast
  from cs' rest'(1) have e2: "\<exists>cs. snd (successiveChecks (demoEnv\<lparr>validateRitual := smallStores\<rparr>) ''sig-1'' 2 3 demoWorld) = Inr cs \<and>
         length cs = 3"
    by blast
  from some cnt acc e1 len big e2 len' show ?thesis by (intro conjI)
qed

section \<open>Properties of the entropy node controller\<close>

subsection \<open>createNode\<close>

lemma createNode_unfold:
  assumes "validateNode E d = Some d'"
    and "(case node_id d' of None \<Rightarrow> freshUUID E w
          | Some i \<Rightarrow> if i \<noteq> [] then (w, i) else freshUUID E w) = (w1, nid)"
  shows "createNode E d w =
     (let nd = d'\<lparr>node_id := Some nid, node_type := Some ''entropy-node'',
                   creation_date := Some (clock E (clockReads w1)),
                   reputation_score := Some (case reputation_score d' of None \<Rightarrow> 50
                                             | Some r \<Rightarrow> if r \<noteq> 0 then r else 50)\<rparr>
      in andThen (await E (VerifySoulboundId (wallet_address nd) (soulboundId nd))
                    (w1\<lparr>clockReads := Suc (clockReads w1)\<rparr>)) (\<lambda>isValidSoulbound w3.
               if \<not> truthy isValidSoulbound then (w3, Inl (InvalidSoulboundId (wallet_address nd)))
               else
                 andThen (await E (RegisterNode nid nd) (w3\<lparr>nodes := (nodes w3)(nid \<mapsto> nd)\<rparr>)) (\<lambda>_ w5.
                    andThen (logComplianceEvent E ''node_created'' (wallet_address nd)
                               (Obj [(''node_id'', Str nid), (''username'', Str (username nd))]) w5) (\<lambda>_ w6.
                    (w6, Inr nid)))))"
  using assms by (simp add: createNode_def now_def Let_def cong: if_cong)

lemma createNode_stores:
  assumes "createNode E d w = (w', Inr nid)"
  shows "\<exists>d' nd. validateNode E d = Some d' \<and> nodes w' nid = Some nd \<and>
           reputation_score nd = Some (case reputation_score d' of None \<Rightarrow> 50
                                             | Some r \<Rightarrow> if r \<noteq> 0 then r else 50)"
proof -
  from assms obtain d' where d': "validateNode E d = Some d'"
    by (cases "validateNode E d") (simp_all add: createNode_def)
  obtain w1 nid0 where pick: "(case node_id d' of None \<Rightarrow> freshUUID E w
          | Some i \<Rightarrow> if i \<noteq> [] then (w, i) else freshUUID E w) = (w1, nid0)"
    by (cases "(case node_id d' of None \<Rightarrow> freshUUID E w
          | Some i \<Rightarrow> if i \<noteq> [] then (w, i) else freshUUID E w)")
  have "fst (createNode E d w) = w'" "snd (createNode E d w) = Inr nid"
    using assms by simp_all
  then have "\<exists>nd. nodes w' nid = Some nd \<and>
           reputation_score nd = Some (case reputation_score d' of None \<Rightarrow> 50
                                             | Some r \<Rightarrow> if r \<noteq> 0 then r else 50)"
    unfolding createNode_unfold[OF d' pick] Let_def
    by (auto simp: fst_andThen snd_andThen fst_await fst_logComplianceEvent
          split: sum.splits if_splits)
  with d' show ?thesis by blast
qed

lemma createNode_succeeds:
  assumes "validateNode E d = Some d'" "\<forall>h c. \<exists>v. chainAdapter E h c = Inr v \<and> truthy v" "\<forall>l. validateExchange E l"
  shows "\<exists>nid. snd (createNode E d w) = Inr nid"
proof -
  have cs: "collaboratorsSucceed E"
    using assms(2,3) unfolding collaboratorsSucceed_def by blast
  have tr: "\<And>h c. truthy (projr (chainAdapter E h c))"
    using assms(2) by (metis sum.sel(2))
  obtain w1 nid0 where pick: "(case node_id d' of None \<Rightarrow> freshUUID E w
          | Some i \<Rightarrow> if i \<noteq> [] then (w, i) else freshUUID E w) = (w1, nid0)"
    by (cases "(case node_id d' of None \<Rightarrow> freshUUID E w
          | Some i \<Rightarrow> if i \<noteq> [] then (w, i) else freshUUID E w)")
  show ?thesis
    unfolding createNode_unfold[OF assms(1) pick] Let_def
    by (simp add: snd_andThen snd_await_succeeds[OF cs] tr snd_logComplianceEvent_succeeds[OF cs])
qed

text \<open>
  Claim C7 as stated fails: a descriptor that the schema accepts and whose soulbound id
  verifies, carrying \<^verbatim>\<open>reputation_score: 80\<close>, yields a node with reputation 80, since
  the code takes \<^verbatim>\<open>data.reputation_score || 50\<close>.
\<close>

theorem createNode_counterexample:
  "snd (createNode demoEnv (demoNode\<lparr>reputation_score := Some 80\<rparr>) freshWorld) = Inr ''node-1'' \<and>
   map_option reputation_score
     (nodes (fst (createNode demoEnv (demoNode\<lparr>reputation_score := Some 80\<rparr>) freshWorld)) ''node-1'')
     = Some (Some 80) \<and>
   map_option reputation_score
     (nodes (fst (createNode demoEnv (demoNode\<lparr>reputation_score := Some 80\<rparr>) freshWorld)) ''node-1'')
     \<noteq> Some (Some 50)"
  by (simp add: createNode_def andThen_def await_def logComplianceEvent_def now_def freshUUID_def Let_def
        demoEnv_def demoNode_def freshWorld_def)

text \<open>
  Claim C7, amended. A node created by \<^verbatim>\<open>createNode\<close> has the \<^verbatim>\<open>reputation_score\<close> of
  its descriptor (as the schema validation leaves it) when that is present and not zero,
  and 50 otherwise. A creation that returns has passed the schema, and it does return
  when the schema accepts, the adapter answers every call with a truthy value and the
  audit log validates.
\<close>

theorem createNode_reputation_from_descriptor:
  "(createNode E d w = (w', Inr nid) \<longrightarrow>
      (\<exists>d' nd. validateNode E d = Some d' \<and> nodes w' nid = Some nd \<and>
         reputation_score nd = Some (case reputation_score d' of None \<Rightarrow> 50
                                     | Some r \<Rightarrow> if r \<noteq> 0 then r else 50))) \<and>
   (validateNode E d = Some dd \<and> (\<forall>h c. \<exists>v. chainAdapter E h c = Inr v \<and> truthy v) \<and>
    (\<forall>l. validateExchange E l) \<longrightarrow> (\<exists>nid. snd (createNode E d w) = Inr nid))"
proof (intro conjI impI)
  assume "createNode E d w = (w', Inr nid)"
  then show "\<exists>d' nd. validateNode E d = Some d' \<and> nodes w' nid = Some nd \<and>
         reputation_score nd = Some (case reputation_score d' of None \<Rightarrow> 50
                                     | Some r \<Rightarrow> if r \<noteq> 0 then r else 50)"
    by (rule createNode_stores)
next
  assume "validateNode E d = Some dd \<and> (\<forall>h c. \<exists>v. chainAdapter E h c = Inr v \<and> truthy v) \<and>
    (\<forall>l. validateExchange E l)"
  then show "\<exists>nid. snd (createNode E d w) = Inr nid"
    using createNode_succeeds[of E d dd w] by blast
qed

theorem createNode_reputation_from_descriptor_witness:
  "validateNode demoEnv (demoNode\<lparr>reputation_score := None\<rparr>) = Some (demoNode\<lparr>reputation_score := None\<rparr>) \<and>
   (\<forall>h c. \<exists>v. chainAdapter demoEnv h c = Inr v \<and> truthy v) \<and> (\<forall>l. validateExchange demoEnv l) \<and>
   snd (createNode demoEnv (demoNode\<lparr>reputation_score := None\<rparr>) freshWorld) = Inr ''node-1'' \<and>
   (\<exists>nd. nodes (fst (createNode demoEnv (demoNode\<lparr>reputation_score := None\<rparr>) freshWorld)) ''node-1'' = Some nd \<and>
         reputation_score nd = Some 50)"
proof -
  have run: "createNode demoEnv (demoNode\<lparr>reputation_score := None\<rparr>) freshWorld =
               (fst (createNode demoEnv (demoNode\<lparr>reputation_score := None\<rparr>) freshWorld), Inr ''node-1'')"
    by (simp add: createNode_def andThen_def await_def logComplianceEvent_def now_def freshUUID_def Let_def
          demoEnv_def demoNode_def freshWorld_def)
  have env: "validateNode demoEnv (demoNode\<lparr>reputation_score := None\<rparr>) = Some (demoNode\<lparr>reputation_score := None\<rparr>)"
    "\<forall>h c. \<exists>v. chainAdapter demoEnv h c = Inr v \<and> truthy v" "\<forall>l. validateExchange demoEnv l"
    by (simp_all add: demoEnv_def)
  from createNode_reputation_from_descriptor[of demoEnv "demoNode\<lparr>reputation_score := None\<rparr>" freshWorld
      "fst (createNode demoEnv (demoNode\<lparr>reputation_score := None\<rparr>) freshWorld)" "''node-1''"
      "demoNode\<lparr>reputation_score := None\<rparr>"] run env(1)
  have "\<exists>nd. nodes (fst (createNode demoEnv (demoNode\<lparr>reputation_score := None\<rparr>) freshWorld)) ''node-1'' = Some nd \<and>
         reputation_score nd = Some 50"
    by auto
  moreover have "snd (createNode demoEnv (demoNode\<lparr>reputation_score := None\<rparr>) freshWorld) = Inr ''node-1''"
    using run by (metis snd_conv)
  ultimately show ?thesis using env by blast
qed

subsection \<open>updateStakingBalance\<close>

lemma round64_not_NaN: "round64 x \<noteq> NaN"
  by (simp add: round64_def Let_def)

lemma numAdd_nonNegative:
  assumes "nonNegative b" "a \<noteq> NaN" "\<not> (b = PosInf \<and> a = NegInf)"
    and "\<not> (numLess a (Fin 0) \<and> numLess (numAdd b a) (Fin 0))"
  shows "nonNegative (numAdd b a)"
proof (cases b)
  case (Fin x)
  with assms(1) have x: "0 \<le> x" by (simp add: nonNegative_def)
  show ?thesis
  proof (cases a)
    case (Fin y)
    show ?thesis
    proof (cases "y < 0")
      case True
      with assms(4) \<open>b = Fin x\<close> Fin have "\<not> numLess (round64 (x + y)) (Fin 0)" by simp
      then show ?thesis
        using \<open>b = Fin x\<close> Fin round64_not_NaN[of "x + y"]
        by (cases "round64 (x + y)") (simp_all add: nonNegative_def)
    next
      case False
      with x have "0 \<le> x + y" by simp
      from round64_nonneg[OF this] show ?thesis
        using \<open>b = Fin x\<close> Fin by (auto simp: nonNegative_def)
    qed
  next
    case NegInf
    with assms(4) \<open>b = Fin x\<close> show ?thesis by simp
  qed (use assms(2) \<open>b = Fin x\<close> in \<open>simp_all add: nonNegative_def\<close>)
next
  case PosInf
  with assms(2,3) show ?thesis by (cases a) (simp_all add: nonNegative_def)
qed (use assms(1) in \<open>simp_all add: nonNegative_def\<close>)

lemma updateStakingBalance_cases:
  fixes E nid amount w nd
  assumes "nodes w nid = Some nd"
  defines "out \<equiv> updateStakingBalance E nid amount w"
  defines "s \<equiv> numAdd (staking_balance nd) amount"
  defines "short \<equiv> numLess amount (Fin 0) \<and> numLess (numAdd (staking_balance nd) amount) (Fin 0)"
  shows "short \<Longrightarrow> out = (w, Inl InsufficientStakingBalance)"
    and "\<not> short \<Longrightarrow> nodes (fst out) = (nodes w)(nid \<mapsto> nd\<lparr>staking_balance := s\<rparr>)"
    and "\<not> short \<Longrightarrow>
           snd out = Inr s \<or> snd out = Inl ValidationFailed \<or> (\<exists>msg. snd out = Inl (Rejected msg))"
    and "\<not> short \<Longrightarrow>
           snd out = Inr s \<longleftrightarrow>
             \<not> isl (chainAdapter E (effects w) (UpdateStaking (wallet_address nd) s)) \<and>
             validateExchange E (auditLog w @
               [\<lparr>event = ''staking_updated'', timestamp = clock E (clockReads w), user = wallet_address nd,
                 details = Obj [(''node_id'', Str nid), (''amount'', Num amount)]\<rparr>])"
    and "\<not> short \<Longrightarrow>
           effects (fst out) = effects w @ [UpdateStaking (wallet_address nd) s]"
proof -
  show "short \<Longrightarrow> out = (w, Inl InsufficientStakingBalance)"
    using assms(1) by (simp add: out_def short_def updateStakingBalance_def)
  show "\<not> short \<Longrightarrow> nodes (fst out) = (nodes w)(nid \<mapsto> nd\<lparr>staking_balance := s\<rparr>)"
    using assms(1) unfolding out_def short_def s_def
    by (auto simp: updateStakingBalance_def fst_andThen fst_await fst_logComplianceEvent Let_def split: sum.splits)
  show "\<not> short \<Longrightarrow>
           snd out = Inr s \<or> snd out = Inl ValidationFailed \<or> (\<exists>msg. snd out = Inl (Rejected msg))"
    using assms(1) unfolding out_def short_def s_def
    by (auto simp: updateStakingBalance_def snd_andThen snd_await snd_logComplianceEvent Let_def split: sum.splits)
  show "\<not> short \<Longrightarrow>
           snd out = Inr s \<longleftrightarrow>
             \<not> isl (chainAdapter E (effects w) (UpdateStaking (wallet_address nd) s)) \<and>
             validateExchange E (auditLog w @
               [\<lparr>event = ''staking_updated'', timestamp = clock E (clockReads w), user = wallet_address nd,
                 details = Obj [(''node_id'', Str nid), (''amount'', Num amount)]\<rparr>])"
    using assms(1) unfolding out_def short_def s_def
    by (auto simp: updateStakingBalance_def snd_andThen_if isl_await fst_await snd_logComplianceEvent Let_def)
  show "\<not> short \<Longrightarrow> effects (fst out) = effects w @ [UpdateStaking (wallet_address nd) s]"
    using assms(1) unfolding out_def short_def s_def
    by (auto simp: updateStakingBalance_def fst_andThen fst_await fst_logComplianceEvent Let_def split: sum.splits)
qed

text \<open>
  Claim C10, as the specification states it, fails on the code. The guard of
  \<^verbatim>\<open>updateStakingBalance\<close> is two comparisons of doubles, and a comparison with \<^verbatim>\<open>NaN\<close>
  is false. On the node of the demonstration, whose balance is 100, the amount \<^verbatim>\<open>NaN\<close>
  passes the guard, and the call stores and returns the balance \<^verbatim>\<open>NaN\<close>, which is not
  \<open>\<ge> 0\<close>. So does the amount \<^verbatim>\<open>-Infinity\<close> on a balance of \<^verbatim>\<open>Infinity\<close>, itself reached
  from the balance 100 by the amount \<^verbatim>\<open>Infinity\<close>.
\<close>

theorem updateStakingBalance_counterexample:
  "nodes demoWorld ''node-1'' = Some demoNode \<and> nonNegative (staking_balance demoNode) \<and>
   snd (updateStakingBalance demoEnv ''node-1'' NaN demoWorld) = Inr NaN \<and>
   map_option staking_balance (nodes (fst (updateStakingBalance demoEnv ''node-1'' NaN demoWorld)) ''node-1'')
     = Some NaN \<and>
   \<not> nonNegative NaN \<and>
   snd (updateStakingBalance demoEnv ''node-1'' PosInf demoWorld) = Inr PosInf \<and>
   nonNegative PosInf \<and>
   snd (updateStakingBalance demoEnv ''node-1'' NegInf
          (fst (updateStakingBalance demoEnv ''node-1'' PosInf demoWorld))) = Inr NaN \<and>
   map_option staking_balance
     (nodes (fst (updateStakingBalance demoEnv ''node-1'' NegInf
                    (fst (updateStakingBalance demoEnv ''node-1'' PosInf demoWorld)))) ''node-1'')
     = Some NaN"
  by (simp add: updateStakingBalance_def demoWorld_def demoNode_def demoEnv_def nonNegative_def
        andThen_def await_def logComplianceEvent_def now_def Let_def)

text \<open>
  Claim C10, amended. For a node that exists with \<^verbatim>\<open>staking_balance >= 0\<close>, for every
  amount other than \<^verbatim>\<open>NaN\<close>, and not \<^verbatim>\<open>-Infinity\<close> on a balance of \<^verbatim>\<open>Infinity\<close>:
  \<^verbatim>\<open>updateStakingBalance\<close> throws \<^verbatim>\<open>Insufficient staking balance\<close> with the state
  unchanged exactly when \<^verbatim>\<open>amount < 0\<close> and \<^verbatim>\<open>staking_balance + amount < 0\<close>, the sum
  being the sum of doubles; otherwise the node's balance becomes that sum, which is
  \<open>\<ge> 0\<close>, the adapter is asked to update the staking with it, and it is returned exactly
  when that call resolves and the audit log with the new event validates, the only other
  outcomes being these two failures. In every case the balance of the node after the call
  is \<open>\<ge> 0\<close>. The sum of doubles is the exact sum when the balance and the amount are
  integers and the exact sum is at most \<open>2 ^ 53\<close> in absolute value; in general it is the
  exact sum rounded to the nearest double.
\<close>

theorem updateStakingBalance_keeps_nonnegative:
  "nodes w nid = Some nd \<and> nonNegative (staking_balance nd) \<and> amount \<noteq> NaN \<and>
   \<not> (staking_balance nd = PosInf \<and> amount = NegInf) \<longrightarrow>
     (let out = updateStakingBalance E nid amount w;
          s = numAdd (staking_balance nd) amount;
          short = (numLess amount (Fin 0) \<and> numLess s (Fin 0));
          log = \<lparr>event = ''staking_updated'', timestamp = clock E (clockReads w), user = wallet_address nd,
                 details = Obj [(''node_id'', Str nid), (''amount'', Num amount)]\<rparr>
      in (short \<longrightarrow> out = (w, Inl InsufficientStakingBalance)) \<and>
         (\<not> short \<longrightarrow>
            nodes (fst out) = (nodes w)(nid \<mapsto> nd\<lparr>staking_balance := s\<rparr>) \<and>
            nonNegative s \<and>
            effects (fst out) = effects w @ [UpdateStaking (wallet_address nd) s] \<and>
            (snd out = Inr s \<or> snd out = Inl ValidationFailed \<or> (\<exists>msg. snd out = Inl (Rejected msg))) \<and>
            (snd out = Inr s \<longleftrightarrow>
               \<not> isl (chainAdapter E (effects w) (UpdateStaking (wallet_address nd) s)) \<and>
               validateExchange E (auditLog w @ [log]))) \<and>
         (\<exists>nd'. nodes (fst out) nid = Some nd' \<and> nonNegative (staking_balance nd')) \<and>
         (\<forall>a b. staking_balance nd = Fin a \<and> amount = Fin b \<longrightarrow> s = round64 (a + b)) \<and>
         (\<forall>a b. staking_balance nd = Fin (of_int a) \<and> amount = Fin (of_int b) \<and> \<bar>a + b\<bar> \<le> 2 ^ 53 \<longrightarrow>
                s = Fin (of_int (a + b))))"
proof (intro impI, elim conjE)
  assume nd: "nodes w nid = Some nd" and nonneg: "nonNegative (staking_balance nd)"
    and nan: "amount \<noteq> NaN" and inf: "\<not> (staking_balance nd = PosInf \<and> amount = NegInf)"
  define out where "out = updateStakingBalance E nid amount w"
  define s where "s = numAdd (staking_balance nd) amount"
  define short where "short \<longleftrightarrow> numLess amount (Fin 0) \<and> numLess s (Fin 0)"
  define log where "log = \<lparr>event = ''staking_updated'', timestamp = clock E (clockReads w),
                 user = wallet_address nd,
                 details = Obj [(''node_id'', Str nid), (''amount'', Num amount)]\<rparr>"
  note cases = updateStakingBalance_cases[OF nd, of amount E,
      folded s_def, folded out_def short_def log_def]
  have a: "short \<longrightarrow> out = (w, Inl InsufficientStakingBalance)"
    using cases(1) by blast
  have pos: "nonNegative s" if "\<not> short"
    unfolding s_def
    by (rule numAdd_nonNegative[OF nonneg nan inf]) (use that in \<open>simp add: short_def s_def\<close>)
  have b: "\<not> short \<longrightarrow>
            nodes (fst out) = (nodes w)(nid \<mapsto> nd\<lparr>staking_balance := s\<rparr>) \<and>
            nonNegative s \<and>
            effects (fst out) = effects w @ [UpdateStaking (wallet_address nd) s] \<and>
            (snd out = Inr s \<or> snd out = Inl ValidationFailed \<or> (\<exists>msg. snd out = Inl (Rejected msg))) \<and>
            (snd out = Inr s \<longleftrightarrow>
               \<not> isl (chainAdapter E (effects w) (UpdateStaking (wallet_address nd) s)) \<and>
               validateExchange E (auditLog w @ [log]))"
    using cases(2) cases(3) cases(4) cases(5) pos by blast
  have c: "\<exists>nd'. nodes (fst out) nid = Some nd' \<and> nonNegative (staking_balance nd')"
  proof (cases short)
    case True
    with a nd nonneg show ?thesis by simp
  next
    case False
    with b pos show ?thesis by simp
  qed
  have d: "\<forall>a b. staking_balance nd = Fin a \<and> amount = Fin b \<longrightarrow> s = round64 (a + b)"
    by (simp add: s_def)
  have e: "\<forall>a b. staking_balance nd = Fin (of_int a) \<and> amount = Fin (of_int b) \<and> \<bar>a + b\<bar> \<le> 2 ^ 53 \<longrightarrow>
                s = Fin (of_int (a + b))"
  proof (intro allI impI, elim conjE)
    fix a b :: int
    assume "staking_balance nd = Fin (of_int a)" "amount = Fin (of_int b)" "\<bar>a + b\<bar> \<le> 2 ^ 53"
    then show "s = Fin (of_int (a + b))"
      using round64_int[of "a + b"] by (simp add: s_def)
  qed
  from a b c d e show "let out = updateStakingBalance E nid amount w;
          s = numAdd (staking_balance nd) amount;
          short = (numLess amount (Fin 0) \<and> numLess s (Fin 0));
          log = \<lparr>event = ''staking_updated'', timestamp = clock E (clockReads w), user = wallet_address nd,
                 details = Obj [(''node_id'', Str nid), (''amount'', Num amount)]\<rparr>
      in (short \<longrightarrow> out = (w, Inl InsufficientStakingBalance)) \<and>
         (\<not> short \<longrightarrow>
            nodes (fst out) = (nodes w)(nid \<mapsto> nd\<lparr>staking_balance := s\<rparr>) \<and>
            nonNegative s \<and>
            effects (fst out) = effects w @ [UpdateStaking (wallet_address nd) s] \<and>
            (snd out = Inr s \<or> snd out = Inl ValidationFailed \<or> (\<exists>msg. snd out = Inl (Rejected msg))) \<and>
            (snd out = Inr s \<longleftrightarrow>
               \<not> isl (chainAdapter E (effects w) (UpdateStaking (wallet_address nd) s)) \<and>
               validateExchange E (auditLog w @ [log]))) \<and>
         (\<exists>nd'. nodes (fst out) nid = Some nd' \<and> nonNegative (staking_balance nd')) \<and>
         (\<forall>a b. staking_balance nd = Fin a \<and> amount = Fin b \<longrightarrow> s = round64 (a + b)) \<and>
         (\<forall>a b. staking_balance nd = Fin (of_int a) \<and> amount = Fin (of_int b) \<and> \<bar>a + b\<bar> \<le> 2 ^ 53 \<longrightarrow>
                s = Fin (of_int (a + b)))"
    unfolding Let_def out_def s_def short_def log_def by blast
qed

theorem updateStakingBalance_keeps_nonnegative_witness:
  "nodes demoWorld ''node-1'' = Some demoNode \<and> nonNegative (staking_balance demoNode) \<and>
   updateStakingBalance demoEnv ''node-1'' (Fin (- 130)) demoWorld = (demoWorld, Inl InsufficientStakingBalance) \<and>
   snd (updateStakingBalance demoEnv ''node-1'' (Fin (- 30)) demoWorld) = Inr (Fin 70) \<and>
   nodes (fst (updateStakingBalance demoEnv ''node-1'' (Fin (- 30)) demoWorld)) ''node-1'' =
     Some (demoNode\<lparr>staking_balance := Fin 70\<rparr>) \<and>
   effects (fst (updateStakingBalance demoEnv ''node-1'' (Fin (- 30)) demoWorld)) =
     [UpdateStaking ''0xabc'' (Fin 70)]"
proof -
  have nd: "nodes demoWorld ''node-1'' = Some demoNode"
    by (simp add: demoWorld_def)
  have bal: "staking_balance demoNode = Fin (of_int 100)" "wallet_address demoNode = ''0xabc''"
    by (simp_all add: demoNode_def)
  have pos: "nonNegative (staking_balance demoNode)"
    by (simp add: demoNode_def nonNegative_def)
  have env: "chainAdapter demoEnv h c = Inr (Bool True)" "validateExchange demoEnv l" for h c l
    by (simp_all add: demoEnv_def)
  have eff: "effects demoWorld = []"
    by (simp add: demoWorld_def)
  note inst = updateStakingBalance_keeps_nonnegative[where w = demoWorld and nid = "''node-1''"
      and nd = demoNode and E = demoEnv, unfolded Let_def]
  have low: "staking_balance demoNode = Fin (of_int 100) \<and> Fin (- 130) = Fin (of_int (- 130)) \<and>
             \<bar>100 + (- 130) :: int\<bar> \<le> 2 ^ 53"
    using bal by simp
  have mid: "staking_balance demoNode = Fin (of_int 100) \<and> Fin (- 30) = Fin (of_int (- 30)) \<and>
             \<bar>100 + (- 30) :: int\<bar> \<le> 2 ^ 53"
    using bal by simp
  have hyp: "nodes demoWorld ''node-1'' = Some demoNode \<and> nonNegative (staking_balance demoNode) \<and>
             Fin x \<noteq> NaN \<and> \<not> (staking_balance demoNode = PosInf \<and> Fin x = NegInf)" for x
    using nd pos by simp
  note t1 = mp[OF inst[where amount = "Fin (- 130)"] hyp]
  note t2 = mp[OF inst[where amount = "Fin (- 30)"] hyp]
  have s1: "numAdd (staking_balance demoNode) (Fin (- 130)) = Fin (- 30)"
    using t1[THEN conjunct2, THEN conjunct2, THEN conjunct2, THEN conjunct2, rule_format, OF low] by simp
  have s2: "numAdd (staking_balance demoNode) (Fin (- 30)) = Fin 70"
    using t2[THEN conjunct2, THEN conjunct2, THEN conjunct2, THEN conjunct2, rule_format, OF mid] by simp
  have r1: "updateStakingBalance demoEnv ''node-1'' (Fin (- 130)) demoWorld =
              (demoWorld, Inl InsufficientStakingBalance)"
    using t1[THEN conjunct1] unfolding s1 by simp
  have r2: "snd (updateStakingBalance demoEnv ''node-1'' (Fin (- 30)) demoWorld) = Inr (Fin 70)"
    and r3: "nodes (fst (updateStakingBalance demoEnv ''node-1'' (Fin (- 30)) demoWorld)) =
              (nodes demoWorld)(''node-1'' \<mapsto> demoNode\<lparr>staking_balance := Fin 70\<rparr>)"
    and r4: "effects (fst (updateStakingBalance demoEnv ''node-1'' (Fin (- 30)) demoWorld)) =
              [UpdateStaking ''0xabc'' (Fin 70)]"
    using t2[THEN conjunct2, THEN conjunct1] unfolding s2 by (simp_all add: env eff bal(2))
  from nd pos r1 r2 r3 r4 show ?thesis by simp
qed

subsection \<open>castVote\<close>

lemma castVote_cases:
  fixes E nid pid vote w nd
  assumes "nodes w nid = Some nd"
  defines "out \<equiv> castVote E nid pid vote w"
  defines "submit \<equiv> SubmitVote (votingContract (governance nd)) (wallet_address nd) pid vote"
  defines "below \<equiv> (\<exists>r. reputation_score nd = Some r \<and> r < proposalThreshold (governance nd))"
  shows "''voter'' \<notin> set (roles nd) \<Longrightarrow> out = (w, Inl NotAuthorizedToVote)"
    and "''voter'' \<in> set (roles nd) \<Longrightarrow> below \<Longrightarrow> out = (w, Inl InsufficientReputation)"
    and "''voter'' \<in> set (roles nd) \<Longrightarrow> \<not> below \<Longrightarrow>
           \<exists>rest. effects (fst out) = effects w @ submit # rest"
    and "''voter'' \<in> set (roles nd) \<Longrightarrow> \<not> below \<Longrightarrow> chainAdapter E (effects w) submit = Inl msg \<Longrightarrow>
           out = (w\<lparr>effects := effects w @ [submit]\<rparr>, Inl (Rejected msg))"
    and "''voter'' \<in> set (roles nd) \<Longrightarrow> \<not> below \<Longrightarrow> chainAdapter E (effects w) submit = Inr v \<Longrightarrow>
           nodes (fst out) = (nodes w)(nid \<mapsto> nd\<lparr>votes_cast := numAdd (votes_cast nd) (Fin 1)\<rparr>)"
    and "''voter'' \<in> set (roles nd) \<Longrightarrow> \<not> below \<Longrightarrow> collaboratorsSucceed E \<Longrightarrow>
           snd out = Inr ''Vote cast successfully''"
    and "''voter'' \<in> set (roles nd) \<Longrightarrow> \<not> below \<Longrightarrow>
           snd out = Inr ''Vote cast successfully'' \<longleftrightarrow>
             allResolve E (effects w)
               (submit # hookEffects (hookOf (transactionHooks nd) onVote)
                           (Obj [(''nodeId'', Str nid), (''proposalId'', pid), (''vote'', vote)])
                  @ [DistributeKarmaWage (wallet_address nd) (karmaWage nd),
                     UpdateReputation (wallet_address nd) (3 / 10)]) \<and>
             validateExchange E (auditLog w @
               [\<lparr>event = ''vote_cast'', timestamp = clock E (clockReads w), user = wallet_address nd,
                 details = Obj [(''node_id'', Str nid), (''proposalId'', pid), (''vote'', vote)]\<rparr>])"
proof -
  show "''voter'' \<notin> set (roles nd) \<Longrightarrow> out = (w, Inl NotAuthorizedToVote)"
    using assms(1) by (simp add: out_def castVote_def)
  show "''voter'' \<in> set (roles nd) \<Longrightarrow> below \<Longrightarrow> out = (w, Inl InsufficientReputation)"
    using assms(1) by (auto simp: out_def below_def castVote_def)
  show "''voter'' \<in> set (roles nd) \<Longrightarrow> \<not> below \<Longrightarrow>
           \<exists>rest. effects (fst out) = effects w @ submit # rest"
    using assms(1) unfolding out_def below_def submit_def
    by (auto simp: castVote_def fst_andThen fst_await fst_triggerHook fst_logComplianceEvent Let_def
          split: option.splits sum.splits)
  show "''voter'' \<in> set (roles nd) \<Longrightarrow> \<not> below \<Longrightarrow> chainAdapter E (effects w) submit = Inl msg \<Longrightarrow>
           out = (w\<lparr>effects := effects w @ [submit]\<rparr>, Inl (Rejected msg))"
    using assms(1) unfolding out_def below_def submit_def
    by (auto simp: castVote_def andThen_def await_def split: option.splits)
  show "''voter'' \<in> set (roles nd) \<Longrightarrow> \<not> below \<Longrightarrow> chainAdapter E (effects w) submit = Inr v \<Longrightarrow>
           nodes (fst out) = (nodes w)(nid \<mapsto> nd\<lparr>votes_cast := numAdd (votes_cast nd) (Fin 1)\<rparr>)"
    using assms(1) unfolding out_def below_def submit_def
    by (auto simp: castVote_def fst_andThen snd_await fst_await fst_triggerHook fst_logComplianceEvent Let_def
          split: option.splits sum.splits)
  show "''voter'' \<in> set (roles nd) \<Longrightarrow> \<not> below \<Longrightarrow> collaboratorsSucceed E \<Longrightarrow>
           snd out = Inr ''Vote cast successfully''"
  proof -
    assume a: "''voter'' \<in> set (roles nd)" "\<not> below" "collaboratorsSucceed E"
    show ?thesis
      using assms(1) a(1,2) unfolding out_def below_def submit_def
      by (auto simp: castVote_def snd_andThen snd_await_succeeds[OF a(3)] snd_triggerHook_succeeds[OF a(3)]
            snd_logComplianceEvent_succeeds[OF a(3)] Let_def split: option.splits)
  qed
  show "''voter'' \<in> set (roles nd) \<Longrightarrow> \<not> below \<Longrightarrow>
           snd out = Inr ''Vote cast successfully'' \<longleftrightarrow>
             allResolve E (effects w)
               (submit # hookEffects (hookOf (transactionHooks nd) onVote)
                           (Obj [(''nodeId'', Str nid), (''proposalId'', pid), (''vote'', vote)])
                  @ [DistributeKarmaWage (wallet_address nd) (karmaWage nd),
                     UpdateReputation (wallet_address nd) (3 / 10)]) \<and>
             validateExchange E (auditLog w @
               [\<lparr>event = ''vote_cast'', timestamp = clock E (clockReads w), user = wallet_address nd,
                 details = Obj [(''node_id'', Str nid), (''proposalId'', pid), (''vote'', vote)]\<rparr>])"
  proof -
    assume a: "''voter'' \<in> set (roles nd)" "\<not> below"
    from a(2) have nb: "\<not> (case reputation_score nd of None \<Rightarrow> False
                            | Some r \<Rightarrow> r < proposalThreshold (governance nd))"
      unfolding below_def by (simp split: option.splits)
    show ?thesis
      unfolding out_def submit_def castVote_def
      using assms(1) a(1) nb
      by (simp add: snd_andThen_if isl_await isl_triggerHook fst_await fst_triggerHook
            snd_logComplianceEvent allResolve_append Let_def)
  qed
qed

lemma castVote_next_integer:
  assumes "0 \<le> n" "n < 2 ^ 53"
  shows "numAdd (Fin (of_int n)) (Fin 1) = Fin (of_int (n + 1))"
proof -
  from assms have "\<bar>n + 1\<bar> \<le> 2 ^ 53" by simp
  then have "round64 (of_int (n + 1)) = Fin (of_int (n + 1))" by (rule round64_int)
  then show ?thesis by simp
qed

text \<open>
  Claim C6, as the specification states it, fails on the code in its last part:
  \<^verbatim>\<open>node.votes_cast += 1\<close> is an addition of doubles. A node with the role \<^verbatim>\<open>voter\<close>
  and enough reputation whose \<^verbatim>\<open>votes_cast\<close> is \<open>2 ^ 53\<close> casts a vote, the call returns
  its confirmation, and \<^verbatim>\<open>votes_cast\<close> is still \<open>2 ^ 53\<close>: the exact sum \<open>2 ^ 53 + 1\<close> lies
  halfway between two doubles and rounds to the even one.
\<close>

theorem castVote_counterexample:
  "nodes (demoWorld\<lparr>nodes := [''node-1'' \<mapsto> demoNode\<lparr>votes_cast := Fin (2 ^ 53)\<rparr>]\<rparr>) ''node-1''
     = Some (demoNode\<lparr>votes_cast := Fin (2 ^ 53)\<rparr>) \<and>
   ''voter'' \<in> set (roles (demoNode\<lparr>votes_cast := Fin (2 ^ 53)\<rparr>)) \<and>
   reputation_score (demoNode\<lparr>votes_cast := Fin (2 ^ 53)\<rparr>) = Some 50 \<and>
   proposalThreshold (governance (demoNode\<lparr>votes_cast := Fin (2 ^ 53)\<rparr>)) = 40 \<and>
   snd (castVote demoEnv ''node-1'' (Str ''prop-7'') (Bool True)
          (demoWorld\<lparr>nodes := [''node-1'' \<mapsto> demoNode\<lparr>votes_cast := Fin (2 ^ 53)\<rparr>]\<rparr>))
     = Inr ''Vote cast successfully'' \<and>
   map_option votes_cast
     (nodes (fst (castVote demoEnv ''node-1'' (Str ''prop-7'') (Bool True)
                    (demoWorld\<lparr>nodes := [''node-1'' \<mapsto> demoNode\<lparr>votes_cast := Fin (2 ^ 53)\<rparr>]\<rparr>))) ''node-1'')
     = Some (Fin (2 ^ 53)) \<and>
   Fin (2 ^ 53) \<noteq> Fin (2 ^ 53 + 1)"
proof -
  have r: "round64 (9007199254740992 + 1) = Fin 9007199254740992"
    using round64_above_2p53 by simp
  have r': "round64 9007199254740993 = Fin 9007199254740992"
    using round64_above_2p53 by simp
  show ?thesis
    by (simp add: castVote_def demoWorld_def demoNode_def demoEnv_def hookOf_def triggerHook_def
          andThen_def await_def logComplianceEvent_def now_def Let_def r r')
qed

text \<open>
  Claim C6, amended. For a node that exists, \<^verbatim>\<open>castVote\<close> throws
  \<^verbatim>\<open>Node not authorized to vote\<close> when the node lacks the role \<^verbatim>\<open>voter\<close> and
  \<^verbatim>\<open>Insufficient reputation to vote\<close> when its \<^verbatim>\<open>reputation_score\<close> is below
  \<^verbatim>\<open>governance.proposalThreshold\<close>; in both cases the whole state, \<^verbatim>\<open>votes_cast\<close>
  included, is unchanged. Otherwise the first thing the call does is submit the vote to
  the adapter. When the submission is rejected the call fails and the nodes are unchanged.
  When it resolves, \<^verbatim>\<open>votes_cast\<close> of the node becomes the sum of doubles
  \<^verbatim>\<open>votes_cast + 1\<close> and nothing else of the node changes; that sum is one more than
  before when \<^verbatim>\<open>votes_cast\<close> is an integer from 0 to \<open>2 ^ 53 - 1\<close>. The call returns its
  confirmation exactly when the adapter resolves the submission, the hook dispatch if the
  node has an \<^verbatim>\<open>onVote\<close> hook, the karma credit and the reputation credit, and the audit
  log with the new event validates.
\<close>

theorem castVote_authorization_floor:
  "nodes w nid = Some nd \<longrightarrow>
     (let out = castVote E nid pid vote w;
          submit = SubmitVote (votingContract (governance nd)) (wallet_address nd) pid vote;
          below = (\<exists>r. reputation_score nd = Some r \<and> r < proposalThreshold (governance nd));
          log = \<lparr>event = ''vote_cast'', timestamp = clock E (clockReads w), user = wallet_address nd,
                 details = Obj [(''node_id'', Str nid), (''proposalId'', pid), (''vote'', vote)]\<rparr>
      in (''voter'' \<notin> set (roles nd) \<longrightarrow> out = (w, Inl NotAuthorizedToVote)) \<and>
         (''voter'' \<in> set (roles nd) \<and> below \<longrightarrow> out = (w, Inl InsufficientReputation)) \<and>
         (''voter'' \<in> set (roles nd) \<and> \<not> below \<longrightarrow>
            (\<exists>rest. effects (fst out) = effects w @ submit # rest) \<and>
            (\<forall>v. chainAdapter E (effects w) submit = Inr v \<longrightarrow>
                 nodes (fst out) = (nodes w)(nid \<mapsto> nd\<lparr>votes_cast := numAdd (votes_cast nd) (Fin 1)\<rparr>)) \<and>
            (\<forall>msg. chainAdapter E (effects w) submit = Inl msg \<longrightarrow>
                 out = (w\<lparr>effects := effects w @ [submit]\<rparr>, Inl (Rejected msg))) \<and>
            (collaboratorsSucceed E \<longrightarrow> snd out = Inr ''Vote cast successfully'') \<and>
            (snd out = Inr ''Vote cast successfully'' \<longleftrightarrow>
               allResolve E (effects w)
                 (submit # hookEffects (hookOf (transactionHooks nd) onVote)
                             (Obj [(''nodeId'', Str nid), (''proposalId'', pid), (''vote'', vote)])
                    @ [DistributeKarmaWage (wallet_address nd) (karmaWage nd),
                       UpdateReputation (wallet_address nd) (3 / 10)]) \<and>
               validateExchange E (auditLog w @ [log]))) \<and>
         (\<forall>n. votes_cast nd = Fin (of_int n) \<and> 0 \<le> n \<and> n < 2 ^ 53 \<longrightarrow>
              numAdd (votes_cast nd) (Fin 1) = Fin (of_int (n + 1))))"
proof
  assume nd: "nodes w nid = Some nd"
  note cases = castVote_cases[OF nd, of E pid vote]
  show "let out = castVote E nid pid vote w;
          submit = SubmitVote (votingContract (governance nd)) (wallet_address nd) pid vote;
          below = (\<exists>r. reputation_score nd = Some r \<and> r < proposalThreshold (governance nd));
          log = \<lparr>event = ''vote_cast'', timestamp = clock E (clockReads w), user = wallet_address nd,
                 details = Obj [(''node_id'', Str nid), (''proposalId'', pid), (''vote'', vote)]\<rparr>
      in (''voter'' \<notin> set (roles nd) \<longrightarrow> out = (w, Inl NotAuthorizedToVote)) \<and>
         (''voter'' \<in> set (roles nd) \<and> below \<longrightarrow> out = (w, Inl InsufficientReputation)) \<and>
         (''voter'' \<in> set (roles nd) \<and> \<not> below \<longrightarrow>
            (\<exists>rest. effects (fst out) = effects w @ submit # rest) \<and>
            (\<forall>v. chainAdapter E (effects w) submit = Inr v \<longrightarrow>
                 nodes (fst out) = (nodes w)(nid \<mapsto> nd\<lparr>votes_cast := numAdd (votes_cast nd) (Fin 1)\<rparr>)) \<and>
            (\<forall>msg. chainAdapter E (effects w) submit = Inl msg \<longrightarrow>
                 out = (w\<lparr>effects := effects w @ [submit]\<rparr>, Inl (Rejected msg))) \<and>
            (collaboratorsSucceed E \<longrightarrow> snd out = Inr ''Vote cast successfully'') \<and>
            (snd out = Inr ''Vote cast successfully'' \<longleftrightarrow>
               allResolve E (effects w)
                 (submit # hookEffects (hookOf (transactionHooks nd) onVote)
                             (Obj [(''nodeId'', Str nid), (''proposalId'', pid), (''vote'', vote)])
                    @ [DistributeKarmaWage (wallet_address nd) (karmaWage nd),
                       UpdateReputation (wallet_address nd) (3 / 10)]) \<and>
               validateExchange E (auditLog w @ [log]))) \<and>
         (\<forall>n. votes_cast nd = Fin (of_int n) \<and> 0 \<le> n \<and> n < 2 ^ 53 \<longrightarrow>
              numAdd (votes_cast nd) (Fin 1) = Fin (of_int (n + 1)))"
    unfolding Let_def
  proof (intro conjI impI allI; (elim conjE)?)
    show "''voter'' \<notin> set (roles nd) \<Longrightarrow> castVote E nid pid vote w = (w, Inl NotAuthorizedToVote)"
      by (rule cases(1))
    show "''voter'' \<in> set (roles nd) \<Longrightarrow>
          \<exists>r. reputation_score nd = Some r \<and> r < proposalThreshold (governance nd) \<Longrightarrow>
          castVote E nid pid vote w = (w, Inl InsufficientReputation)"
      by (rule cases(2))
    show "''voter'' \<in> set (roles nd) \<Longrightarrow>
          \<not> (\<exists>r. reputation_score nd = Some r \<and> r < proposalThreshold (governance nd)) \<Longrightarrow>
          \<exists>rest. effects (fst (castVote E nid pid vote w)) =
             effects w @ SubmitVote (votingContract (governance nd)) (wallet_address nd) pid vote # rest"
      by (rule cases(3))
    show "\<And>v. ''voter'' \<in> set (roles nd) \<Longrightarrow>
          \<not> (\<exists>r. reputation_score nd = Some r \<and> r < proposalThreshold (governance nd)) \<Longrightarrow>
          chainAdapter E (effects w) (SubmitVote (votingContract (governance nd)) (wallet_address nd) pid vote) = Inr v \<Longrightarrow>
          nodes (fst (castVote E nid pid vote w)) =
            (nodes w)(nid \<mapsto> nd\<lparr>votes_cast := numAdd (votes_cast nd) (Fin 1)\<rparr>)"
      by (rule cases(5))
    show "\<And>msg. ''voter'' \<in> set (roles nd) \<Longrightarrow>
          \<not> (\<exists>r. reputation_score nd = Some r \<and> r < proposalThreshold (governance nd)) \<Longrightarrow>
          chainAdapter E (effects w) (SubmitVote (votingContract (governance nd)) (wallet_address nd) pid vote) = Inl msg \<Longrightarrow>
          castVote E nid pid vote w =
            (w\<lparr>effects := effects w @ [SubmitVote (votingContract (governance nd)) (wallet_address nd) pid vote]\<rparr>,
             Inl (Rejected msg))"
      by (rule cases(4))
    show "''voter'' \<in> set (roles nd) \<Longrightarrow>
          \<not> (\<exists>r. reputation_score nd = Some r \<and> r < proposalThreshold (governance nd)) \<Longrightarrow>
          collaboratorsSucceed E \<Longrightarrow>
          snd (castVote E nid pid vote w) = Inr ''Vote cast successfully''"
      by (rule cases(6))
    show "''voter'' \<in> set (roles nd) \<Longrightarrow>
          \<not> (\<exists>r. reputation_score nd = Some r \<and> r < proposalThreshold (governance nd)) \<Longrightarrow>
          (snd (castVote E nid pid vote w) = Inr ''Vote cast successfully'') =
          (allResolve E (effects w)
            (SubmitVote (votingContract (governance nd)) (wallet_address nd) pid vote #
             hookEffects (hookOf (transactionHooks nd) onVote)
               (Obj [(''nodeId'', Str nid), (''proposalId'', pid), (''vote'', vote)])
             @ [DistributeKarmaWage (wallet_address nd) (karmaWage nd),
                UpdateReputation (wallet_address nd) (3 / 10)]) \<and>
           validateExchange E (auditLog w @
            [\<lparr>event = ''vote_cast'', timestamp = clock E (clockReads w), user = wallet_address nd,
              details = Obj [(''node_id'', Str nid), (''proposalId'', pid), (''vote'', vote)]\<rparr>]))"
      by (rule cases(7))
    show "\<And>n. votes_cast nd = Fin (of_int n) \<Longrightarrow> 0 \<le> n \<Longrightarrow> n < 2 ^ 53 \<Longrightarrow>
          numAdd (votes_cast nd) (Fin 1) = Fin (of_int (n + 1))"
      using castVote_next_integer by simp
  qed
qed

theorem castVote_authorization_floor_witness:
  "nodes demoWorld ''node-1'' = Some demoNode \<and>
   snd (castVote demoEnv ''node-1'' (Str ''prop-7'') (Bool True) demoWorld) = Inr ''Vote cast successfully'' \<and>
   map_option votes_cast (nodes (fst (castVote demoEnv ''node-1'' (Str ''prop-7'') (Bool True) demoWorld)) ''node-1'')
     = Some (Fin 1) \<and>
   castVote demoEnv ''node-1'' (Str ''prop-7'') (Bool True)
       (demoWorld\<lparr>nodes := [''node-1'' \<mapsto> demoNode\<lparr>reputation_score := Some 30\<rparr>]\<rparr>)
     = (demoWorld\<lparr>nodes := [''node-1'' \<mapsto> demoNode\<lparr>reputation_score := Some 30\<rparr>]\<rparr>, Inl InsufficientReputation) \<and>
   castVote demoEnv ''node-1'' (Str ''prop-7'') (Bool True)
       (demoWorld\<lparr>nodes := [''node-1'' \<mapsto> demoNode\<lparr>roles := [''creator'']\<rparr>]\<rparr>)
     = (demoWorld\<lparr>nodes := [''node-1'' \<mapsto> demoNode\<lparr>roles := [''creator'']\<rparr>]\<rparr>, Inl NotAuthorizedToVote) \<and>
   snd (castVote (demoEnv\<lparr>chainAdapter := failingHooks\<rparr>) ''node-1'' (Str ''prop-7'') (Bool True)
          (demoWorld\<lparr>nodes := [''node-1'' \<mapsto>
              demoNode\<lparr>transactionHooks := Some \<lparr>onEntropyFetch = None, onVote = Some ''tally''\<rparr>\<rparr>]\<rparr>))
     \<noteq> Inr ''Vote cast successfully''"
proof -
  have nd: "nodes demoWorld ''node-1'' = Some demoNode"
    by (simp add: demoWorld_def)
  have vals: "roles demoNode = [''voter'', ''creator'']" "reputation_score demoNode = Some 50"
    "proposalThreshold (governance demoNode) = 40" "votes_cast demoNode = Fin (of_int 0)"
    "hookOf (transactionHooks demoNode) onVote = None"
    by (simp_all add: demoNode_def hookOf_def)
  have ok: "chainAdapter demoEnv h c = Inr (Bool True)" "validateExchange demoEnv l" for h c l
    by (simp_all add: demoEnv_def)
  note t1 = mp[OF castVote_authorization_floor[where w = demoWorld and nid = "''node-1''" and nd = demoNode
        and E = demoEnv and pid = "Str ''prop-7''" and vote = "Bool True", unfolded Let_def] nd]
  have one: "numAdd (votes_cast demoNode) (Fin 1) = Fin 1"
    using t1[THEN conjunct2, THEN conjunct2, THEN conjunct2, rule_format, of 0] vals(4) by simp
  have auth: "''voter'' \<in> set (roles demoNode) \<and>
              \<not> (\<exists>r. reputation_score demoNode = Some r \<and> r < proposalThreshold (governance demoNode))"
    by (simp add: vals)
  note t1' = mp[OF t1[THEN conjunct2, THEN conjunct2, THEN conjunct1] auth]
  have r1: "snd (castVote demoEnv ''node-1'' (Str ''prop-7'') (Bool True) demoWorld) = Inr ''Vote cast successfully''"
    using t1'[THEN conjunct2, THEN conjunct2, THEN conjunct2, THEN conjunct2]
    by (simp add: vals ok hookEffects_def)
  have r2: "nodes (fst (castVote demoEnv ''node-1'' (Str ''prop-7'') (Bool True) demoWorld)) =
              (nodes demoWorld)(''node-1'' \<mapsto> demoNode\<lparr>votes_cast := Fin 1\<rparr>)"
    using t1'[THEN conjunct2, THEN conjunct1, rule_format, OF ok(1)] unfolding one .
  let ?low = "demoNode\<lparr>reputation_score := Some 30\<rparr>"
  have r3: "castVote demoEnv ''node-1'' (Str ''prop-7'') (Bool True) (demoWorld\<lparr>nodes := [''node-1'' \<mapsto> ?low]\<rparr>)
              = (demoWorld\<lparr>nodes := [''node-1'' \<mapsto> ?low]\<rparr>, Inl InsufficientReputation)"
    using castVote_authorization_floor[where w = "demoWorld\<lparr>nodes := [''node-1'' \<mapsto> ?low]\<rparr>"
        and nid = "''node-1''" and nd = ?low and E = demoEnv and pid = "Str ''prop-7''" and vote = "Bool True",
        unfolded Let_def, THEN mp, THEN conjunct2, THEN conjunct1]
    by (simp add: vals)
  let ?nov = "demoNode\<lparr>roles := [''creator'']\<rparr>"
  have r4: "castVote demoEnv ''node-1'' (Str ''prop-7'') (Bool True) (demoWorld\<lparr>nodes := [''node-1'' \<mapsto> ?nov]\<rparr>)
              = (demoWorld\<lparr>nodes := [''node-1'' \<mapsto> ?nov]\<rparr>, Inl NotAuthorizedToVote)"
    using castVote_authorization_floor[where w = "demoWorld\<lparr>nodes := [''node-1'' \<mapsto> ?nov]\<rparr>"
        and nid = "''node-1''" and nd = ?nov and E = demoEnv and pid = "Str ''prop-7''" and vote = "Bool True",
        unfolded Let_def, THEN mp, THEN conjunct1]
    by simp
  let ?hk = "demoNode\<lparr>transactionHooks := Some \<lparr>onEntropyFetch = None, onVote = Some ''tally''\<rparr>\<rparr>"
  have auth5: "''voter'' \<in> set (roles ?hk) \<and>
              \<not> (\<exists>r. reputation_score ?hk = Some r \<and> r < proposalThreshold (governance ?hk))"
    by (simp add: vals)
  have r5: "snd (castVote (demoEnv\<lparr>chainAdapter := failingHooks\<rparr>) ''node-1'' (Str ''prop-7'') (Bool True)
                  (demoWorld\<lparr>nodes := [''node-1'' \<mapsto> ?hk]\<rparr>)) \<noteq> Inr ''Vote cast successfully''"
    using castVote_authorization_floor[where w = "demoWorld\<lparr>nodes := [''node-1'' \<mapsto> ?hk]\<rparr>"
        and nid = "''node-1''" and nd = ?hk and E = "demoEnv\<lparr>chainAdapter := failingHooks\<rparr>"
        and pid = "Str ''prop-7''" and vote = "Bool True",
        unfolded Let_def, THEN mp, THEN conjunct2, THEN conjunct2, THEN conjunct1, THEN mp, OF _ auth5,
        THEN conjunct2, THEN conjunct2, THEN conjunct2, THEN conjunct2]
    by (simp add: hookOf_def hookEffects_def failingHooks_def)
  from nd r1 r2 r3 r4 r5 show ?thesis by (simp add: vals)
qed

subsection \<open>The retry loop\<close>

lemma fetchAttempts_skip:
  "maxAttempts rp \<le> int a \<Longrightarrow> fetchAttempts E c m f rp a w = (w, Inr Undefined)"
  by (subst fetchAttempts.simps) simp

lemma fetchAttempts_resolved:
  "int a < maxAttempts rp \<Longrightarrow> chainAdapter E (effects w) (CallContract c m f) = Inr v \<Longrightarrow>
     fetchAttempts E c m f rp a w = (w\<lparr>effects := effects w @ [CallContract c m f]\<rparr>, Inr v)"
  by (subst fetchAttempts.simps) (simp add: callAdapter_def)

lemma fetchAttempts_last_rejected:
  "int a < maxAttempts rp \<Longrightarrow> chainAdapter E (effects w) (CallContract c m f) = Inl msg \<Longrightarrow>
   maxAttempts rp \<le> int (Suc a) \<Longrightarrow>
     fetchAttempts E c m f rp a w =
       (w\<lparr>effects := effects w @ [CallContract c m f]\<rparr>, Inl (EntropyFetchFailed (Suc a) msg))"
  by (subst fetchAttempts.simps) (simp add: callAdapter_def)

lemma fetchAttempts_retry:
  "int a < maxAttempts rp \<Longrightarrow> chainAdapter E (effects w) (CallContract c m f) = Inl msg \<Longrightarrow>
   \<not> maxAttempts rp \<le> int (Suc a) \<Longrightarrow>
     fetchAttempts E c m f rp a w =
       fetchAttempts E c m f rp (Suc a)
         (w\<lparr>effects := effects w @ [CallContract c m f, Sleep (backoffMs rp)]\<rparr>)"
  by (subst fetchAttempts.simps) (simp add: callAdapter_def)

lemma fetchAttempts_succeeds_at:
  assumes "int (a + j) < maxAttempts rp"
    and "\<forall>i<j. \<exists>msg. chainAdapter E (effects w @ concat (replicate i [CallContract c m f, Sleep (backoffMs rp)]))
                        (CallContract c m f) = Inl msg"
    and "chainAdapter E (effects w @ concat (replicate j [CallContract c m f, Sleep (backoffMs rp)]))
           (CallContract c m f) = Inr v"
  shows "fetchAttempts E c m f rp a w =
           (w\<lparr>effects := effects w @ concat (replicate j [CallContract c m f, Sleep (backoffMs rp)])
                                  @ [CallContract c m f]\<rparr>, Inr v)"
  using assms
proof (induction j arbitrary: a w)
  case 0
  then show ?case using fetchAttempts_resolved[of a rp E w c m f v] by simp
next
  case (Suc j)
  let ?C = "CallContract c m f" and ?S = "Sleep (backoffMs rp)"
  let ?w = "w\<lparr>effects := effects w @ [?C, ?S]\<rparr>"
  from Suc.prems(2) obtain msg where first: "chainAdapter E (effects w) ?C = Inl msg"
    by fastforce
  have step: "fetchAttempts E c m f rp a w = fetchAttempts E c m f rp (Suc a) ?w"
    using fetchAttempts_retry[OF _ first] Suc.prems(1) by simp
  have earlier: "\<forall>i<j. \<exists>msg. chainAdapter E (effects ?w @ concat (replicate i [?C, ?S])) ?C = Inl msg"
  proof (intro allI impI)
    fix i assume "i < j"
    then have "Suc i < Suc j" by simp
    with Suc.prems(2) have "\<exists>msg. chainAdapter E (effects w @ concat (replicate (Suc i) [?C, ?S])) ?C = Inl msg"
      by blast
    then show "\<exists>msg. chainAdapter E (effects ?w @ concat (replicate i [?C, ?S])) ?C = Inl msg"
      by simp
  qed
  have last: "chainAdapter E (effects ?w @ concat (replicate j [?C, ?S])) ?C = Inr v"
    using Suc.prems(3) by simp
  have "int (Suc a + j) < maxAttempts rp" using Suc.prems(1) by simp
  from Suc.IH[OF this earlier last] step show ?case by simp
qed


lemma fetchAttempts_Inr:
  assumes "fetchAttempts E c m f rp a w = (w1, Inr v)" and "int a < maxAttempts rp"
  shows "\<exists>j. int (a + j) < maxAttempts rp \<and>
             chainAdapter E (effects w @ concat (replicate j [CallContract c m f, Sleep (backoffMs rp)]))
               (CallContract c m f) = Inr v \<and>
             (\<forall>i<j. \<exists>msg. chainAdapter E (effects w @ concat (replicate i [CallContract c m f, Sleep (backoffMs rp)]))
                        (CallContract c m f) = Inl msg) \<and>
             w1 = w\<lparr>effects := effects w @ concat (replicate j [CallContract c m f, Sleep (backoffMs rp)])
                                  @ [CallContract c m f]\<rparr>"
  using assms
proof (induction n \<equiv> "nat (maxAttempts rp - int a)" arbitrary: a w)
  case 0
  then show ?case by simp
next
  case (Suc n)
  let ?C = "CallContract c m f" and ?S = "Sleep (backoffMs rp)"
  let ?w = "w\<lparr>effects := effects w @ [?C, ?S]\<rparr>"
  show ?case
  proof (cases "chainAdapter E (effects w) ?C")
    case (Inr v')
    from fetchAttempts_resolved[OF Suc.prems(2) Inr] Suc.prems(1)
    have "v' = v" "w1 = w\<lparr>effects := effects w @ [?C]\<rparr>" by simp_all
    with Inr Suc.prems(2) show ?thesis by (intro exI[of _ 0]) simp
  next
    case (Inl msg)
    show ?thesis
    proof (cases "maxAttempts rp \<le> int (Suc a)")
      case True
      from fetchAttempts_last_rejected[OF Suc.prems(2) Inl True] Suc.prems(1)
      show ?thesis by simp
    next
      case False
      have step: "fetchAttempts E c m f rp (Suc a) ?w = (w1, Inr v)"
        using fetchAttempts_retry[OF Suc.prems(2) Inl False] Suc.prems(1) by simp
      have n: "n = nat (maxAttempts rp - int (Suc a))" using Suc.hyps(2) by simp
      have lt: "int (Suc a) < maxAttempts rp" using False by simp
      from Suc.hyps(1)[OF n step lt] obtain j where j:
        "int (Suc a + j) < maxAttempts rp"
        "chainAdapter E (effects ?w @ concat (replicate j [?C, ?S])) ?C = Inr v"
        "\<forall>i<j. \<exists>msg. chainAdapter E (effects ?w @ concat (replicate i [?C, ?S])) ?C = Inl msg"
        "w1 = ?w\<lparr>effects := effects ?w @ concat (replicate j [?C, ?S]) @ [?C]\<rparr>"
        by blast
      have earlier: "\<forall>i<Suc j. \<exists>msg. chainAdapter E (effects w @ concat (replicate i [?C, ?S])) ?C = Inl msg"
      proof (intro allI impI)
        fix i assume i: "i < Suc j"
        show "\<exists>msg. chainAdapter E (effects w @ concat (replicate i [?C, ?S])) ?C = Inl msg"
        proof (cases i)
          case 0
          with Inl show ?thesis by simp
        next
          case (Suc i')
          with i j(3) have "\<exists>msg. chainAdapter E (effects ?w @ concat (replicate i' [?C, ?S])) ?C = Inl msg"
            by simp
          with Suc show ?thesis by simp
        qed
      qed
      from j earlier show ?thesis by (intro exI[of _ "Suc j"]) simp
    qed
  qed
qed

lemma fetchAttempts_effects:
  "\<exists>es. fst (fetchAttempts E c m f rp a w) = w\<lparr>effects := effects w @ es\<rparr> \<and>
        (\<forall>e\<in>set es. e = CallContract c m f \<or> e = Sleep (backoffMs rp)) \<and>
        int (length (filter isCallContract es)) \<le> max 0 (maxAttempts rp - int a)"
proof (induction n \<equiv> "nat (maxAttempts rp - int a)" arbitrary: a w)
  case 0
  then have "maxAttempts rp \<le> int a" by simp
  then show ?case using fetchAttempts_skip[of rp a E c m f w] by (intro exI[of _ "[]"]) simp
next
  case (Suc n)
  let ?C = "CallContract c m f" and ?S = "Sleep (backoffMs rp)"
  let ?w = "w\<lparr>effects := effects w @ [?C, ?S]\<rparr>"
  have lt: "int a < maxAttempts rp" using Suc.hyps(2) by linarith
  show ?case
  proof (cases "chainAdapter E (effects w) ?C")
    case (Inr v)
    from fetchAttempts_resolved[OF lt Inr] lt show ?thesis by (intro exI[of _ "[?C]"]) simp
  next
    case (Inl msg)
    show ?thesis
    proof (cases "maxAttempts rp \<le> int (Suc a)")
      case True
      from fetchAttempts_last_rejected[OF lt Inl True] lt show ?thesis by (intro exI[of _ "[?C]"]) simp
    next
      case False
      have n: "n = nat (maxAttempts rp - int (Suc a))" using Suc.hyps(2) by simp
      from Suc.hyps(1)[OF n, of ?w] obtain es where es:
        "fst (fetchAttempts E c m f rp (Suc a) ?w) = ?w\<lparr>effects := effects ?w @ es\<rparr>"
        "\<forall>e\<in>set es. e = ?C \<or> e = ?S"
        "int (length (filter isCallContract es)) \<le> max 0 (maxAttempts rp - int (Suc a))"
        by blast
      from es False fetchAttempts_retry[OF lt Inl False]
      show ?thesis by (intro exI[of _ "[?C, ?S] @ es"]) auto
    qed
  qed
qed

subsection \<open>fetchEntropy\<close>

lemma andThen_eq_Inr:
  "andThen m f = (w', Inr y) \<longleftrightarrow> (\<exists>x. snd m = Inr x \<and> f x (fst m) = (w', Inr y))"
  by (cases m; cases "snd m") (auto simp: andThen_def)

lemma snd_applyPostProcess:
  "snd (applyPostProcess E pp v w) =
     (case pp of
        None \<Rightarrow> Inl TypeError
      | Some p \<Rightarrow> if pp_type p \<noteq> ''none''
                  then snd (await E (ExecutePostProcess (pp_type p) (callback p) v) w)
                  else Inr v)"
  by (simp add: applyPostProcess_def split: option.splits)

lemma hookEffects_not_gateway: "e \<in> set (hookEffects h p) \<Longrightarrow> \<not> isCallContract e"
  by (auto simp: hookEffects_def split: option.splits if_splits)

lemma postProcessEffects_not_gateway: "e \<in> set (postProcessEffects pp v) \<Longrightarrow> \<not> isCallContract e"
  by (auto simp: postProcessEffects_def split: option.splits if_splits)

lemma fetchEntropy_unfold:
  assumes "nodes w nid = Some nd"
  shows "fetchEntropy E nid i w =
     andThen (fetchAttempts E (elemAt (contracts (entropy_agent nd)) i) (ea_method (entropy_agent nd))
                (ea_format (entropy_agent nd)) (retryPolicy (entropy_agent nd)) 0 w) (\<lambda>entropy w1.
     andThen (applyPostProcess E (postProcess (entropy_agent nd)) entropy w1) (\<lambda>processedEntropy w2.
     andThen (await E (CacheEntropy nid processedEntropy (cacheTTL (entropy_agent nd))) w2) (\<lambda>_ w3.
     andThen (triggerHook E (hookOf (transactionHooks nd) onEntropyFetch)
                (Obj [(''nodeId'', Str nid), (''entropy'', processedEntropy)]) w3) (\<lambda>_ w4.
     andThen (await E (DistributeKarmaWage (wallet_address nd) (karmaWage nd)) w4) (\<lambda>_ w5.
     andThen (await E (UpdateReputation (wallet_address nd) (1 / 2)) w5) (\<lambda>_ w6.
     andThen (logComplianceEvent E ''entropy_fetched'' (wallet_address nd)
                (Obj [(''node_id'', Str nid),
                      (''contract'', (case elemAt (contracts (entropy_agent nd)) i of
                                        None \<Rightarrow> Undefined | Some a \<Rightarrow> Str a))]) w6) (\<lambda>_ w7.
     (w7, Inr processedEntropy))))))))"
  using assms by (simp add: fetchEntropy_def Let_def)

text \<open>What the part of \<^verbatim>\<open>fetchEntropy\<close> after the retry loop adds to the state.\<close>

lemma fetchEntropy_after_loop:
  assumes nd: "nodes w nid = Some nd"
    and loop: "fetchAttempts E (elemAt (contracts (entropy_agent nd)) i) (ea_method (entropy_agent nd))
                (ea_format (entropy_agent nd)) (retryPolicy (entropy_agent nd)) 0 w = (w1, r)"
  shows "\<exists>rest. effects (fst (fetchEntropy E nid i w)) = effects w1 @ rest \<and>
               (\<forall>e\<in>set rest. \<not> isCallContract e) \<and> nodes (fst (fetchEntropy E nid i w)) = nodes w1"
proof (cases r)
  case (Inl e)
  then show ?thesis
    unfolding fetchEntropy_unfold[OF nd] loop by (simp add: andThen_simps)
next
  case (Inr v)
  show ?thesis
    unfolding fetchEntropy_unfold[OF nd] loop Inr andThen_simps
    by (auto simp: fst_andThen fst_applyPostProcess fst_await fst_triggerHook fst_logComplianceEvent
          dest: hookEffects_not_gateway postProcessEffects_not_gateway split: sum.splits)
qed

lemma fetchEntropy_success:
  assumes nd: "nodes w nid = Some nd"
    and ok: "fetchEntropy E nid i w = (w', Inr x)"
  shows "\<exists>w1 v. fetchAttempts E (elemAt (contracts (entropy_agent nd)) i) (ea_method (entropy_agent nd))
                (ea_format (entropy_agent nd)) (retryPolicy (entropy_agent nd)) 0 w = (w1, Inr v) \<and>
          snd (applyPostProcess E (postProcess (entropy_agent nd)) v w1) = Inr x \<and>
          effects w' = effects w1 @ postProcessEffects (postProcess (entropy_agent nd)) v
             @ [CacheEntropy nid x (cacheTTL (entropy_agent nd))]
             @ hookEffects (hookOf (transactionHooks nd) onEntropyFetch)
                 (Obj [(''nodeId'', Str nid), (''entropy'', x)])
             @ [DistributeKarmaWage (wallet_address nd) (karmaWage nd),
                UpdateReputation (wallet_address nd) (1 / 2)] \<and>
          auditLog w' = auditLog w1 @
             [\<lparr>event = ''entropy_fetched'', timestamp = clock E (clockReads w1), user = wallet_address nd,
               details = Obj [(''node_id'', Str nid),
                      (''contract'', (case elemAt (contracts (entropy_agent nd)) i of
                                        None \<Rightarrow> Undefined | Some a \<Rightarrow> Str a))]\<rparr>] \<and>
          nodes w' = nodes w1"
proof -
  obtain w1 r where loop: "fetchAttempts E (elemAt (contracts (entropy_agent nd)) i) (ea_method (entropy_agent nd))
                (ea_format (entropy_agent nd)) (retryPolicy (entropy_agent nd)) 0 w = (w1, r)"
    by (cases "fetchAttempts E (elemAt (contracts (entropy_agent nd)) i) (ea_method (entropy_agent nd))
                (ea_format (entropy_agent nd)) (retryPolicy (entropy_agent nd)) 0 w")
  from ok obtain v where r: "r = Inr v"
    unfolding fetchEntropy_unfold[OF nd] loop by (cases r) (simp_all add: andThen_simps)
  from ok show ?thesis
    unfolding fetchEntropy_unfold[OF nd] loop r andThen_simps
    by (auto simp: andThen_eq_Inr fst_applyPostProcess fst_await fst_triggerHook fst_logComplianceEvent)
qed

lemma gatewayCalls_replicate:
  "filter isCallContract (concat (replicate n [CallContract c m f, Sleep b])) = replicate n (CallContract c m f)"
  by (induction n) simp_all

lemma newEffects_append: "effects w' = effects w @ es \<Longrightarrow> newEffects w w' = es"
  by (simp add: newEffects_def)

lemma fetchAttempts_first_call:
  assumes "0 < maxAttempts rp"
  shows "\<exists>rest. effects (fst (fetchAttempts E c m f rp 0 w)) = effects w @ CallContract c m f # rest"
proof (cases "chainAdapter E (effects w) (CallContract c m f)")
  case (Inr v)
  from fetchAttempts_resolved[OF _ Inr, of 0 rp] assms show ?thesis by simp
next
  case (Inl msg)
  show ?thesis
  proof (cases "maxAttempts rp \<le> int (Suc 0)")
    case True
    from fetchAttempts_last_rejected[OF _ Inl True] assms show ?thesis by simp
  next
    case False
    obtain es where "fst (fetchAttempts E c m f rp (Suc 0)
                        (w\<lparr>effects := effects w @ [CallContract c m f, Sleep (backoffMs rp)]\<rparr>)) =
                     w\<lparr>effects := effects w @ [CallContract c m f, Sleep (backoffMs rp)]\<rparr>
                      \<lparr>effects := effects (w\<lparr>effects := effects w @ [CallContract c m f, Sleep (backoffMs rp)]\<rparr>) @ es\<rparr>"
      using fetchAttempts_effects[of E c m f rp "Suc 0"
          "w\<lparr>effects := effects w @ [CallContract c m f, Sleep (backoffMs rp)]\<rparr>"] by blast
    with fetchAttempts_retry[OF _ Inl False] assms show ?thesis by simp
  qed
qed




lemma fetchEntropy_hook_rejected:
  assumes nd: "nodes w nid = Some nd"
    and loop: "fetchAttempts E (elemAt (contracts (entropy_agent nd)) i) (ea_method (entropy_agent nd))
                (ea_format (entropy_agent nd)) (retryPolicy (entropy_agent nd)) 0 w = (w1, Inr v)"
    and pp: "applyPostProcess E (postProcess (entropy_agent nd)) v w1 = (w2, Inr p)"
    and cache: "chainAdapter E (effects w2) (CacheEntropy nid p (cacheTTL (entropy_agent nd))) = Inr cv"
    and hook: "hookOf (transactionHooks nd) onEntropyFetch = Some h" "h \<noteq> []"
    and rej: "chainAdapter E (effects w2 @ [CacheEntropy nid p (cacheTTL (entropy_agent nd))])
                (ExecuteHook h (Obj [(''nodeId'', Str nid), (''entropy'', p)])) = Inl msg"
  shows "fetchEntropy E nid i w =
           (w2\<lparr>effects := effects w2 @ [CacheEntropy nid p (cacheTTL (entropy_agent nd)),
                                         ExecuteHook h (Obj [(''nodeId'', Str nid), (''entropy'', p)])]\<rparr>,
            Inl (Rejected msg))"
  unfolding fetchEntropy_unfold[OF nd] loop andThen_simps pp
  by (simp add: await_def cache andThen_simps triggerHook_def hook rej)

lemma fetchEntropy_gateway_calls:
  fixes E nid i w nd
  defines "ea \<equiv> entropy_agent nd"
  defines "call \<equiv> CallContract (elemAt (contracts ea) i) (ea_method ea) (ea_format ea)"
  defines "new \<equiv> newEffects w (fst (fetchEntropy E nid i w))"
  assumes nd: "nodes w nid = Some nd"
  shows "int (length (filter isCallContract new)) \<le> max 0 (maxAttempts (retryPolicy ea))"
    and "\<forall>e\<in>set new. isCallContract e \<longrightarrow> e = call"
    and "nodes (fst (fetchEntropy E nid i w)) = nodes w"
    and "0 < maxAttempts (retryPolicy ea) \<Longrightarrow> \<exists>rest. new = call # rest"
proof -
  obtain w1 r where loop: "fetchAttempts E (elemAt (contracts ea) i) (ea_method ea)
                (ea_format ea) (retryPolicy ea) 0 w = (w1, r)"
    by (cases "fetchAttempts E (elemAt (contracts ea) i) (ea_method ea) (ea_format ea) (retryPolicy ea) 0 w")
  obtain es where es: "w1 = w\<lparr>effects := effects w @ es\<rparr>"
      "\<forall>e\<in>set es. e = call \<or> e = Sleep (backoffMs (retryPolicy ea))"
      "int (length (filter isCallContract es)) \<le> max 0 (maxAttempts (retryPolicy ea) - int 0)"
    using fetchAttempts_effects[of E "elemAt (contracts ea) i" "ea_method ea" "ea_format ea" "retryPolicy ea" 0 w]
      loop unfolding call_def by auto
  obtain rest where rest: "effects (fst (fetchEntropy E nid i w)) = effects w1 @ rest"
      "\<forall>e\<in>set rest. \<not> isCallContract e" "nodes (fst (fetchEntropy E nid i w)) = nodes w1"
    using fetchEntropy_after_loop[OF nd loop[unfolded ea_def]] by blast
  have new: "new = es @ rest"
    unfolding new_def using rest(1) es(1) by (simp add: newEffects_def)
  have none: "filter isCallContract rest = []"
    using rest(2) by (simp add: filter_empty_conv)
  show "int (length (filter isCallContract new)) \<le> max 0 (maxAttempts (retryPolicy ea))"
    using es(3) by (simp add: new none)
  show "\<forall>e\<in>set new. isCallContract e \<longrightarrow> e = call"
    using es(2) rest(2) by (auto simp: new)
  show "nodes (fst (fetchEntropy E nid i w)) = nodes w"
    using rest(3) es(1) by simp
  show "\<exists>rest. new = call # rest" if pos: "0 < maxAttempts (retryPolicy ea)"
  proof -
    obtain tl where "effects w1 = effects w @ call # tl"
      using fetchAttempts_first_call[OF pos, of E "elemAt (contracts ea) i" "ea_method ea" "ea_format ea" w]
        loop unfolding call_def by auto
    then show ?thesis
      unfolding new_def using rest(1) by (simp add: newEffects_def)
  qed
qed



lemma hookEffects_filters:
  "filter isCacheEntropy (hookEffects h p) = []"
  "filter isKarmaWage (hookEffects h p) = []"
  "filter isReputation (hookEffects h p) = []"
  by (simp_all add: hookEffects_def split: option.splits)

lemma postProcessEffects_filters:
  "filter isCacheEntropy (postProcessEffects pp v) = []"
  "filter isKarmaWage (postProcessEffects pp v) = []"
  "filter isReputation (postProcessEffects pp v) = []"
  by (simp_all add: postProcessEffects_def split: option.splits)

lemma loopEffects_filters:
  assumes "\<forall>e\<in>set es. e = CallContract c m f \<or> e = Sleep b"
  shows "filter isCacheEntropy es = []" "filter isKarmaWage es = []" "filter isReputation es = []"
  using assms by (auto simp: filter_empty_conv)

lemma fetchEntropy_success_effects:
  fixes E nid i w nd w' x
  defines "ea \<equiv> entropy_agent nd"
  defines "new \<equiv> newEffects w w'"
  assumes nd: "nodes w nid = Some nd" and ok: "fetchEntropy E nid i w = (w', Inr x)"
  shows "filter isCacheEntropy new = [CacheEntropy nid x (cacheTTL ea)]"
    and "filter isKarmaWage new = [DistributeKarmaWage (wallet_address nd) (karmaWage nd)]"
    and "filter isReputation new = [UpdateReputation (wallet_address nd) (1 / 2)]"
    and "nodes w' = nodes w"
    and "\<exists>es v. (\<forall>e\<in>set es. e = CallContract (elemAt (contracts ea) i) (ea_method ea) (ea_format ea) \<or>
                           e = Sleep (backoffMs (retryPolicy ea))) \<and>
                new = es @ postProcessEffects (postProcess ea) v
                      @ [CacheEntropy nid x (cacheTTL ea)]
                      @ hookEffects (hookOf (transactionHooks nd) onEntropyFetch)
                          (Obj [(''nodeId'', Str nid), (''entropy'', x)])
                      @ [DistributeKarmaWage (wallet_address nd) (karmaWage nd),
                         UpdateReputation (wallet_address nd) (1 / 2)]"
proof -
  from fetchEntropy_success[OF nd ok] obtain w1 v where
    loop: "fetchAttempts E (elemAt (contracts ea) i) (ea_method ea) (ea_format ea) (retryPolicy ea) 0 w = (w1, Inr v)"
    and eff: "effects w' = effects w1 @ postProcessEffects (postProcess ea) v
             @ [CacheEntropy nid x (cacheTTL ea)]
             @ hookEffects (hookOf (transactionHooks nd) onEntropyFetch)
                 (Obj [(''nodeId'', Str nid), (''entropy'', x)])
             @ [DistributeKarmaWage (wallet_address nd) (karmaWage nd),
                UpdateReputation (wallet_address nd) (1 / 2)]"
    and nodes: "nodes w' = nodes w1"
    unfolding ea_def by blast
  obtain es where es: "w1 = w\<lparr>effects := effects w @ es\<rparr>"
      "\<forall>e\<in>set es. e = CallContract (elemAt (contracts ea) i) (ea_method ea) (ea_format ea) \<or>
                   e = Sleep (backoffMs (retryPolicy ea))"
    using fetchAttempts_effects[of E "elemAt (contracts ea) i" "ea_method ea" "ea_format ea" "retryPolicy ea" 0 w]
      loop by auto
  have new: "new = es @ postProcessEffects (postProcess ea) v
             @ [CacheEntropy nid x (cacheTTL ea)]
             @ hookEffects (hookOf (transactionHooks nd) onEntropyFetch)
                 (Obj [(''nodeId'', Str nid), (''entropy'', x)])
             @ [DistributeKarmaWage (wallet_address nd) (karmaWage nd),
                UpdateReputation (wallet_address nd) (1 / 2)]"
    unfolding new_def using eff es(1) by (simp add: newEffects_def)
  show "filter isCacheEntropy new = [CacheEntropy nid x (cacheTTL ea)]"
    unfolding new by (simp add: loopEffects_filters[OF es(2)] hookEffects_filters postProcessEffects_filters)
  show "filter isKarmaWage new = [DistributeKarmaWage (wallet_address nd) (karmaWage nd)]"
    unfolding new by (simp add: loopEffects_filters[OF es(2)] hookEffects_filters postProcessEffects_filters)
  show "filter isReputation new = [UpdateReputation (wallet_address nd) (1 / 2)]"
    unfolding new by (simp add: loopEffects_filters[OF es(2)] hookEffects_filters postProcessEffects_filters)
  show "nodes w' = nodes w" using nodes es(1) by simp
  show "\<exists>es v. (\<forall>e\<in>set es. e = CallContract (elemAt (contracts ea) i) (ea_method ea) (ea_format ea) \<or>
                           e = Sleep (backoffMs (retryPolicy ea))) \<and>
                new = es @ postProcessEffects (postProcess ea) v
                      @ [CacheEntropy nid x (cacheTTL ea)]
                      @ hookEffects (hookOf (transactionHooks nd) onEntropyFetch)
                          (Obj [(''nodeId'', Str nid), (''entropy'', x)])
                      @ [DistributeKarmaWage (wallet_address nd) (karmaWage nd),
                         UpdateReputation (wallet_address nd) (1 / 2)]"
    using es(2) new by blast
qed

lemma fetchEntropy_success_raw:
  fixes E nid i w nd w' x p
  defines "ea \<equiv> entropy_agent nd"
  defines "call \<equiv> CallContract (elemAt (contracts ea) i) (ea_method ea) (ea_format ea)"
  assumes nd: "nodes w nid = Some nd" and ok: "fetchEntropy E nid i w = (w', Inr x)"
    and pp: "postProcess ea = Some p" "pp_type p = ''none''"
  shows "snd (fetchAttempts E (elemAt (contracts ea) i) (ea_method ea) (ea_format ea) (retryPolicy ea) 0 w) = Inr x"
    and "0 < maxAttempts (retryPolicy ea) \<Longrightarrow>
           \<exists>j. int j < maxAttempts (retryPolicy ea) \<and>
               gatewayAttempt E w call (backoffMs (retryPolicy ea)) j = Inr x"
proof -
  from fetchEntropy_success[OF nd ok] obtain w1 v where
    loop: "fetchAttempts E (elemAt (contracts ea) i) (ea_method ea) (ea_format ea) (retryPolicy ea) 0 w = (w1, Inr v)"
    and post: "snd (applyPostProcess E (postProcess ea) v w1) = Inr x"
    unfolding ea_def by blast
  have v: "v = x" using post pp by (simp add: snd_applyPostProcess)
  show "snd (fetchAttempts E (elemAt (contracts ea) i) (ea_method ea) (ea_format ea) (retryPolicy ea) 0 w) = Inr x"
    using loop v by simp
  show "\<exists>j. int j < maxAttempts (retryPolicy ea) \<and>
               gatewayAttempt E w call (backoffMs (retryPolicy ea)) j = Inr x"
    if pos: "0 < maxAttempts (retryPolicy ea)"
  proof -
    have "int 0 < maxAttempts (retryPolicy ea)" using pos by simp
    from fetchAttempts_Inr[OF loop this] v show ?thesis
      unfolding gatewayAttempt_def call_def by auto
  qed
qed






text \<open>
  Claim C8. A \<^verbatim>\<open>fetchEntropy\<close> call that returns \<open>x\<close> has issued exactly one cache
  write, \<^verbatim>\<open>cacheEntropy(nodeId, x, cacheTTL)\<close>, exactly one karma credit (the node's wallet
  and wage) and exactly one reputation credit (the node's wallet, 0.5). Its effects are,
  in order: the gateway calls and backoff waits of the retry loop, the post-processing
  if any, the cache write, the hook dispatch if any, the two credits; none of them reads
  the cache. With \<^verbatim>\<open>maxAttempts \<ge> 1\<close> the first effect is the gateway call, and so is the
  first effect of the same call repeated in the state just reached. With
  \<^verbatim>\<open>postProcess.type = 'none'\<close> the value \<open>x\<close> is the value the retry loop obtained, which
  is the value some gateway attempt resolved with.
\<close>

theorem fetchEntropy_success_writes_once:
  "nodes w nid = Some nd \<and> fetchEntropy E nid i w = (w', Inr x) \<longrightarrow>
     (let ea = entropy_agent nd;
          call = CallContract (elemAt (contracts ea) i) (ea_method ea) (ea_format ea);
          new = newEffects w w'
      in filter isCacheEntropy new = [CacheEntropy nid x (cacheTTL ea)] \<and>
         filter isKarmaWage new = [DistributeKarmaWage (wallet_address nd) (karmaWage nd)] \<and>
         filter isReputation new = [UpdateReputation (wallet_address nd) (1 / 2)] \<and>
         (\<exists>es v. (\<forall>e\<in>set es. e = call \<or> e = Sleep (backoffMs (retryPolicy ea))) \<and>
                 new = es @ postProcessEffects (postProcess ea) v
                       @ [CacheEntropy nid x (cacheTTL ea)]
                       @ hookEffects (hookOf (transactionHooks nd) onEntropyFetch)
                           (Obj [(''nodeId'', Str nid), (''entropy'', x)])
                       @ [DistributeKarmaWage (wallet_address nd) (karmaWage nd),
                          UpdateReputation (wallet_address nd) (1 / 2)]) \<and>
         (0 < maxAttempts (retryPolicy ea) \<longrightarrow>
            (\<exists>rest. new = call # rest) \<and>
            (\<exists>rest. newEffects w' (fst (fetchEntropy E nid i w')) = call # rest)) \<and>
         (\<forall>p. postProcess ea = Some p \<and> pp_type p = ''none'' \<longrightarrow>
            snd (fetchAttempts E (elemAt (contracts ea) i) (ea_method ea) (ea_format ea)
                   (retryPolicy ea) 0 w) = Inr x \<and>
            (0 < maxAttempts (retryPolicy ea) \<longrightarrow>
               (\<exists>j. int j < maxAttempts (retryPolicy ea) \<and>
                    gatewayAttempt E w call (backoffMs (retryPolicy ea)) j = Inr x))))"
proof (intro impI, elim conjE)
  assume nd: "nodes w nid = Some nd" and ok: "fetchEntropy E nid i w = (w', Inr x)"
  define ea where "ea = entropy_agent nd"
  define call where "call = CallContract (elemAt (contracts ea) i) (ea_method ea) (ea_format ea)"
  define new where "new = newEffects w w'"
  note defs = ea_def call_def new_def
  note eff = fetchEntropy_success_effects[OF nd ok, folded defs]
  have w': "fst (fetchEntropy E nid i w) = w'" using ok by simp
  have nd': "nodes w' nid = Some nd" using eff(4) nd by simp
  have first: "0 < maxAttempts (retryPolicy ea) \<longrightarrow>
            (\<exists>rest. new = call # rest) \<and>
            (\<exists>rest. newEffects w' (fst (fetchEntropy E nid i w')) = call # rest)"
    using fetchEntropy_gateway_calls(4)[OF nd, of E i] fetchEntropy_gateway_calls(4)[OF nd', of E i]
    unfolding defs w' by blast
  have raw: "\<forall>p. postProcess ea = Some p \<and> pp_type p = ''none'' \<longrightarrow>
            snd (fetchAttempts E (elemAt (contracts ea) i) (ea_method ea) (ea_format ea)
                   (retryPolicy ea) 0 w) = Inr x \<and>
            (0 < maxAttempts (retryPolicy ea) \<longrightarrow>
               (\<exists>j. int j < maxAttempts (retryPolicy ea) \<and>
                    gatewayAttempt E w call (backoffMs (retryPolicy ea)) j = Inr x))"
    using fetchEntropy_success_raw[OF nd ok] unfolding defs by blast
  from eff(1,2,3,5) first raw
  show "let ea = entropy_agent nd;
          call = CallContract (elemAt (contracts ea) i) (ea_method ea) (ea_format ea);
          new = newEffects w w'
      in filter isCacheEntropy new = [CacheEntropy nid x (cacheTTL ea)] \<and>
         filter isKarmaWage new = [DistributeKarmaWage (wallet_address nd) (karmaWage nd)] \<and>
         filter isReputation new = [UpdateReputation (wallet_address nd) (1 / 2)] \<and>
         (\<exists>es v. (\<forall>e\<in>set es. e = call \<or> e = Sleep (backoffMs (retryPolicy ea))) \<and>
                 new = es @ postProcessEffects (postProcess ea) v
                       @ [CacheEntropy nid x (cacheTTL ea)]
                       @ hookEffects (hookOf (transactionHooks nd) onEntropyFetch)
                           (Obj [(''nodeId'', Str nid), (''entropy'', x)])
                       @ [DistributeKarmaWage (wallet_address nd) (karmaWage nd),
                          UpdateReputation (wallet_address nd) (1 / 2)]) \<and>
         (0 < maxAttempts (retryPolicy ea) \<longrightarrow>
            (\<exists>rest. new = call # rest) \<and>
            (\<exists>rest. newEffects w' (fst (fetchEntropy E nid i w')) = call # rest)) \<and>
         (\<forall>p. postProcess ea = Some p \<and> pp_type p = ''none'' \<longrightarrow>
            snd (fetchAttempts E (elemAt (contracts ea) i) (ea_method ea) (ea_format ea)
                   (retryPolicy ea) 0 w) = Inr x \<and>
            (0 < maxAttempts (retryPolicy ea) \<longrightarrow>
               (\<exists>j. int j < maxAttempts (retryPolicy ea) \<and>
                    gatewayAttempt E w call (backoffMs (retryPolicy ea)) j = Inr x)))"
    unfolding Let_def defs by blast
qed

lemma fetchEntropy_demo_run:
  "fetchEntropy (demoEnv\<lparr>chainAdapter := flakyGateway 2 (Str ''abc123'')\<rparr>) ''node-1'' 0 demoWorld =
     (demoWorld\<lparr>effects :=
         [CallContract (Some ''0xc0'') ''getEntropy'' ''hex'', Sleep 10,
          CallContract (Some ''0xc0'') ''getEntropy'' ''hex'', Sleep 10,
          CallContract (Some ''0xc0'') ''getEntropy'' ''hex'',
          CacheEntropy ''node-1'' (Str ''abc123'') 60,
          ExecuteHook ''notify'' (Obj [(''nodeId'', Str ''node-1''), (''entropy'', Str ''abc123'')]),
          DistributeKarmaWage ''0xabc'' 2, UpdateReputation ''0xabc'' (1 / 2)],
        clockReads := 1,
        auditLog := [\<lparr>event = ''entropy_fetched'', timestamp = ''t'', user = ''0xabc'',
                      details = Obj [(''node_id'', Str ''node-1''), (''contract'', Str ''0xc0'')]\<rparr>]\<rparr>,
      Inr (Str ''abc123''))"
proof -
  let ?E = "demoEnv\<lparr>chainAdapter := flakyGateway 2 (Str ''abc123'')\<rparr>"
  let ?C = "CallContract (Some ''0xc0'') ''getEntropy'' ''hex''"
  have loop: "fetchAttempts ?E (Some ''0xc0'') ''getEntropy'' ''hex'' \<lparr>maxAttempts = 3, backoffMs = 10\<rparr> 0 demoWorld =
     (demoWorld\<lparr>effects := effects demoWorld @ concat (replicate 2 [?C, Sleep (backoffMs \<lparr>maxAttempts = 3, backoffMs = 10\<rparr>)]) @ [?C]\<rparr>,
      Inr (Str ''abc123''))"
  proof (rule fetchAttempts_succeeds_at)
    show "int (0 + 2) < maxAttempts \<lparr>maxAttempts = 3, backoffMs = 10\<rparr>" by simp
    show "\<forall>i<2. \<exists>msg. chainAdapter ?E (effects demoWorld @ concat (replicate i [?C, Sleep (backoffMs \<lparr>maxAttempts = 3, backoffMs = 10\<rparr>)])) ?C = Inl msg"
      by (simp add: flakyGateway_def gatewayCalls_replicate demoWorld_def)
    show "chainAdapter ?E (effects demoWorld @ concat (replicate 2 [?C, Sleep (backoffMs \<lparr>maxAttempts = 3, backoffMs = 10\<rparr>)])) ?C = Inr (Str ''abc123'')"
      by (simp add: flakyGateway_def gatewayCalls_replicate demoWorld_def)
  qed
  have nd: "nodes demoWorld ''node-1'' = Some demoNode"
    by (simp add: demoWorld_def)
  have r2: "replicate 2 x = [x, x]" for x :: "effect list"
    by (simp add: numeral_2_eq_2)
  have vals: "elemAt (contracts (entropy_agent demoNode)) 0 = Some ''0xc0''"
    "ea_method (entropy_agent demoNode) = ''getEntropy''" "ea_format (entropy_agent demoNode) = ''hex''"
    "retryPolicy (entropy_agent demoNode) = \<lparr>maxAttempts = 3, backoffMs = 10\<rparr>"
    by (simp_all add: demoNode_def elemAt_def)
  show ?thesis
    apply (subst fetchEntropy_unfold[OF nd])
    apply (simp only: vals)
    apply (simp only: loop andThen_simps)
    apply (simp add: demoNode_def applyPostProcess_def await_def andThen_simps
          triggerHook_def hookOf_def logComplianceEvent_def now_def Let_def flakyGateway_def demoEnv_def
          demoWorld_def r2)
    done
qed

theorem fetchEntropy_success_writes_once_witness:
  "nodes demoWorld ''node-1'' = Some demoNode \<and>
   snd (fetchEntropy (demoEnv\<lparr>chainAdapter := flakyGateway 2 (Str ''abc123'')\<rparr>) ''node-1'' 0 demoWorld)
     = Inr (Str ''abc123'') \<and>
   filter isCacheEntropy (newEffects demoWorld
       (fst (fetchEntropy (demoEnv\<lparr>chainAdapter := flakyGateway 2 (Str ''abc123'')\<rparr>) ''node-1'' 0 demoWorld)))
     = [CacheEntropy ''node-1'' (Str ''abc123'') 60] \<and>
   filter isKarmaWage (newEffects demoWorld
       (fst (fetchEntropy (demoEnv\<lparr>chainAdapter := flakyGateway 2 (Str ''abc123'')\<rparr>) ''node-1'' 0 demoWorld)))
     = [DistributeKarmaWage ''0xabc'' 2]"
proof -
  let ?E = "demoEnv\<lparr>chainAdapter := flakyGateway 2 (Str ''abc123'')\<rparr>"
  have nd: "nodes demoWorld ''node-1'' = Some demoNode"
    by (simp add: demoWorld_def)
  have run: "fetchEntropy ?E ''node-1'' 0 demoWorld = (fst (fetchEntropy ?E ''node-1'' 0 demoWorld), Inr (Str ''abc123''))"
    unfolding fetchEntropy_demo_run by simp
  have vals: "cacheTTL (entropy_agent demoNode) = 60" "wallet_address demoNode = ''0xabc''" "karmaWage demoNode = 2"
    by (simp_all add: demoNode_def)
  note t = mp[OF fetchEntropy_success_writes_once[of demoWorld "''node-1''" demoNode ?E 0
              "fst (fetchEntropy ?E ''node-1'' 0 demoWorld)" "Str ''abc123''", unfolded Let_def] conjI[OF nd run]]
  have res: "snd (fetchEntropy ?E ''node-1'' 0 demoWorld) = Inr (Str ''abc123'')"
    unfolding fetchEntropy_demo_run by simp
  from t[THEN conjunct1] t[THEN conjunct2, THEN conjunct1] nd res show ?thesis
    by (simp add: vals)
qed



text \<open>
  Claim C1 as stated fails: with a gateway that answers \<^verbatim>\<open>"abc123"\<close> at the first attempt
  and an adapter that rejects the hook dispatch, \<^verbatim>\<open>fetchEntropy\<close> does not return the
  value; it throws the hook's error (the \<^verbatim>\<open>await\<close> of \<^verbatim>\<open>executeHook\<close> is in no
  \<^verbatim>\<open>try\<close>).
\<close>

theorem fetchEntropy_hook_failure_counterexample:
  "snd (fetchAttempts (demoEnv\<lparr>chainAdapter := failingHooks\<rparr>) (Some ''0xc0'') ''getEntropy'' ''hex''
          \<lparr>maxAttempts = 3, backoffMs = 10\<rparr> 0 demoWorld) = Inr (Str ''abc123'') \<and>
   snd (fetchEntropy (demoEnv\<lparr>chainAdapter := failingHooks\<rparr>) ''node-1'' 0 demoWorld)
     = Inl (Rejected ''hook failed'')"
proof -
  let ?E = "demoEnv\<lparr>chainAdapter := failingHooks\<rparr>"
  have loop: "fetchAttempts ?E (Some ''0xc0'') ''getEntropy'' ''hex'' \<lparr>maxAttempts = 3, backoffMs = 10\<rparr> 0 demoWorld =
     (demoWorld\<lparr>effects := effects demoWorld @ [CallContract (Some ''0xc0'') ''getEntropy'' ''hex'']\<rparr>,
      Inr (Str ''abc123''))"
    by (rule fetchAttempts_resolved) (simp_all add: failingHooks_def)
  have nd: "nodes demoWorld ''node-1'' = Some demoNode"
    by (simp add: demoWorld_def)
  have vals: "elemAt (contracts (entropy_agent demoNode)) 0 = Some ''0xc0''"
    "ea_method (entropy_agent demoNode) = ''getEntropy''" "ea_format (entropy_agent demoNode) = ''hex''"
    "retryPolicy (entropy_agent demoNode) = \<lparr>maxAttempts = 3, backoffMs = 10\<rparr>"
    by (simp_all add: demoNode_def elemAt_def)
  have "snd (fetchEntropy ?E ''node-1'' 0 demoWorld) = Inl (Rejected ''hook failed'')"
    apply (subst fetchEntropy_unfold[OF nd])
    apply (simp only: vals)
    apply (simp only: loop andThen_simps)
    apply (simp add: demoNode_def applyPostProcess_def await_def andThen_simps
          triggerHook_def hookOf_def failingHooks_def)
    done
  with loop show ?thesis by simp
qed

text \<open>
  Claim C1, amended. When the contract call of a \<^verbatim>\<open>fetchEntropy\<close> succeeds, the
  post-processing and the cache write succeed, and the dispatch of the node's
  \<^verbatim>\<open>onEntropyFetch\<close> hook is rejected, the call fails with that rejection. The state it
  leaves differs from the initial one only in the recorded effects, which end with the
  cache write and the hook dispatch: the cache write is not undone, and no karma credit,
  reputation credit or audit event follows.
\<close>

theorem fetchEntropy_hook_failure_propagates:
  "nodes w nid = Some nd \<and>
   fetchAttempts E (elemAt (contracts (entropy_agent nd)) i) (ea_method (entropy_agent nd))
     (ea_format (entropy_agent nd)) (retryPolicy (entropy_agent nd)) 0 w = (w1, Inr v) \<and>
   applyPostProcess E (postProcess (entropy_agent nd)) v w1 = (w2, Inr p) \<and>
   chainAdapter E (effects w2) (CacheEntropy nid p (cacheTTL (entropy_agent nd))) = Inr cv \<and>
   hookOf (transactionHooks nd) onEntropyFetch = Some h \<and> h \<noteq> [] \<and>
   chainAdapter E (effects w2 @ [CacheEntropy nid p (cacheTTL (entropy_agent nd))])
     (ExecuteHook h (Obj [(''nodeId'', Str nid), (''entropy'', p)])) = Inl msg
   \<longrightarrow>
   fetchEntropy E nid i w =
     (w\<lparr>effects := effects w2 @ [CacheEntropy nid p (cacheTTL (entropy_agent nd)),
                                  ExecuteHook h (Obj [(''nodeId'', Str nid), (''entropy'', p)])]\<rparr>,
      Inl (Rejected msg))"
proof (intro impI, elim conjE)
  assume nd: "nodes w nid = Some nd"
    and loop: "fetchAttempts E (elemAt (contracts (entropy_agent nd)) i) (ea_method (entropy_agent nd))
     (ea_format (entropy_agent nd)) (retryPolicy (entropy_agent nd)) 0 w = (w1, Inr v)"
    and pp: "applyPostProcess E (postProcess (entropy_agent nd)) v w1 = (w2, Inr p)"
    and cache: "chainAdapter E (effects w2) (CacheEntropy nid p (cacheTTL (entropy_agent nd))) = Inr cv"
    and hook: "hookOf (transactionHooks nd) onEntropyFetch = Some h" "h \<noteq> []"
    and rej: "chainAdapter E (effects w2 @ [CacheEntropy nid p (cacheTTL (entropy_agent nd))])
     (ExecuteHook h (Obj [(''nodeId'', Str nid), (''entropy'', p)])) = Inl msg"
  obtain es where w1: "w1 = w\<lparr>effects := effects w @ es\<rparr>"
    using fetchAttempts_effects[of E "elemAt (contracts (entropy_agent nd)) i" "ea_method (entropy_agent nd)"
        "ea_format (entropy_agent nd)" "retryPolicy (entropy_agent nd)" 0 w] loop by auto
  have w2: "w2 = w1\<lparr>effects := effects w1 @ postProcessEffects (postProcess (entropy_agent nd)) v\<rparr>"
    using fst_applyPostProcess[of E "postProcess (entropy_agent nd)" v w1] pp by simp
  have "w2\<lparr>effects := effects w2 @ [CacheEntropy nid p (cacheTTL (entropy_agent nd)),
                                  ExecuteHook h (Obj [(''nodeId'', Str nid), (''entropy'', p)])]\<rparr> =
        w\<lparr>effects := effects w2 @ [CacheEntropy nid p (cacheTTL (entropy_agent nd)),
                                  ExecuteHook h (Obj [(''nodeId'', Str nid), (''entropy'', p)])]\<rparr>"
    unfolding w2 w1 by simp
  with fetchEntropy_hook_rejected[OF nd loop pp cache hook rej]
  show "fetchEntropy E nid i w =
     (w\<lparr>effects := effects w2 @ [CacheEntropy nid p (cacheTTL (entropy_agent nd)),
                                  ExecuteHook h (Obj [(''nodeId'', Str nid), (''entropy'', p)])]\<rparr>,
      Inl (Rejected msg))"
    by simp
qed

theorem fetchEntropy_hook_failure_propagates_witness:
  "nodes demoWorld ''node-1'' = Some demoNode \<and>
   hookOf (transactionHooks demoNode) onEntropyFetch = Some ''notify'' \<and>
   fetchEntropy (demoEnv\<lparr>chainAdapter := failingHooks\<rparr>) ''node-1'' 0 demoWorld =
     (demoWorld\<lparr>effects := [CallContract (Some ''0xc0'') ''getEntropy'' ''hex'',
                               CacheEntropy ''node-1'' (Str ''abc123'') 60,
                               ExecuteHook ''notify'' (Obj [(''nodeId'', Str ''node-1''), (''entropy'', Str ''abc123'')])]\<rparr>,
      Inl (Rejected ''hook failed''))"
proof -
  let ?E = "demoEnv\<lparr>chainAdapter := failingHooks\<rparr>"
  let ?w1 = "demoWorld\<lparr>effects := effects demoWorld @ [CallContract (Some ''0xc0'') ''getEntropy'' ''hex'']\<rparr>"
  have nd: "nodes demoWorld ''node-1'' = Some demoNode"
    by (simp add: demoWorld_def)
  have vals: "elemAt (contracts (entropy_agent demoNode)) 0 = Some ''0xc0''"
    "ea_method (entropy_agent demoNode) = ''getEntropy''" "ea_format (entropy_agent demoNode) = ''hex''"
    "retryPolicy (entropy_agent demoNode) = \<lparr>maxAttempts = 3, backoffMs = 10\<rparr>"
    "cacheTTL (entropy_agent demoNode) = 60"
    by (simp_all add: demoNode_def elemAt_def)
  have loop: "fetchAttempts ?E (elemAt (contracts (entropy_agent demoNode)) 0) (ea_method (entropy_agent demoNode))
     (ea_format (entropy_agent demoNode)) (retryPolicy (entropy_agent demoNode)) 0 demoWorld = (?w1, Inr (Str ''abc123''))"
    unfolding vals by (rule fetchAttempts_resolved) (simp_all add: failingHooks_def)
  have pp: "applyPostProcess ?E (postProcess (entropy_agent demoNode)) (Str ''abc123'') ?w1 = (?w1, Inr (Str ''abc123''))"
    by (simp add: applyPostProcess_def demoNode_def)
  have cache: "chainAdapter ?E (effects ?w1) (CacheEntropy ''node-1'' (Str ''abc123'') (cacheTTL (entropy_agent demoNode)))
                 = Inr (Str ''abc123'')"
    by (simp add: failingHooks_def)
  have hook: "hookOf (transactionHooks demoNode) onEntropyFetch = Some ''notify''" "''notify'' \<noteq> []"
    by (simp_all add: hookOf_def demoNode_def)
  have rej: "chainAdapter ?E (effects ?w1 @ [CacheEntropy ''node-1'' (Str ''abc123'') (cacheTTL (entropy_agent demoNode))])
     (ExecuteHook ''notify'' (Obj [(''nodeId'', Str ''node-1''), (''entropy'', Str ''abc123'')])) = Inl ''hook failed''"
    by (simp add: failingHooks_def)
  have eff: "effects demoWorld = []" by (simp add: demoWorld_def)
  from fetchEntropy_hook_failure_propagates[of demoWorld "''node-1''" demoNode ?E 0 ?w1 "Str ''abc123''" ?w1
      "Str ''abc123''" "Str ''abc123''" "''notify''" "''hook failed''"]
    nd loop pp cache hook rej
  have "fetchEntropy ?E ''node-1'' 0 demoWorld =
     (demoWorld\<lparr>effects := effects ?w1 @ [CacheEntropy ''node-1'' (Str ''abc123'') (cacheTTL (entropy_agent demoNode)),
                                  ExecuteHook ''notify'' (Obj [(''nodeId'', Str ''node-1''), (''entropy'', Str ''abc123'')])]\<rparr>,
      Inl (Rejected ''hook failed''))"
    by blast
  then show ?thesis using nd hook(1) by (simp add: eff vals)
qed

end
